(* ===== verification/Prelude.thy ===== *)
theory Prelude
  imports Main
begin

text \<open>
  Shared vocabulary of the development: the names of the model's types (object ids,
  timestamps), the error values that stand for the responses the Express handlers send
  (an explicit \<open>res.status(c).json({message})\<close>, or an exception caught by the
  handler's \<open>catch\<close> and turned into a 500), JavaScript truthiness of optional request
  fields, and the list lemmas the collection layer and the controllers share.
\<close>

named_theorems model_defs "definitions of the model unfolded by the component proofs"

type_synonym oid = nat
  \<comment> \<open>a MongoDB ObjectId, read as the 96-bit number its 12 bytes encode\<close>
type_synonym time = int
  \<comment> \<open>a JavaScript timestamp, \<open>Date.now()\<close>: milliseconds since the epoch\<close>

text \<open>
  Exceptions thrown by the libraries the controllers call, each caught by the
  controller's \<open>catch (error)\<close> and answered with status 500 and \<open>error.message\<close>.
\<close>

datatype exn =
    CastError          \<comment> \<open>Mongoose: a string that is not a 24-digit hex ObjectId\<close>
  | ValidationError    \<comment> \<open>Mongoose: a required field absent or empty, or not castable\<close>
  | S3Error            \<comment> \<open>the AWS SDK: the blob store refused or failed a command\<close>

datatype err =
    Status nat string  \<comment> \<open>\<open>res.status(code).json({ message })\<close>, an explicit early return\<close>
  | Exception exn      \<comment> \<open>the \<open>catch\<close> branch: \<open>res.status(500).json({ message: error.message })\<close>\<close>

type_synonym 'a result = "err + 'a"

fun status_code :: "err \<Rightarrow> nat" where
  "status_code (Status c _) = c"
| "status_code (Exception _) = 500"

text \<open>
  JavaScript truthiness of a request field that is a string or absent
  (\<open>undefined\<close>): the empty string and \<open>undefined\<close> are falsy.
\<close>

fun truthy :: "string option \<Rightarrow> bool" where
  "truthy None = False"
| "truthy (Some s) = (s \<noteq> [])"

text \<open>\<open>a || b\<close> on an optional string field.\<close>

fun js_or :: "string option \<Rightarrow> 'a \<Rightarrow> (string \<Rightarrow> 'a) \<Rightarrow> 'a" where
  "js_or None d f = d"
| "js_or (Some s) d f = (if s \<noteq> [] then f s else d)"

lemma js_or_id:
  "js_or v d id = (case v of Some n \<Rightarrow> if n \<noteq> [] then n else d | None \<Rightarrow> d)"
  by (cases v) simp_all

lemma truthy_iff: "truthy v \<longleftrightarrow> (\<exists>s. v = Some s \<and> s \<noteq> [])"
  by (cases v) auto

subsection \<open>Lists of documents\<close>

text \<open>
  A MongoDB collection is modelled as the list of its documents in insertion (natural)
  order. The lemmas below are the facts about \<open>find\<close>, \<open>filter\<close> and \<open>map\<close> on such
  lists that the collection layer uses.
\<close>

lemma find_Some_in_set [intro]: "find P xs = Some x \<Longrightarrow> x \<in> set xs"
  by (induction xs) (auto split: if_splits)

lemma find_Some_holds: "find P xs = Some x \<Longrightarrow> P x"
  by (induction xs) (auto split: if_splits)

lemma find_None_iff': "find P xs = None \<longleftrightarrow> (\<forall>x \<in> set xs. \<not> P x)"
  by (induction xs) auto

lemma find_append_simp:
  "find P (xs @ ys) = (case find P xs of None \<Rightarrow> find P ys | Some x \<Rightarrow> Some x)"
  by (induction xs) auto

lemma find_filter_other:
  "(\<And>x. P x \<Longrightarrow> Q x) \<Longrightarrow> find P (filter Q xs) = find P xs"
  by (induction xs) auto

lemma find_filter_keep: "find P xs = Some x \<Longrightarrow> Q x \<Longrightarrow> find P (filter Q xs) = Some x"
  by (induction xs) (auto split: if_splits)

lemma find_Some_conj: "find P xs = Some x \<Longrightarrow> Q x \<Longrightarrow> find (\<lambda>y. P y \<and> Q y) xs = Some x"
  by (induction xs) (auto split: if_splits)

lemma find_unique_key:
  assumes "distinct (map k xs)" and "x \<in> set xs"
  shows "find (\<lambda>y. k y = k x) xs = Some x"
  using assms by (induction xs) auto

lemma distinct_key_eq:
  "distinct (map k xs) \<Longrightarrow> x \<in> set xs \<Longrightarrow> y \<in> set xs \<Longrightarrow> k x = k y \<Longrightarrow> x = y"
  by (induction xs) (auto simp: image_iff)

lemma map_replace_key:
  "(\<And>y. k (f y) = k y) \<Longrightarrow> map k (map (\<lambda>y. if k y = i then f y else y) xs) = map k xs"
  by (induction xs) auto

lemmas find_simps = find_append_simp find_None_iff'

end
