(* ===== verification/Hex.thy ===== *)
theory Hex
  imports Prelude "HOL-Library.Word"
begin

text \<open>
  The two hexadecimal encodings the program relies on. An ObjectId prints as 24
  lowercase hex digits (\<open>toString()\<close>, used in template strings such as the
  materialized path), and Mongoose casts a request string back to an ObjectId only when
  it is exactly 24 hex digits of either case (bson's \<open>/^[0-9a-fA-F]{24}$/\<close>); any other
  string raises a \<open>CastError\<close>. A token secret is \<open>crypto.randomBytes(32)\<close> printed by
  \<open>toString('hex')\<close>: two lowercase hex digits per byte. The lemmas show that parsing a
  printed id gives it back (modulo \<open>16 ^ 24\<close>), which the materialized paths rely on.
\<close>

definition hex_digit :: "nat \<Rightarrow> char" where
  "hex_digit d = (if d < 10 then char_of (48 + d) else char_of (87 + d))"

definition hex_val :: "char \<Rightarrow> nat option" where
  "hex_val c =
     (let n = of_char c :: nat in
      if 48 \<le> n \<and> n \<le> 57 then Some (n - 48)
      else if 97 \<le> n \<and> n \<le> 102 then Some (n - 87)
      else if 65 \<le> n \<and> n \<le> 70 then Some (n - 55)
      else None)"

text \<open>\<open>k\<close> hex digits of \<open>n\<close>, most significant first, as \<open>padStart(k, '0')\<close> would give.\<close>

fun hex_fixed :: "nat \<Rightarrow> nat \<Rightarrow> string" where
  "hex_fixed 0 n = []"
| "hex_fixed (Suc k) n = hex_fixed k (n div 16) @ [hex_digit (n mod 16)]"

fun parse_hex_acc :: "nat \<Rightarrow> string \<Rightarrow> nat option" where
  "parse_hex_acc a [] = Some a"
| "parse_hex_acc a (c # cs) =
     (case hex_val c of None \<Rightarrow> None | Some d \<Rightarrow> parse_hex_acc (16 * a + d) cs)"

definition oid_digits :: nat where
  "oid_digits = 24"

definition show_oid :: "oid \<Rightarrow> string" where
  "show_oid n = hex_fixed oid_digits n"

definition parse_oid :: "string \<Rightarrow> oid option" where
  "parse_oid s = (if length s = oid_digits then parse_hex_acc 0 s else None)"

definition hex_of_bytes :: "8 word list \<Rightarrow> string" where
  "hex_of_bytes bs = concat (map (\<lambda>b. hex_fixed 2 (unat b)) bs)"

subsection \<open>Digits\<close>

lemma hex_val_hex_digit [simp]: "d < 16 \<Longrightarrow> hex_val (hex_digit d) = Some d"
  by (auto simp: hex_digit_def hex_val_def Let_def)

lemma length_hex_fixed [simp]: "length (hex_fixed k n) = k"
  by (induction k arbitrary: n) auto

lemma parse_hex_acc_append:
  "parse_hex_acc a (xs @ ys) =
     (case parse_hex_acc a xs of None \<Rightarrow> None | Some b \<Rightarrow> parse_hex_acc b ys)"
  by (induction a xs rule: parse_hex_acc.induct) (auto split: option.splits)

lemma parse_hex_acc_hex_fixed:
  "parse_hex_acc a (hex_fixed k n) = Some (a * 16 ^ k + n mod 16 ^ k)"
proof (induction k arbitrary: a n)
  case 0
  then show ?case by simp
next
  case (Suc k)
  have digits: "16 * (n div 16 mod 16 ^ k) + n mod 16 = n mod 16 ^ Suc k"
    using mod_mult2_eq [of n 16 "16 ^ k"] by simp
  have "parse_hex_acc a (hex_fixed (Suc k) n) =
      Some (16 * (a * 16 ^ k + n div 16 mod 16 ^ k) + n mod 16)"
    by (simp add: parse_hex_acc_append Suc.IH)
  also have "\<dots> = Some (a * 16 ^ Suc k + (16 * (n div 16 mod 16 ^ k) + n mod 16))"
    by (simp add: algebra_simps)
  also have "\<dots> = Some (a * 16 ^ Suc k + n mod 16 ^ Suc k)"
    by (simp only: digits)
  finally show ?case .
qed

subsection \<open>ObjectId strings\<close>

lemma length_show_oid [simp]: "length (show_oid n) = 24"
  by (simp add: show_oid_def oid_digits_def)

lemma show_oid_nonempty [simp]: "show_oid i \<noteq> []"
proof
  assume "show_oid i = []"
  then have "length (show_oid i) = 0" by simp
  then show False by simp
qed

lemma parse_show_oid_mod: "parse_oid (show_oid n) = Some (n mod 16 ^ 24)"
  by (simp add: parse_oid_def show_oid_def oid_digits_def parse_hex_acc_hex_fixed)

subsection \<open>Byte strings\<close>

lemma length_hex_of_bytes [simp]: "length (hex_of_bytes bs) = 2 * length bs"
  by (induction bs) (simp_all add: hex_of_bytes_def)

end
