(* ===== verification/Models.thy ===== *)
theory Models
  imports Hex
begin

text \<open>
  The persisted data of the application (src/models/*.js, and the User model that the
  controllers import but that is not part of the sources) and the part of the Mongoose
  model API the controllers call. A collection is the list of its documents in natural
  (insertion) order; the whole persisted world is one record \<open>state\<close>, together with the
  two external resources the controllers touch: the S3 bucket behind the BlobStore (its
  objects by key, and the log of the commands sent to it) and the outbox of messages
  handed to the mail transporter. ObjectIds are drawn from a counter,
  \<open>next_oid\<close>, which stands for the driver's generator of unique ids.
\<close>

subsection \<open>Documents\<close>

datatype token_type = Activation | Reset
  \<comment> \<open>\<open>type: { enum: ['activation', 'reset'] }\<close>\<close>

record token =
  token_id :: oid
  token_userId :: oid
  token_value :: string
  token_type :: token_type
  token_createdAt :: time

record folder =
  folder_id :: oid
  folder_user :: oid
  folder_name :: string
  parentFolder :: "oid option"
  folder_path :: string
  folder_createdAt :: time

record file_doc =
  file_id :: oid
  file_user :: oid
  file_name :: string
  s3Key :: string
  file_folder :: "oid option"
  file_size :: nat
  mimeType :: string
  file_createdAt :: time

datatype user_status = Inactive | Active

text \<open>
  The stored password is the digest of the pre-save hook. The credential verifier is
  idealised: \<open>matchPassword p\<close> accepts exactly the password that was hashed.
\<close>

datatype credential = Hashed string

fun matchPassword :: "string \<Rightarrow> credential \<Rightarrow> bool" where
  "matchPassword p (Hashed q) = (p = q)"

record user =
  user_id :: oid
  firstName :: string
  lastName :: string
  email :: string
  password :: credential
  status :: user_status
  user_createdAt :: time

text \<open>The commands the controllers send to the S3 client (\<open>s3.send\<close>).\<close>

datatype s3_command = DeleteObject string | GetObject string | PutObject string

text \<open>A message handed to nodemailer by \<open>sendEmail\<close>.\<close>

record mail =
  mail_to :: string
  mail_subject :: string
  mail_text :: string

record state =
  users :: "user list"
  tokens :: "token list"
  folders :: "folder list"
  files :: "file_doc list"
  next_oid :: oid
  bucket :: "string \<rightharpoonup> string"
  s3_calls :: "s3_command list"
  outbox :: "mail list"

definition init_state :: state where
  "init_state = \<lparr>users = [], tokens = [], folders = [], files = [], next_oid = 0,
                 bucket = Map.empty, s3_calls = [], outbox = []\<rparr>"

subsection \<open>The Mongoose model API\<close>

text \<open>
  Each operation is generic in the document type and takes the \<open>_id\<close> selector \<open>k\<close>.
  \<open>cast_oid\<close> is the cast Mongoose applies to a string used as an ObjectId: a string that
  is not 24 hex digits throws \<open>CastError\<close>.
\<close>

definition cast_oid :: "string \<Rightarrow> oid result" where
  "cast_oid s = (case parse_oid s of None \<Rightarrow> Inl (Exception CastError) | Some i \<Rightarrow> Inr i)"

definition findById :: "('d \<Rightarrow> oid) \<Rightarrow> string \<Rightarrow> 'd list \<Rightarrow> 'd option result" where
  "findById k s xs = (case cast_oid s of Inl e \<Rightarrow> Inl e | Inr i \<Rightarrow> Inr (find (\<lambda>d. k d = i) xs))"

fun deleteOne :: "('d \<Rightarrow> oid) \<Rightarrow> oid \<Rightarrow> 'd list \<Rightarrow> 'd list" where
  "deleteOne k i [] = []"
| "deleteOne k i (d # ds) = (if k d = i then ds else d # deleteOne k i ds)"

definition save :: "('d \<Rightarrow> oid) \<Rightarrow> 'd \<Rightarrow> 'd list \<Rightarrow> 'd list" where
  "save k d xs = map (\<lambda>y. if k y = k d then d else y) xs"

text \<open>Well-formedness of a collection: ids are distinct and were drawn from the counter.\<close>

definition coll_wf :: "('d \<Rightarrow> oid) \<Rightarrow> oid \<Rightarrow> 'd list \<Rightarrow> bool" where
  "coll_wf k n xs \<longleftrightarrow> distinct (map k xs) \<and> (\<forall>d \<in> set xs. k d < n)"

subsection \<open>Lemmas of the collection layer\<close>

lemma set_deleteOne_subset: "set (deleteOne k i xs) \<subseteq> set xs"
  by (induction xs) auto

lemma distinct_map_deleteOne: "distinct (map g xs) \<Longrightarrow> distinct (map g (deleteOne k i xs))"
  by (induction xs) (auto dest: set_deleteOne_subset [THEN subsetD])

lemma deleteOne_distinct:
  "distinct (map k xs) \<Longrightarrow> deleteOne k i xs = filter (\<lambda>d. k d \<noteq> i) xs"
proof (induction xs)
  case Nil
  then show ?case by simp
next
  case (Cons d ds)
  show ?case
  proof (cases "k d = i")
    case True
    with Cons.prems have "\<forall>y \<in> set ds. k y \<noteq> i" by (auto simp: image_iff)
    with True show ?thesis by (simp add: filter_id_conv)
  next
    case False
    with Cons show ?thesis by simp
  qed
qed

lemma map_deleteOne_distinct: "distinct (map k xs) \<Longrightarrow> distinct (map k (deleteOne k i xs))"
  by (simp add: deleteOne_distinct distinct_map_filter)

lemma find_deleteOne_gone:
  "distinct (map k xs) \<Longrightarrow> find (\<lambda>d. k d = i) (deleteOne k i xs) = None"
  by (simp add: deleteOne_distinct find_None_iff')

lemma find_deleteOne_other:
  "distinct (map k xs) \<Longrightarrow> j \<noteq> i \<Longrightarrow>
     find (\<lambda>d. k d = j) (deleteOne k i xs) = find (\<lambda>d. k d = j) xs"
  using find_filter_other [of "\<lambda>d. k d = j" "\<lambda>d. k d \<noteq> i" xs] by (simp add: deleteOne_distinct)

lemma coll_wf_deleteOne [intro]: "coll_wf k n xs \<Longrightarrow> coll_wf k n (deleteOne k i xs)"
  using set_deleteOne_subset by (fastforce simp: coll_wf_def map_deleteOne_distinct)

lemma map_key_save [simp]: "map k (save k d xs) = map k xs"
  by (induction xs) (auto simp: save_def)

lemma map_save_agree:
  "(\<forall>y \<in> set xs. k y = k d \<longrightarrow> g y = g d) \<Longrightarrow> map g (save k d xs) = map g xs"
  by (induction xs) (auto simp: save_def)

lemma set_save: "x \<in> set (save k d xs) \<Longrightarrow> x \<in> set xs \<or> x = d"
  by (auto simp: save_def)

lemma set_save_replace:
  assumes "distinct (map k xs)" and "x \<in> set xs" and "k d = k x"
  shows "set (save k d xs) = insert d (set xs - {x})"
  using assms
proof (induction xs)
  case Nil
  then show ?case by simp
next
  case (Cons y ys)
  show ?case
  proof (cases "y = x")
    case True
    with Cons.prems have "\<forall>z \<in> set ys. k z \<noteq> k x" by (auto simp: image_iff)
    with True Cons.prems(3) have "save k d (y # ys) = d # ys" by (simp add: save_def map_idI)
    moreover from Cons.prems True have "x \<notin> set ys" by auto
    ultimately show ?thesis using True by auto
  next
    case False
    with Cons.prems have "x \<in> set ys" and "k y \<noteq> k x" by auto
    then have "set (save k d ys) = insert d (set ys - {x})" using Cons by simp
    then show ?thesis using False \<open>k y \<noteq> k x\<close> Cons.prems(3) by (auto simp: save_def)
  qed
qed

lemma coll_wf_save [intro]: "coll_wf k n xs \<Longrightarrow> k d < n \<Longrightarrow> coll_wf k n (save k d xs)"
  unfolding coll_wf_def by (metis map_key_save set_save)

lemma coll_wf_create [intro]:
  "coll_wf k n xs \<Longrightarrow> k d = n \<Longrightarrow> coll_wf k (Suc n) (xs @ [d])"
  by (auto simp: coll_wf_def)

lemma coll_wf_mono: "coll_wf k n xs \<Longrightarrow> n \<le> m \<Longrightarrow> coll_wf k m xs"
  by (auto simp: coll_wf_def)

lemma find_create_fresh:
  "coll_wf k n xs \<Longrightarrow> find (\<lambda>d. k d = n) xs = None"
  by (auto simp: coll_wf_def find_None_iff')

lemma find_save_same:
  "coll_wf k n xs \<Longrightarrow> x \<in> set xs \<Longrightarrow> k d = k x \<Longrightarrow>
     find (\<lambda>y. k y = k x) (save k d xs) = Some d"
proof (induction xs)
  case Nil
  then show ?case by simp
next
  case (Cons y ys)
  then show ?case by (auto simp: coll_wf_def save_def)
qed

lemma find_save_other:
  "k d \<noteq> j \<Longrightarrow> find (\<lambda>y. k y = j) (save k d xs) = find (\<lambda>y. k y = j) xs"
  by (induction xs) (auto simp: save_def)

lemma findById_eq:
  "findById k s xs =
     (case parse_oid s of None \<Rightarrow> Inl (Exception CastError) | Some i \<Rightarrow> Inr (find (\<lambda>d. k d = i) xs))"
  by (simp add: findById_def cast_oid_def split: option.splits)

lemma findById_show:
  "i < 16 ^ 24 \<Longrightarrow> findById k (show_oid i) xs = Inr (find (\<lambda>d. k d = i) xs)"
  by (simp add: findById_def cast_oid_def parse_show_oid_mod)

lemmas collection_simps = find_deleteOne_gone find_deleteOne_other find_save_other
  find_create_fresh findById_show

end
