(* ===== verification/Folders.thy ===== *)
theory Folders
  imports Models
begin

text \<open>
  The folder hierarchy (src/controllers/folderController.js). Each handler takes the
  authenticated user's id (set by the \<open>protect\<close> middleware), the request fields it
  reads, and the persisted state; it returns the response (an error of \<open>err\<close>, or the
  JSON value of the success response) and the new state. Early returns and the
  \<open>catch\<close> branch return the state unchanged.
\<close>

subsection \<open>Operations\<close>

text \<open>The materialized path of a child of \<open>parent\<close> (line 15).\<close>

definition child_path :: "folder \<Rightarrow> string" where
  "child_path parent =
     (if folder_path parent \<noteq> [] then folder_path parent @ ''/'' @ show_oid (folder_id parent)
      else ''/'' @ show_oid (folder_id parent))"

text \<open>
  Lines 6--16: no parent (absent or empty: falsy) gives the empty path; otherwise the
  parent is loaded, must exist (404) and be owned by the caller (403), and gives the path
  and the parent reference to store (\<open>parentFolder || null\<close>, cast to the parent's id).
\<close>

fun parent_of_request :: "oid \<Rightarrow> string option \<Rightarrow> folder list \<Rightarrow> (string \<times> oid option) result" where
  "parent_of_request uid None fs = Inr ([], None)"
| "parent_of_request uid (Some pf) fs =
     (if pf = [] then Inr ([], None)
      else case findById folder_id pf fs of
        Inl e \<Rightarrow> Inl e
      | Inr None \<Rightarrow> Inl (Status 404 ''Parent folder not found'')
      | Inr (Some parent) \<Rightarrow>
          if folder_user parent \<noteq> uid then Inl (Status 403 ''Not authorized'')
          else Inr (child_path parent, Some (folder_id parent)))"

text \<open>
  Lines 3--29. \<open>Folder.create\<close> validates the required \<open>name\<close> (absent or empty fails
  with a \<open>ValidationError\<close>), draws a fresh ObjectId and appends the document.
\<close>

definition createFolder ::
  "oid \<Rightarrow> string option \<Rightarrow> string option \<Rightarrow> time \<Rightarrow> state \<Rightarrow> folder result \<times> state" where
  "createFolder uid name parent now s =
     (case parent_of_request uid parent (folders s) of
        Inl e \<Rightarrow> (Inl e, s)
      | Inr (path, par) \<Rightarrow>
          (case name of
             None \<Rightarrow> (Inl (Exception ValidationError), s)
           | Some n \<Rightarrow>
               if n = [] then (Inl (Exception ValidationError), s)
               else
                 (let f = \<lparr>folder_id = next_oid s, folder_user = uid, folder_name = n,
                           parentFolder = par, folder_path = path, folder_createdAt = now\<rparr>
                  in (Inr f, s\<lparr>folders := folders s @ [f], next_oid := Suc (next_oid s)\<rparr>))))"

text \<open>
  Lines 33--41: the \<open>parent\<close> query parameter selects a parent only when it is a
  non-empty string other than \<open>'null'\<close> and \<open>'undefined'\<close>; otherwise the query asks
  for \<open>parentFolder: null\<close>, the root.
\<close>

fun query_ref :: "string option \<Rightarrow> string option" where
  "query_ref None = None"
| "query_ref (Some p) = (if p = [] \<or> p = ''null'' \<or> p = ''undefined'' then None else Some p)"

definition getFolders :: "oid \<Rightarrow> string option \<Rightarrow> state \<Rightarrow> folder list result" where
  "getFolders uid parent s =
     (case query_ref parent of
        None \<Rightarrow> Inr (filter (\<lambda>f. folder_user f = uid \<and> parentFolder f = None) (folders s))
      | Some p \<Rightarrow>
          (case cast_oid p of
             Inl e \<Rightarrow> Inl e
           | Inr i \<Rightarrow> Inr (filter (\<lambda>f. folder_user f = uid \<and> parentFolder f = Some i) (folders s))))"

text \<open>
  The lookup shared by the handlers that address one folder by \<open>req.params.id\<close>:
  the folder must exist (404) before its owner is compared with the caller (403).
\<close>

definition load_owned_folder :: "oid \<Rightarrow> string \<Rightarrow> folder list \<Rightarrow> folder result" where
  "load_owned_folder uid fid fs =
     (case findById folder_id fid fs of
        Inl e \<Rightarrow> Inl e
      | Inr None \<Rightarrow> Inl (Status 404 ''Folder not found'')
      | Inr (Some f) \<Rightarrow> if folder_user f \<noteq> uid then Inl (Status 403 ''Not authorized'') else Inr f)"

text \<open>Lines 50--63: no cascade to sub-folders or files.\<close>

definition deleteFolder :: "oid \<Rightarrow> string \<Rightarrow> state \<Rightarrow> string result \<times> state" where
  "deleteFolder uid fid s =
     (case load_owned_folder uid fid (folders s) of
        Inl e \<Rightarrow> (Inl e, s)
      | Inr f \<Rightarrow> (Inr ''Folder removed'', s\<lparr>folders := deleteOne folder_id (folder_id f) (folders s)\<rparr>))"

text \<open>Lines 65--79: \<open>folder.name = req.body.name || folder.name\<close>, then \<open>save()\<close>.\<close>

definition renameFolder :: "oid \<Rightarrow> string \<Rightarrow> string option \<Rightarrow> state \<Rightarrow> folder result \<times> state" where
  "renameFolder uid fid name s =
     (case load_owned_folder uid fid (folders s) of
        Inl e \<Rightarrow> (Inl e, s)
      | Inr f \<Rightarrow>
          (let f' = f\<lparr>folder_name := js_or name (folder_name f) id\<rparr>
           in (Inr f', s\<lparr>folders := save folder_id f' (folders s)\<rparr>)))"

subsection \<open>Invariant of the hierarchy\<close>

text \<open>
  What the handlers keep true of the folder collection: ids are distinct and below the
  id counter; a folder's parent was created before it (a smaller id, so following parents
  always ends); and wherever the parent is still present, it has the child's owner and the
  child's path is the parent's path extended by the parent's id.
\<close>

definition parent_ok :: "folder \<Rightarrow> folder \<Rightarrow> bool" where
  "parent_ok f q \<longleftrightarrow>
     (parentFolder f = Some (folder_id q) \<longrightarrow>
        folder_user q = folder_user f \<and> folder_path f = child_path q)"

definition root_or_older :: "folder \<Rightarrow> bool" where
  "root_or_older f \<longleftrightarrow>
     (case parentFolder f of None \<Rightarrow> folder_path f = [] | Some p \<Rightarrow> p < folder_id f)"

definition folders_inv :: "oid \<Rightarrow> folder list \<Rightarrow> bool" where
  "folders_inv n fs \<longleftrightarrow>
     coll_wf folder_id n fs \<and>
     (\<forall>f \<in> set fs. root_or_older f) \<and>
     (\<forall>f \<in> set fs. \<forall>q \<in> set fs. parent_ok f q)"

subsection \<open>Ancestor chains\<close>

text \<open>
  The ancestor chain of a folder, from the root down to its parent, found by following
  \<open>parentFolder\<close> links. Each step spends one unit of fuel; a link to a folder that is no
  longer present, or too little fuel, gives \<open>None\<close>.
\<close>

fun ancestors :: "nat \<Rightarrow> folder list \<Rightarrow> oid \<Rightarrow> oid list option" where
  "ancestors 0 fs i = None"
| "ancestors (Suc n) fs i =
     (case find (\<lambda>f. folder_id f = i) fs of
        None \<Rightarrow> None
      | Some f \<Rightarrow>
          (case parentFolder f of
             None \<Rightarrow> Some []
           | Some p \<Rightarrow> map_option (\<lambda>as. as @ [p]) (ancestors n fs p)))"

definition path_of_ids :: "oid list \<Rightarrow> string" where
  "path_of_ids as = concat (map (\<lambda>a. ''/'' @ show_oid a) as)"

fun decode_path :: "string \<Rightarrow> oid list option" where
  "decode_path [] = Some []"
| "decode_path (c # cs) =
     (if c = CHR ''/'' then
        (case parse_oid (take 24 cs) of
           None \<Rightarrow> None
         | Some a \<Rightarrow> map_option (Cons a) (decode_path (drop 24 cs)))
      else None)"

definition parents_present :: "folder list \<Rightarrow> bool" where
  "parents_present fs \<longleftrightarrow>
     (\<forall>f \<in> set fs. \<forall>p. parentFolder f = Some p \<longrightarrow> (\<exists>q \<in> set fs. folder_id q = p))"

subsection \<open>Lemmas\<close>

lemma child_path_eq: "child_path p = folder_path p @ ''/'' @ show_oid (folder_id p)"
  by (simp add: child_path_def)

lemma child_path_rename [simp]: "child_path (f\<lparr>folder_name := x\<rparr>) = child_path f"
  by (simp add: child_path_def)

lemma parent_ok_rename [simp]:
  "parent_ok (f\<lparr>folder_name := x\<rparr>) q = parent_ok f q"
  "parent_ok f (q\<lparr>folder_name := x\<rparr>) = parent_ok f q"
  by (simp_all add: parent_ok_def)

lemma root_or_older_rename [simp]: "root_or_older (f\<lparr>folder_name := x\<rparr>) = root_or_older f"
  by (simp add: root_or_older_def split: option.splits)

lemma load_owned_folder_Inr:
  "load_owned_folder uid fid fs = Inr f \<Longrightarrow>
     f \<in> set fs \<and> folder_user f = uid \<and> parse_oid fid = Some (folder_id f)"
  by (auto simp: load_owned_folder_def findById_eq split: option.splits if_splits dest: find_Some_holds)

lemma parent_of_request_Inr:
  "parent_of_request uid pf fs = Inr (path, par) \<Longrightarrow>
     par = None \<and> path = [] \<or>
     (\<exists>q \<in> set fs. par = Some (folder_id q) \<and> folder_user q = uid \<and> path = child_path q)"
  by (cases pf) (auto simp: findById_eq split: option.splits if_splits dest: find_Some_holds)

lemma folders_inv_subset:
  "folders_inv n fs \<Longrightarrow> set fs' \<subseteq> set fs \<Longrightarrow> coll_wf folder_id n fs' \<Longrightarrow> folders_inv n fs'"
  unfolding folders_inv_def by (simp add: subset_iff)

lemma createFolder_inv:
  assumes inv: "folders_inv (next_oid s) (folders s)"
    and run: "createFolder uid name parent now s = (r, s')"
  shows "folders_inv (next_oid s') (folders s')"
proof (cases "\<exists>f. r = Inr f")
  case False
  with run show ?thesis using inv
    by (auto simp: createFolder_def Let_def split: sum.splits option.splits if_splits prod.splits)
next
  case True
  then obtain f where rf: "r = Inr f" by blast
  with run obtain path par n where
    pr: "parent_of_request uid parent (folders s) = Inr (path, par)" and
    f: "f = \<lparr>folder_id = next_oid s, folder_user = uid, folder_name = n,
            parentFolder = par, folder_path = path, folder_createdAt = now\<rparr>" and
    s': "s' = s\<lparr>folders := folders s @ [f], next_oid := Suc (next_oid s)\<rparr>"
    by (auto simp: createFolder_def Let_def split: sum.splits option.splits if_splits prod.splits)
  have fresh: "\<forall>q \<in> set (folders s). folder_id q < next_oid s"
    using inv by (simp add: folders_inv_def coll_wf_def)
  have wf': "coll_wf folder_id (next_oid s') (folders s')"
    using inv f s' by (auto simp: folders_inv_def intro: coll_wf_create)
  have older: "\<forall>g \<in> set (folders s). parent_ok g f"
  proof
    fix g assume g: "g \<in> set (folders s)"
    with inv fresh have "root_or_older g" and "folder_id g < next_oid s"
      by (auto simp: folders_inv_def)
    then have "parentFolder g \<noteq> Some (folder_id f)"
      using f by (auto simp: root_or_older_def)
    then show "parent_ok g f" by (simp add: parent_ok_def)
  qed
  have newer: "\<forall>q \<in> set (folders s'). parent_ok f q"
  proof
    fix q assume q: "q \<in> set (folders s')"
    show "parent_ok f q"
    proof (cases "q = f")
      case True
      with f fresh show ?thesis using parent_of_request_Inr [OF pr]
        by (auto simp: parent_ok_def)
    next
      case False
      with q s' have "q \<in> set (folders s)" by simp
      with parent_of_request_Inr [OF pr] inv f show ?thesis
        by (auto simp: parent_ok_def folders_inv_def coll_wf_def dest: distinct_key_eq)
    qed
  qed
  have acyclic: "root_or_older f"
    using parent_of_request_Inr [OF pr] fresh f by (auto simp: root_or_older_def)
  show ?thesis
    using inv wf' older newer acyclic s' by (auto simp: folders_inv_def)
qed

lemma deleteFolder_inv:
  assumes inv: "folders_inv (next_oid s) (folders s)"
    and run: "deleteFolder uid fid s = (r, s')"
  shows "folders_inv (next_oid s') (folders s')"
proof (cases "load_owned_folder uid fid (folders s)")
  case (Inl e)
  with run inv show ?thesis by (simp add: deleteFolder_def)
next
  case (Inr f)
  with run have s': "s' = s\<lparr>folders := deleteOne folder_id (folder_id f) (folders s)\<rparr>"
    by (simp add: deleteFolder_def)
  from inv have "coll_wf folder_id (next_oid s) (folders s)" by (simp add: folders_inv_def)
  then have "coll_wf folder_id (next_oid s) (deleteOne folder_id (folder_id f) (folders s))" ..
  with inv s' show ?thesis by (simp add: folders_inv_subset set_deleteOne_subset)
qed

lemma renameFolder_inv:
  assumes inv: "folders_inv (next_oid s) (folders s)"
    and run: "renameFolder uid fid name s = (r, s')"
  shows "folders_inv (next_oid s') (folders s')"
proof (cases "load_owned_folder uid fid (folders s)")
  case (Inl e)
  with run inv show ?thesis by (simp add: renameFolder_def)
next
  case (Inr f)
  define f' where "f' = f\<lparr>folder_name := js_or name (folder_name f) id\<rparr>"
  with Inr run have s': "s' = s\<lparr>folders := save folder_id f' (folders s)\<rparr>"
    by (simp add: renameFolder_def Let_def)
  from Inr have f: "f \<in> set (folders s)" by (simp add: load_owned_folder_Inr)
  from inv have wf: "coll_wf folder_id (next_oid s) (folders s)" by (simp add: folders_inv_def)
  with f have "folder_id f' < next_oid s" by (simp add: f'_def coll_wf_def)
  with wf have wf': "coll_wf folder_id (next_oid s) (save folder_id f' (folders s))" ..
  from wf f have set': "set (save folder_id f' (folders s)) = insert f' (set (folders s) - {f})"
    by (intro set_save_replace) (simp_all add: coll_wf_def f'_def)
  from inv f have "root_or_older f'"
    by (simp add: folders_inv_def f'_def)
  moreover from inv f have "\<forall>q \<in> set (folders s). parent_ok f' q \<and> parent_ok q f'"
    by (simp add: folders_inv_def f'_def)
  moreover from inv f have "parent_ok f' f'"
    by (simp add: folders_inv_def f'_def)
  ultimately show ?thesis
    using inv wf' set' s' unfolding folders_inv_def by auto
qed

lemma folders_inv_init: "folders_inv n []"
  by (simp add: folders_inv_def coll_wf_def)

lemma path_of_ids_snoc: "path_of_ids (as @ [a]) = path_of_ids as @ ''/'' @ show_oid a"
  by (simp add: path_of_ids_def)

lemma ancestors_found:
  "ancestors k fs i = Some as \<Longrightarrow> \<exists>f \<in> set fs. folder_id f = i"
  by (cases k) (auto split: option.splits dest: find_Some_holds)

lemma ancestors_ids:
  "ancestors k fs i = Some as \<Longrightarrow> \<forall>a \<in> set as. \<exists>f \<in> set fs. folder_id f = a"
proof (induction k arbitrary: i as)
  case 0
  then show ?case by simp
next
  case (Suc k)
  then obtain f where fnd: "find (\<lambda>f. folder_id f = i) fs = Some f"
    by (auto split: option.splits)
  show ?case
  proof (cases "parentFolder f")
    case None
    with Suc.prems fnd show ?thesis by simp
  next
    case (Some p)
    with Suc.prems fnd obtain as' where rec: "ancestors k fs p = Some as'" and as: "as = as' @ [p]"
      by auto
    from rec have "\<exists>g \<in> set fs. folder_id g = p" by (rule ancestors_found)
    with Suc.IH [OF rec] as show ?thesis by auto
  qed
qed

lemma ancestors_path:
  assumes "folders_inv n fs"
  shows "f \<in> set fs \<Longrightarrow> ancestors k fs (folder_id f) = Some as \<Longrightarrow> folder_path f = path_of_ids as"
proof (induction k arbitrary: f as)
  case 0
  then show ?case by simp
next
  case (Suc k)
  from assms have wf: "distinct (map folder_id fs)" by (simp add: folders_inv_def coll_wf_def)
  from wf Suc.prems(1) have fnd: "find (\<lambda>g. folder_id g = folder_id f) fs = Some f"
    by (rule find_unique_key)
  show ?case
  proof (cases "parentFolder f")
    case None
    with assms Suc.prems fnd show ?thesis
      by (auto simp: folders_inv_def root_or_older_def path_of_ids_def)
  next
    case (Some p)
    with Suc.prems fnd obtain as' where rec: "ancestors k fs p = Some as'" and as: "as = as' @ [p]"
      by auto
    from rec obtain q where q: "q \<in> set fs" and qid: "folder_id q = p"
      using ancestors_found by blast
    from Suc.IH [OF q] rec qid have "folder_path q = path_of_ids as'" by simp
    moreover from assms Suc.prems(1) q have "parent_ok f q" by (simp add: folders_inv_def)
    ultimately show ?thesis
      using Some qid as by (simp add: parent_ok_def child_path_eq path_of_ids_snoc)
  qed
qed

lemma decode_path_of_ids:
  "\<forall>a \<in> set as. a < 16 ^ 24 \<Longrightarrow> decode_path (path_of_ids as) = Some as"
proof (induction as)
  case Nil
  then show ?case by (simp add: path_of_ids_def)
next
  case (Cons a as)
  have eq: "path_of_ids (a # as) = CHR ''/'' # show_oid a @ path_of_ids as"
    by (simp add: path_of_ids_def)
  from Cons show ?case
    by (simp only: eq decode_path.simps) (simp add: parse_show_oid_mod)
qed

lemma ancestors_mono:
  "ancestors k fs i = Some as \<Longrightarrow> k \<le> k' \<Longrightarrow> ancestors k' fs i = Some as"
proof (induction k arbitrary: k' i as)
  case 0
  then show ?case by simp
next
  case (Suc k)
  then obtain k'' where k': "k' = Suc k''" and le: "k \<le> k''" by (cases k') auto
  show ?case
  proof (cases "find (\<lambda>f. folder_id f = i) fs")
    case None
    with Suc.prems show ?thesis by simp
  next
    case (Some f)
    show ?thesis
    proof (cases "parentFolder f")
      case None
      with Some Suc.prems k' show ?thesis by simp
    next
      case (Some p)
      with \<open>find _ fs = Some f\<close> Suc.prems obtain as' where
        "ancestors k fs p = Some as'" and "as = as' @ [p]" by auto
      with Suc.IH le have "ancestors k'' fs p = Some as'" by blast
      with \<open>find _ fs = Some f\<close> Some k' \<open>as = as' @ [p]\<close> show ?thesis by simp
    qed
  qed
qed

lemma ancestors_enough_fuel:
  assumes inv: "folders_inv n fs" and closed: "parents_present fs"
  shows "f \<in> set fs \<Longrightarrow> \<exists>as. ancestors (Suc (folder_id f)) fs (folder_id f) = Some as"
proof (induction "folder_id f" arbitrary: f rule: less_induct)
  case less
  from inv have wf: "distinct (map folder_id fs)" by (simp add: folders_inv_def coll_wf_def)
  from wf less.prems have fnd: "find (\<lambda>g. folder_id g = folder_id f) fs = Some f"
    by (rule find_unique_key)
  show ?case
  proof (cases "parentFolder f")
    case None
    with fnd show ?thesis by simp
  next
    case (Some p)
    with inv less.prems have lt: "p < folder_id f"
      by (auto simp: folders_inv_def root_or_older_def)
    from closed less.prems Some obtain q where q: "q \<in> set fs" "folder_id q = p"
      by (auto simp: parents_present_def)
    with less.hyps lt obtain as where "ancestors (Suc p) fs p = Some as" by auto
    moreover from lt have "Suc p \<le> folder_id f" by simp
    ultimately have "ancestors (folder_id f) fs p = Some as" by (rule ancestors_mono)
    with fnd Some show ?thesis by simp
  qed
qed

lemma load_owned_folder_found:
  "distinct (map folder_id fs) \<Longrightarrow> f \<in> set fs \<Longrightarrow> folder_id f < 16 ^ 24 \<Longrightarrow>
     load_owned_folder uid (show_oid (folder_id f)) fs =
       (if folder_user f \<noteq> uid then Inl (Status 403 ''Not authorized'') else Inr f)"
  by (simp add: load_owned_folder_def findById_show find_unique_key)

lemma folders_inv_distinct: "folders_inv n fs \<Longrightarrow> distinct (map folder_id fs)"
  by (simp add: folders_inv_def coll_wf_def)

lemma deleteFolder_Inr:
  "deleteFolder uid fid s = (Inr msg, s') \<Longrightarrow>
     \<exists>f. load_owned_folder uid fid (folders s) = Inr f \<and>
         s' = s\<lparr>folders := deleteOne folder_id (folder_id f) (folders s)\<rparr>"
  by (auto simp: deleteFolder_def split: sum.splits)

lemma renameFolder_Inr:
  "renameFolder uid fid name s = (Inr f', s') \<Longrightarrow>
     \<exists>f. load_owned_folder uid fid (folders s) = Inr f \<and> f' = f\<lparr>folder_name := js_or name (folder_name f) id\<rparr> \<and>
         s' = s\<lparr>folders := save folder_id f' (folders s)\<rparr>"
  by (auto simp: renameFolder_def Let_def split: sum.splits)

subsection \<open>Properties of the folder handlers\<close>

text \<open>
  (C4) Creating a sub-folder of a folder the caller owns appends one document with a fresh
  id, the caller as owner, the parent's id as \<open>parentFolder\<close>, and as path the parent's
  path followed by a slash and the parent's id.
\<close>

theorem createFolder_subfolder:
  assumes inv: "folders_inv (next_oid s) (folders s)"
    and p: "p \<in> set (folders s)" and own: "folder_user p = uid"
    and bound: "folder_id p < 16 ^ 24" and name: "n \<noteq> []"
  shows "\<exists>f. createFolder uid (Some n) (Some (show_oid (folder_id p))) now s =
              (Inr f, s\<lparr>folders := folders s @ [f], next_oid := Suc (next_oid s)\<rparr>) \<and>
            folder_id f = next_oid s \<and> folder_user f = uid \<and> folder_name f = n \<and>
            parentFolder f = Some (folder_id p) \<and>
            folder_path f = folder_path p @ ''/'' @ show_oid (folder_id p)"
proof -
  from inv have "distinct (map folder_id (folders s))" by (rule folders_inv_distinct)
  with p bound have "findById folder_id (show_oid (folder_id p)) (folders s) = Inr (Some p)"
    by (simp add: findById_show find_unique_key)
  with own name show ?thesis
    by (simp add: createFolder_def child_path_eq Let_def)
qed

text \<open>
  (C5) A sub-folder cannot be created under another user's folder: the answer is 403 and
  nothing is stored.
\<close>

theorem createFolder_foreign_parent:
  assumes "distinct (map folder_id (folders s))"
    and "p \<in> set (folders s)" and "folder_user p \<noteq> uid" and "folder_id p < 16 ^ 24"
  shows "createFolder uid name (Some (show_oid (folder_id p))) now s =
           (Inl (Status 403 ''Not authorized''), s)"
  using assms by (simp add: createFolder_def findById_show find_unique_key)

text \<open>
  (C23) Existence is checked before ownership: deleting a well-formed id that names no
  folder answers 404, whoever asks, and changes nothing.
\<close>

theorem deleteFolder_absent_is_404:
  assumes "parse_oid fid = Some i" and "\<forall>f \<in> set (folders s). folder_id f \<noteq> i"
  shows "deleteFolder uid fid s = (Inl (Status 404 ''Folder not found''), s)"
proof -
  from assms(2) have "find (\<lambda>d. folder_id d = i) (folders s) = None" by (simp add: find_None_iff')
  with assms(1) show ?thesis by (simp add: deleteFolder_def load_owned_folder_def findById_eq)
qed

text \<open>
  (C24) An id that is not 24 hex digits is not answered with 404: Mongoose's cast throws,
  and the handler answers 500 with the \<open>CastError\<close>, changing nothing.
\<close>

theorem deleteFolder_malformed_id:
  "parse_oid fid = None \<Longrightarrow> deleteFolder uid fid s = (Inl (Exception CastError), s)"
  by (simp add: deleteFolder_def load_owned_folder_def findById_eq)

text \<open>
  (C25) A listing without a parent filter (parameter absent, empty, \<open>'null'\<close> or
  \<open>'undefined'\<close>) returns exactly the caller's root folders, never all folders.
\<close>

theorem getFolders_root_only:
  assumes "getFolders uid parent s = Inr fs" and "query_ref parent = None"
  shows "set fs = {f \<in> set (folders s). folder_user f = uid \<and> parentFolder f = None}"
  using assms by (auto simp: getFolders_def)

text \<open>
  (C26) Deleting a folder does not cascade: a sub-folder of the deleted folder stays in the
  collection with a \<open>parentFolder\<close> that no folder has any more, and the files are
  untouched, those that were in the folder included.
\<close>

theorem deleteFolder_orphans_children:
  assumes inv: "folders_inv (next_oid s) (folders s)"
    and run: "deleteFolder uid fid s = (Inr msg, s')"
    and c: "c \<in> set (folders s)" "parentFolder c = Some p" and p: "parse_oid fid = Some p"
  shows "c \<in> set (folders s') \<and> find (\<lambda>q. folder_id q = p) (folders s') = None \<and> files s' = files s"
proof -
  from deleteFolder_Inr [OF run] obtain f where f: "load_owned_folder uid fid (folders s) = Inr f"
    and s': "s' = s\<lparr>folders := deleteOne folder_id (folder_id f) (folders s)\<rparr>" by blast
  from load_owned_folder_Inr [OF f] p have fp: "folder_id f = p" by simp
  from inv c have "p < folder_id c" by (auto simp: folders_inv_def root_or_older_def)
  moreover from inv have d: "distinct (map folder_id (folders s))" by (rule folders_inv_distinct)
  ultimately show ?thesis using c s' fp by (simp add: deleteOne_distinct find_None_iff')
qed

text \<open>
  (C33) A rename changes only the name of the caller's folder: the new name is the
  request's when it is given and non-empty, the old one otherwise; id, owner, parent,
  materialized path and creation time are kept, and every other folder is unchanged.
\<close>

theorem renameFolder_changes_only_name:
  assumes inv: "folders_inv (next_oid s) (folders s)" and run: "renameFolder uid fid name s = (Inr f', s')"
  shows "\<exists>f \<in> set (folders s). folder_user f = uid \<and>
           f' = f\<lparr>folder_name := (case name of Some n \<Rightarrow> if n \<noteq> [] then n else folder_name f
                                   | None \<Rightarrow> folder_name f)\<rparr> \<and>
           set (folders s') = insert f' (set (folders s) - {f}) \<and>
           map folder_id (folders s') = map folder_id (folders s)"
proof -
  from renameFolder_Inr [OF run] obtain f where f: "load_owned_folder uid fid (folders s) = Inr f"
    and f': "f' = f\<lparr>folder_name := js_or name (folder_name f) id\<rparr>"
    and s': "s' = s\<lparr>folders := save folder_id f' (folders s)\<rparr>" by blast
  from load_owned_folder_Inr [OF f] have mem: "f \<in> set (folders s)" and own: "folder_user f = uid" by simp_all
  have "set (folders s') = insert f' (set (folders s) - {f})"
    using set_save_replace [OF folders_inv_distinct [OF inv] mem, of f'] f' s' by simp
  then show ?thesis using mem own f' s' by (auto simp: js_or_id)
qed

end
