(* ===== verification/Files.thy ===== *)
theory Files
  imports Models
begin

text \<open>
  The file registry (src/controllers/fileController.js) and the part of the BlobStore (the
  S3 client) it drives. The S3 service is an external capability: whether it accepts a
  command is an argument \<open>s3_ok\<close> of the handler that sends one, every command sent is
  appended to \<open>s3_calls\<close>, and an accepted command acts on \<open>bucket\<close>. \<open>DeleteObject\<close>
  succeeds whether or not the key exists; \<open>GetObject\<close> fails on a missing key, as S3's
  \<open>NoSuchKey\<close> does. Presigning (\<open>getSignedUrl\<close>) is computed by the SDK without a
  request and is modelled as a value that names the key and its expiry time.
\<close>

subsection \<open>The BlobStore\<close>

definition s3_delete :: "bool \<Rightarrow> string \<Rightarrow> state \<Rightarrow> unit result \<times> state" where
  "s3_delete s3_ok key s =
     (let s1 = s\<lparr>s3_calls := s3_calls s @ [DeleteObject key]\<rparr> in
      if s3_ok then (Inr (), s1\<lparr>bucket := (bucket s1)(key := None)\<rparr>)
      else (Inl (Exception S3Error), s1))"

definition s3_get :: "bool \<Rightarrow> string \<Rightarrow> state \<Rightarrow> string result \<times> state" where
  "s3_get s3_ok key s =
     (let s1 = s\<lparr>s3_calls := s3_calls s @ [GetObject key]\<rparr> in
      case bucket s key of
        Some body \<Rightarrow> if s3_ok then (Inr body, s1) else (Inl (Exception S3Error), s1)
      | None \<Rightarrow> (Inl (Exception S3Error), s1))"

record presigned_url =
  url_key :: string
  url_expires :: time

definition url_ttl_ms :: int where
  "url_ttl_ms = 3600 * 1000"

definition getSignedUrl :: "string \<Rightarrow> time \<Rightarrow> presigned_url" where
  "getSignedUrl key now = \<lparr>url_key = key, url_expires = now + url_ttl_ms\<rparr>"

subsection \<open>Operations\<close>

text \<open>The file multer-s3 describes in \<open>req.file\<close> once the object is stored.\<close>

record upload =
  up_originalname :: string
  up_key :: string
  up_size :: nat
  up_mimetype :: string

text \<open>
  \<open>folder: req.body.folderId || null\<close> (line 14): a falsy value is the root; any other
  string is cast to an ObjectId by the schema, and a failed cast fails validation. The
  folder is not looked up: a well-formed id of a missing or foreign folder is stored.
\<close>

fun upload_folder :: "string option \<Rightarrow> oid option result" where
  "upload_folder None = Inr None"
| "upload_folder (Some v) =
     (if v = [] then Inr None
      else case parse_oid v of None \<Rightarrow> Inl (Exception ValidationError) | Some i \<Rightarrow> Inr (Some i))"

text \<open>Lines 6--22.\<close>

definition uploadFileSuccess ::
  "oid \<Rightarrow> upload option \<Rightarrow> string option \<Rightarrow> time \<Rightarrow> state \<Rightarrow> file_doc result \<times> state" where
  "uploadFileSuccess uid req_file folderId now s =
     (case req_file of
        None \<Rightarrow> (Inl (Status 400 ''No file uploaded''), s)
      | Some u \<Rightarrow>
          (case upload_folder folderId of
             Inl e \<Rightarrow> (Inl e, s)
           | Inr fo \<Rightarrow>
               if up_originalname u = [] \<or> up_key u = [] \<or> up_mimetype u = []
               then (Inl (Exception ValidationError), s)
               else
                 (let f = \<lparr>file_id = next_oid s, file_user = uid, file_name = up_originalname u,
                           s3Key = up_key u, file_folder = fo, file_size = up_size u,
                           mimeType = up_mimetype u, file_createdAt = now\<rparr>
                  in (Inr f, s\<lparr>files := files s @ [f], next_oid := Suc (next_oid s)\<rparr>))))"

text \<open>Lines 24--38: the same root-versus-parent rule as \<open>getFolders\<close>.\<close>

fun folder_query :: "string option \<Rightarrow> string option" where
  "folder_query None = None"
| "folder_query (Some p) = (if p = [] \<or> p = ''null'' \<or> p = ''undefined'' then None else Some p)"

definition getFiles :: "oid \<Rightarrow> string option \<Rightarrow> state \<Rightarrow> file_doc list result" where
  "getFiles uid folder s =
     (case folder_query folder of
        None \<Rightarrow> Inr (filter (\<lambda>f. file_user f = uid \<and> file_folder f = None) (files s))
      | Some p \<Rightarrow>
          (case cast_oid p of
             Inl e \<Rightarrow> Inl e
           | Inr i \<Rightarrow> Inr (filter (\<lambda>f. file_user f = uid \<and> file_folder f = Some i) (files s))))"

text \<open>The lookup the handlers addressing one file share: 404 before 403.\<close>

definition load_owned_file :: "oid \<Rightarrow> string \<Rightarrow> file_doc list \<Rightarrow> file_doc result" where
  "load_owned_file uid fid fs =
     (case findById file_id fid fs of
        Inl e \<Rightarrow> Inl e
      | Inr None \<Rightarrow> Inl (Status 404 ''File not found'')
      | Inr (Some f) \<Rightarrow> if file_user f \<noteq> uid then Inl (Status 403 ''Not authorized'') else Inr f)"

text \<open>
  Lines 40--57: the object is deleted first and the handler waits for S3; a failure
  throws into the \<open>catch\<close>, before the metadata is touched.
\<close>

definition deleteFile :: "bool \<Rightarrow> oid \<Rightarrow> string \<Rightarrow> state \<Rightarrow> string result \<times> state" where
  "deleteFile s3_ok uid fid s =
     (case load_owned_file uid fid (files s) of
        Inl e \<Rightarrow> (Inl e, s)
      | Inr f \<Rightarrow>
          (case s3_delete s3_ok (s3Key f) s of
             (Inl e, s1) \<Rightarrow> (Inl e, s1)
           | (Inr _, s1) \<Rightarrow>
               (Inr ''File removed'', s1\<lparr>files := deleteOne file_id (file_id f) (files s1)\<rparr>)))"

text \<open>Lines 59--75: a presigned GET for one hour (\<open>expiresIn: 3600\<close> seconds).\<close>

definition getDownloadUrl :: "oid \<Rightarrow> string \<Rightarrow> time \<Rightarrow> state \<Rightarrow> presigned_url result" where
  "getDownloadUrl uid fid now s =
     (case load_owned_file uid fid (files s) of
        Inl e \<Rightarrow> Inl e
      | Inr f \<Rightarrow> Inr (getSignedUrl (s3Key f) now))"

text \<open>
  Lines 77--102. The headers are set inside the inner \<open>try\<close>: Node's \<open>setHeader\<close>
  throws on a value with a character outside tab, space to tilde, and 128--255, and that
  exception lands in the same \<open>catch\<close> as an S3 failure.
\<close>

record download =
  dl_content_type :: string
  dl_disposition :: string
  dl_body :: string

definition header_char_ok :: "char \<Rightarrow> bool" where
  "header_char_ok c \<longleftrightarrow>
     (let n = of_char c :: nat in n = 9 \<or> (32 \<le> n \<and> n \<le> 126) \<or> 128 \<le> n)"

definition valid_header :: "string \<Rightarrow> bool" where
  "valid_header v \<longleftrightarrow> list_all header_char_ok v"

definition downloadFile :: "bool \<Rightarrow> oid \<Rightarrow> string \<Rightarrow> state \<Rightarrow> download result \<times> state" where
  "downloadFile s3_ok uid fid s =
     (case load_owned_file uid fid (files s) of
        Inl e \<Rightarrow> (Inl e, s)
      | Inr f \<Rightarrow>
          (case s3_get s3_ok (s3Key f) s of
             (Inl _, s1) \<Rightarrow> (Inl (Status 404 ''File not found on server''), s1)
           | (Inr body, s1) \<Rightarrow>
               (let disp = ''attachment; filename='' @ [CHR 0x22] @ file_name f @ [CHR 0x22] in
                if valid_header (mimeType f) \<and> valid_header disp
                then (Inr \<lparr>dl_content_type = mimeType f, dl_disposition = disp, dl_body = body\<rparr>, s1)
                else (Inl (Status 404 ''File not found on server''), s1))))"

text \<open>Lines 104--116.\<close>

definition renameFile :: "oid \<Rightarrow> string \<Rightarrow> string option \<Rightarrow> state \<Rightarrow> file_doc result \<times> state" where
  "renameFile uid fid name s =
     (case load_owned_file uid fid (files s) of
        Inl e \<Rightarrow> (Inl e, s)
      | Inr f \<Rightarrow>
          (let f' = f\<lparr>file_name := js_or name (file_name f) id\<rparr>
           in (Inr f', s\<lparr>files := save file_id f' (files s)\<rparr>)))"

subsection \<open>Invariant of the registry\<close>

text \<open>
  Ids are distinct and drawn from the counter, blob keys are distinct, and every file's
  blob is in the bucket (no metadata without its object).
\<close>

definition files_inv :: "state \<Rightarrow> bool" where
  "files_inv s \<longleftrightarrow>
     coll_wf file_id (next_oid s) (files s) \<and> distinct (map s3Key (files s)) \<and>
     (\<forall>f \<in> set (files s). bucket s (s3Key f) \<noteq> None)"

subsection \<open>Lemmas\<close>


lemma load_owned_file_Inr:
  "load_owned_file uid fid fs = Inr f \<Longrightarrow>
     f \<in> set fs \<and> file_user f = uid \<and> parse_oid fid = Some (file_id f)"
  by (auto simp: load_owned_file_def findById_eq split: option.splits if_splits dest: find_Some_holds)

lemma load_owned_file_found:
  "distinct (map file_id fs) \<Longrightarrow> f \<in> set fs \<Longrightarrow> file_id f < 16 ^ 24 \<Longrightarrow>
     load_owned_file uid (show_oid (file_id f)) fs =
       (if file_user f \<noteq> uid then Inl (Status 403 ''Not authorized'') else Inr f)"
  by (simp add: load_owned_file_def findById_show find_unique_key)

lemma renameFile_Inr:
  "renameFile uid fid name s = (Inr f', s') \<Longrightarrow>
     \<exists>f. load_owned_file uid fid (files s) = Inr f \<and> f' = f\<lparr>file_name := js_or name (file_name f) id\<rparr> \<and>
         s' = s\<lparr>files := save file_id f' (files s)\<rparr>"
  by (auto simp: renameFile_def Let_def split: sum.splits)

lemma files_inv_distinct: "files_inv s \<Longrightarrow> distinct (map file_id (files s))"
  by (simp add: files_inv_def coll_wf_def)

lemma deleteFile_inv:
  assumes inv: "files_inv s" and run: "deleteFile s3_ok uid fid s = (r, s')"
  shows "files_inv s'"
proof (cases "load_owned_file uid fid (files s)")
  case (Inl e)
  with run inv show ?thesis by (simp add: deleteFile_def)
next
  case (Inr f)
  from Inr have f: "f \<in> set (files s)" by (simp add: load_owned_file_Inr)
  show ?thesis
  proof (cases s3_ok)
    case False
    with Inr run have "s' = s\<lparr>s3_calls := s3_calls s @ [DeleteObject (s3Key f)]\<rparr>"
      by (simp add: deleteFile_def s3_delete_def)
    with inv show ?thesis by (simp add: files_inv_def)
  next
    case True
    with Inr run have s': "s' = s\<lparr>files := deleteOne file_id (file_id f) (files s),
              bucket := (bucket s)(s3Key f := None),
              s3_calls := s3_calls s @ [DeleteObject (s3Key f)]\<rparr>"
      by (auto simp: deleteFile_def s3_delete_def)
    from inv have d: "distinct (map file_id (files s))" by (rule files_inv_distinct)
    then have del: "set (deleteOne file_id (file_id f) (files s)) = set (files s) - {f}"
      using f by (auto simp: deleteOne_distinct dest: distinct_key_eq)
    from inv have keys: "distinct (map s3Key (files s))" by (simp add: files_inv_def)
    have "\<forall>g \<in> set (files s) - {f}. s3Key g \<noteq> s3Key f"
      using keys f by (auto dest: distinct_key_eq)
    moreover have "distinct (map s3Key (deleteOne file_id (file_id f) (files s)))"
      using keys d by (simp add: deleteOne_distinct distinct_map_filter)
    moreover have "coll_wf file_id (next_oid s) (deleteOne file_id (file_id f) (files s))"
      using inv by (auto simp: files_inv_def)
    ultimately show ?thesis using inv del s' by (auto simp: files_inv_def)
  qed
qed

lemma uploadFileSuccess_inv:
  assumes inv: "files_inv s" and run: "uploadFileSuccess uid req_file folderId now s = (r, s')"
    and stored: "\<forall>u. req_file = Some u \<longrightarrow> bucket s (up_key u) \<noteq> None \<and> up_key u \<notin> s3Key ` set (files s)"
  shows "files_inv s'"
proof (cases "\<exists>f. r = Inr f")
  case False
  with run inv show ?thesis
    by (auto simp: uploadFileSuccess_def Let_def split: option.splits sum.splits if_splits)
next
  case True
  then obtain f where rf: "r = Inr f" by blast
  with run obtain u fo where u: "req_file = Some u" and
    f: "f = \<lparr>file_id = next_oid s, file_user = uid, file_name = up_originalname u,
            s3Key = up_key u, file_folder = fo, file_size = up_size u,
            mimeType = up_mimetype u, file_createdAt = now\<rparr>" and
    s': "s' = s\<lparr>files := files s @ [f], next_oid := Suc (next_oid s)\<rparr>"
    by (auto simp: uploadFileSuccess_def Let_def split: option.splits sum.splits if_splits)
  from stored u have "bucket s (up_key u) \<noteq> None" and "up_key u \<notin> s3Key ` set (files s)"
    by auto
  with inv f s' show ?thesis by (auto simp: files_inv_def intro: coll_wf_create)
qed

lemma renameFile_inv:
  assumes inv: "files_inv s" and run: "renameFile uid fid name s = (r, s')"
  shows "files_inv s'"
proof (cases "load_owned_file uid fid (files s)")
  case (Inl e)
  with run inv show ?thesis by (simp add: renameFile_def)
next
  case (Inr f)
  define f' where "f' = f\<lparr>file_name := js_or name (file_name f) id\<rparr>"
  with Inr run have s': "s' = s\<lparr>files := save file_id f' (files s)\<rparr>"
    by (simp add: renameFile_def Let_def)
  from Inr have f: "f \<in> set (files s)" by (simp add: load_owned_file_Inr)
  from inv have wf: "coll_wf file_id (next_oid s) (files s)" by (simp add: files_inv_def)
  with f have "file_id f' < next_oid s" by (simp add: f'_def coll_wf_def)
  with wf have wf': "coll_wf file_id (next_oid s) (save file_id f' (files s))" ..
  from wf f have set': "set (save file_id f' (files s)) = insert f' (set (files s) - {f})"
    by (intro set_save_replace) (simp_all add: coll_wf_def f'_def)
  have "\<forall>y \<in> set (files s). file_id y = file_id f' \<longrightarrow> s3Key y = s3Key f'"
    using wf f by (auto simp: coll_wf_def f'_def dest: distinct_key_eq)
  then have "map s3Key (save file_id f' (files s)) = map s3Key (files s)"
    by (rule map_save_agree)
  with inv wf' set' s' f show ?thesis by (auto simp: files_inv_def f'_def)
qed

subsection \<open>Properties of the file handlers\<close>

text \<open>
  (C8) Deleting a file the caller owns, when S3 accepts the command, sends exactly one
  command to S3, \<open>DeleteObject\<close> of the file's key, removes the object from the bucket
  and then removes the metadata document.
\<close>

theorem deleteFile_success:
  assumes "load_owned_file uid fid (files s) = Inr f"
  shows "deleteFile True uid fid s =
           (Inr ''File removed'',
            s\<lparr>files := deleteOne file_id (file_id f) (files s),
              bucket := (bucket s)(s3Key f := None),
              s3_calls := s3_calls s @ [DeleteObject (s3Key f)]\<rparr>)"
  using assms by (simp add: deleteFile_def s3_delete_def)

text \<open>
  (C7) If S3 fails the \<open>DeleteObject\<close>, the handler answers 500 and the metadata
  document and the bucket are left exactly as they were: only the failed command is
  recorded.
\<close>

theorem deleteFile_s3_failure:
  assumes "load_owned_file uid fid (files s) = Inr f"
  shows "deleteFile False uid fid s =
           (Inl (Exception S3Error), s\<lparr>s3_calls := s3_calls s @ [DeleteObject (s3Key f)]\<rparr>)"
  using assms by (simp add: deleteFile_def s3_delete_def)

text \<open>
  (C22) A download URL is issued only for a file of the caller, names that file's key, and
  expires exactly one hour (3600000 ms) after it is issued.
\<close>

theorem getDownloadUrl_one_hour:
  assumes "getDownloadUrl uid fid now s = Inr u"
  shows "url_expires u = now + 3600000 \<and>
         (\<exists>f \<in> set (files s). file_user f = uid \<and> url_key u = s3Key f)"
  using assms load_owned_file_Inr
  by (fastforce simp: getDownloadUrl_def getSignedUrl_def url_ttl_ms_def split: sum.splits)

text \<open>
  (C29) A file whose stored name contains a line feed can never be downloaded: Node's
  \<open>setHeader\<close> rejects the \<open>Content-Disposition\<close> value inside the inner \<open>try\<close>,
  and the client is told 404 \<open>File not found on server\<close> although the object exists
  and S3 answers.
\<close>

theorem downloadFile_control_char_name:
  assumes "load_owned_file uid fid (files s) = Inr f" and "bucket s (s3Key f) = Some body"
    and "CHR 0x0A \<in> set (file_name f)"
  shows "fst (downloadFile True uid fid s) = Inl (Status 404 ''File not found on server'')"
proof -
  have nl: "\<not> header_char_ok (CHR 0x0A)" by (simp add: header_char_ok_def)
  have "\<not> valid_header (''attachment; filename='' @ [CHR 0x22] @ file_name f @ [CHR 0x22])"
    using assms(3) nl by (auto simp: valid_header_def list_all_iff)
  with assms(1,2) show ?thesis by (simp add: downloadFile_def s3_get_def Let_def)
qed

text \<open>
  (C28) Registering an upload accepts any well-formed folder id without looking the folder
  up: the metadata is stored with that folder reference, whether or not such a folder
  exists or belongs to the uploader.
\<close>

theorem uploadFileSuccess_unchecked_folder:
  assumes "parse_oid v = Some i" and "u = \<lparr>up_originalname = n, up_key = k, up_size = z, up_mimetype = m\<rparr>"
    and "n \<noteq> []" and "k \<noteq> []" and "m \<noteq> []"
  shows "\<exists>f. uploadFileSuccess uid (Some u) (Some v) now s =
              (Inr f, s\<lparr>files := files s @ [f], next_oid := Suc (next_oid s)\<rparr>) \<and>
            file_folder f = Some i \<and> s3Key f = k \<and> file_user f = uid"
proof -
  from assms(1) have "v \<noteq> []" by (auto simp: parse_oid_def oid_digits_def)
  with assms show ?thesis by (simp add: uploadFileSuccess_def Let_def)
qed

text \<open>
  (C36) A file rename changes only the name of one of the caller's files: the new name is
  the request's when it is given and non-empty, the old one otherwise; id, owner, S3 key,
  folder, size, type and creation time are kept, every other file is unchanged, and the
  bucket is not touched.
\<close>

theorem renameFile_changes_only_name:
  assumes inv: "files_inv s" and run: "renameFile uid fid name s = (Inr f', s')"
  shows "\<exists>f \<in> set (files s). file_user f = uid \<and>
           f' = f\<lparr>file_name := (case name of Some n \<Rightarrow> if n \<noteq> [] then n else file_name f
                                 | None \<Rightarrow> file_name f)\<rparr> \<and>
           set (files s') = insert f' (set (files s) - {f}) \<and>
           map file_id (files s') = map file_id (files s) \<and> bucket s' = bucket s"
proof -
  from renameFile_Inr [OF run] obtain f where f: "load_owned_file uid fid (files s) = Inr f"
    and f': "f' = f\<lparr>file_name := js_or name (file_name f) id\<rparr>"
    and s': "s' = s\<lparr>files := save file_id f' (files s)\<rparr>" by blast
  from load_owned_file_Inr [OF f] have mem: "f \<in> set (files s)" and own: "file_user f = uid" by simp_all
  have "set (files s') = insert f' (set (files s) - {f})"
    using set_save_replace [OF files_inv_distinct [OF inv] mem, of f'] f' s' by simp
  then show ?thesis using mem own f' s' by (auto simp: js_or_id)
qed

end
