(* ===== verification/Tokens.thy ===== *)
theory Tokens
  imports Models
begin

text \<open>
  The token store: the Token collection (src/models/Token.js) as the controllers use it.
  A token is looked up by its secret and type (\<open>Token.findOne({ token, type })\<close>), created
  with a fresh id and the current time, and deleted by id once used
  (\<open>Token.findByIdAndDelete\<close>). Expiry is not checked by the lookup: it is left to the
  TTL index that \<open>createdAt: { expires: 86400 }\<close> declares, whose background monitor
  deletes a document once its \<open>createdAt\<close> lies more than 86400 seconds in the past.
  \<open>ttl_reap now\<close> is one pass of that monitor at time \<open>now\<close>.
\<close>

definition token_ttl_ms :: int where
  "token_ttl_ms = 86400 * 1000"

definition token_expired :: "time \<Rightarrow> token \<Rightarrow> bool" where
  "token_expired now t \<longleftrightarrow> token_createdAt t + token_ttl_ms < now"

definition ttl_reap :: "time \<Rightarrow> state \<Rightarrow> state" where
  "ttl_reap now s = s\<lparr>tokens := filter (\<lambda>t. \<not> token_expired now t) (tokens s)\<rparr>"

definition findToken :: "string \<Rightarrow> token_type \<Rightarrow> token list \<Rightarrow> token option" where
  "findToken secret ty ts = find (\<lambda>t. token_value t = secret \<and> token_type t = ty) ts"

definition createToken :: "oid \<Rightarrow> string \<Rightarrow> token_type \<Rightarrow> time \<Rightarrow> state \<Rightarrow> state" where
  "createToken uid secret ty now s =
     s\<lparr>tokens := tokens s @ [\<lparr>token_id = next_oid s, token_userId = uid, token_value = secret,
                              token_type = ty, token_createdAt = now\<rparr>],
       next_oid := Suc (next_oid s)\<rparr>"

definition consumeToken :: "oid \<Rightarrow> state \<Rightarrow> state" where
  "consumeToken i s = s\<lparr>tokens := deleteOne token_id i (tokens s)\<rparr>"

text \<open>
  Well-formedness of the token store: ids distinct and drawn from the counter, and no two
  tokens share a secret (what 256 random bits give with overwhelming probability; the model
  takes it as the freshness of each new secret).
\<close>

definition tokens_inv :: "state \<Rightarrow> bool" where
  "tokens_inv s \<longleftrightarrow>
     coll_wf token_id (next_oid s) (tokens s) \<and> distinct (map token_value (tokens s))"

subsection \<open>Lemmas\<close>

lemma findToken_Some:
  "findToken secret ty ts = Some t \<Longrightarrow> t \<in> set ts \<and> token_value t = secret \<and> token_type t = ty"
  unfolding findToken_def by (auto dest: find_Some_holds)

lemma findToken_None: "findToken secret ty ts = None \<longleftrightarrow>
    (\<forall>t \<in> set ts. token_value t = secret \<longrightarrow> token_type t \<noteq> ty)"
  by (auto simp: findToken_def find_None_iff')

lemma findToken_after_consume:
  assumes "tokens_inv s" and "findToken secret ty (tokens s) = Some t"
  shows "findToken secret ty' (tokens (consumeToken (token_id t) s)) = None"
proof -
  from assms have d: "distinct (map token_id (tokens s))" and v: "distinct (map token_value (tokens s))"
    by (simp_all add: tokens_inv_def coll_wf_def)
  from assms(2) have t: "t \<in> set (tokens s)" and sec: "token_value t = secret"
    by (simp_all add: findToken_Some)
  have "set (deleteOne token_id (token_id t) (tokens s)) = set (tokens s) - {t}"
    using d t by (auto simp: deleteOne_distinct dest: distinct_key_eq)
  moreover have "\<forall>t' \<in> set (tokens s) - {t}. token_value t' \<noteq> secret"
    using v t sec by (auto dest: distinct_key_eq)
  ultimately show ?thesis by (simp add: consumeToken_def findToken_None)
qed

lemma findToken_reaped:
  "findToken secret ty (tokens (ttl_reap now s)) = Some t \<Longrightarrow> \<not> token_expired now t"
  by (auto simp: ttl_reap_def dest: findToken_Some)

lemma tokens_inv_createToken:
  "tokens_inv s \<Longrightarrow> secret \<notin> token_value ` set (tokens s) \<Longrightarrow>
     tokens_inv (createToken uid secret ty now s)"
  by (auto simp: tokens_inv_def createToken_def intro: coll_wf_create)

lemma tokens_inv_consumeToken: "tokens_inv s \<Longrightarrow> tokens_inv (consumeToken i s)"
  by (auto simp: tokens_inv_def consumeToken_def distinct_map_deleteOne)

lemma tokens_inv_ttl_reap: "tokens_inv s \<Longrightarrow> tokens_inv (ttl_reap now s)"
  by (auto simp: tokens_inv_def ttl_reap_def coll_wf_def distinct_map_filter)

end
