(* ===== verification/Auth.thy ===== *)
theory Auth
  imports Tokens
begin

text \<open>
  The account lifecycle (src/controllers/authController.js). A user is created inactive
  by \<open>registerUser\<close>, which also issues an activation token and hands an activation mail
  to the transporter; \<open>activateAccount\<close> consumes an activation token and makes its user
  active; \<open>authUser\<close> logs an active user in; \<open>forgotPassword\<close> issues a reset token
  and \<open>resetPassword\<close> consumes one and replaces the password. The random source of
  \<open>crypto.randomBytes(32)\<close> is an argument \<open>rnd\<close> of the handlers that issue a token,
  \<open>Date.now()\<close> an argument \<open>now\<close>, and \<open>process.env.CLIENT_URL\<close> an argument
  \<open>client\<close>. Sending mail is fire-and-forget: the handler appends the message to the
  outbox and never observes the delivery, so no outcome of it can reach the response.
\<close>

subsection \<open>Helpers\<close>

text \<open>\<open>generateToken\<close> (lines 7--9): a JWT for the user id that expires in 30 days.\<close>

record session =
  sess_user :: oid
  sess_expires :: time

definition generateToken :: "oid \<Rightarrow> time \<Rightarrow> session" where
  "generateToken i now = \<lparr>sess_user = i, sess_expires = now + 30 * 86400 * 1000\<rparr>"

text \<open>\<open>sendEmail\<close> (lines 11--42) as seen by the caller: the message is handed over.\<close>

definition sendEmail :: "string \<Rightarrow> string \<Rightarrow> string \<Rightarrow> state \<Rightarrow> state" where
  "sendEmail to subject text s =
     s\<lparr>outbox := outbox s @ [\<lparr>mail_to = to, mail_subject = subject, mail_text = text\<rparr>]\<rparr>"

definition client_base :: "string option \<Rightarrow> string" where
  "client_base client = js_or client ''http://localhost:5173'' id"

definition activation_url :: "string option \<Rightarrow> string \<Rightarrow> string" where
  "activation_url client secret = client_base client @ ''/activate/'' @ secret"

definition reset_url :: "string option \<Rightarrow> string \<Rightarrow> string" where
  "reset_url client secret = client_base client @ ''/reset-password?token='' @ secret"

definition find_user_by_email :: "string \<Rightarrow> user list \<Rightarrow> user option" where
  "find_user_by_email e us = find (\<lambda>u. email u = e) us"

definition find_user :: "oid \<Rightarrow> user list \<Rightarrow> user option" where
  "find_user i us = find (\<lambda>u. user_id u = i) us"

subsection \<open>Handlers\<close>

text \<open>Lines 44--110.\<close>

definition registerUser ::
  "string option \<Rightarrow> string \<Rightarrow> string \<Rightarrow> string \<Rightarrow> string \<Rightarrow> 8 word list \<Rightarrow> time \<Rightarrow> state \<Rightarrow>
     string result \<times> state" where
  "registerUser client fn ln em pw rnd now s =
     (case find_user_by_email em (users s) of
        Some _ \<Rightarrow> (Inl (Status 400 ''User already exists''), s)
      | None \<Rightarrow>
          (let u = \<lparr>user_id = next_oid s, firstName = fn, lastName = ln, email = em,
                    password = Hashed pw, status = Inactive, user_createdAt = now\<rparr>;
               s1 = s\<lparr>users := users s @ [u], next_oid := Suc (next_oid s)\<rparr>;
               secret = hex_of_bytes rnd;
               s2 = createToken (user_id u) secret Activation now s1;
               s3 = sendEmail em ''Account Activation - Cloud Canvas''
                      (''Please click the following link to activate your account: '' @
                       activation_url client secret) s2
           in (Inr ''Registration successful. Please check your email to activate your account.'', s3)))"

text \<open>Lines 112--152. The user's status is saved before the token is deleted.\<close>

definition activateAccount :: "string \<Rightarrow> time \<Rightarrow> state \<Rightarrow> (session \<times> user) result \<times> state" where
  "activateAccount secret now s =
     (case findToken secret Activation (tokens s) of
        None \<Rightarrow> (Inl (Status 400 ''Invalid or expired token''), s)
      | Some t \<Rightarrow>
          (case find_user (token_userId t) (users s) of
             None \<Rightarrow> (Inl (Status 404 ''User not found''), s)
           | Some u \<Rightarrow>
               (let u' = u\<lparr>status := Active\<rparr>;
                    s1 = s\<lparr>users := save user_id u' (users s)\<rparr>;
                    s2 = consumeToken (token_id t) s1
                in (Inr (generateToken (user_id u) now, u'), s2))))"

text \<open>Lines 154--183: the password is checked first, the status second.\<close>

definition authUser :: "string \<Rightarrow> string \<Rightarrow> time \<Rightarrow> state \<Rightarrow> (session \<times> user) result" where
  "authUser em pw now s =
     (case find_user_by_email em (users s) of
        Some u \<Rightarrow>
          if matchPassword pw (password u) then
            (if status u \<noteq> Active
             then Inl (Status 401 ''Account is not active. Please check your email.'')
             else Inr (generateToken (user_id u) now, u))
          else Inl (Status 401 ''Invalid email or password'')
      | None \<Rightarrow> Inl (Status 401 ''Invalid email or password''))"

text \<open>Lines 185--203.\<close>

definition getUserProfile :: "oid \<Rightarrow> state \<Rightarrow> user result" where
  "getUserProfile uid s =
     (case find_user uid (users s) of
        Some u \<Rightarrow> Inr u
      | None \<Rightarrow> Inl (Status 404 ''User not found''))"

text \<open>Lines 205--258.\<close>

definition forgotPassword ::
  "string option \<Rightarrow> string \<Rightarrow> 8 word list \<Rightarrow> time \<Rightarrow> state \<Rightarrow> string result \<times> state" where
  "forgotPassword client em rnd now s =
     (case find_user_by_email em (users s) of
        None \<Rightarrow> (Inl (Status 404 ''User not found''), s)
      | Some u \<Rightarrow>
          (let secret = hex_of_bytes rnd;
               s1 = createToken (user_id u) secret Reset now s;
               s2 = sendEmail (email u) ''Password Reset - Cloud Canvas''
                      (''You requested a password reset. Click here: '' @ reset_url client secret) s1
           in (Inr ''Password reset email sent. Please check your inbox.'', s2)))"

text \<open>Lines 260--282.\<close>

definition resetPassword :: "string \<Rightarrow> string \<Rightarrow> state \<Rightarrow> string result \<times> state" where
  "resetPassword secret pw s =
     (case findToken secret Reset (tokens s) of
        None \<Rightarrow> (Inl (Status 400 ''Invalid or expired token''), s)
      | Some t \<Rightarrow>
          (case find_user (token_userId t) (users s) of
             None \<Rightarrow> (Inl (Status 404 ''User not found''), s)
           | Some u \<Rightarrow>
               (let u' = u\<lparr>password := Hashed pw\<rparr>;
                    s1 = s\<lparr>users := save user_id u' (users s)\<rparr>;
                    s2 = consumeToken (token_id t) s1
                in (Inr ''Password reset successful'', s2))))"

text \<open>
  The server console of the two handlers that mail a link. The mail is sent by an
  un-awaited \<open>sendEmail(...)\<close> whose promise settles after the response: \<open>sendEmail\<close>
  logs the transport's answer (lines 34--41), and the handler's \<open>.then\<close>/\<open>.catch\<close>
  logs the delivery, or on a failure the error and a "DEV MODE" block with the link
  (lines 73, 90--99 and 222, 241--250). The outcome of \<open>transporter.sendMail\<close> is an
  argument: \<open>Inr\<close> the message id, \<open>Inl\<close> the error message. The fixed texts are the
  constructors, the printed values their arguments.
\<close>

datatype mail_kind = ActivationMail | ResetMail

datatype console_line =
    Attempting mail_kind string
  | MailSentId string
  | MailSendFailed string
  | Delivered mail_kind string
  | DeliveryFailed mail_kind string
  | ErrorDetails string
  | DevModeHeader mail_kind
  | DevUser string
  | DevLink string
  | DevModeFooter

definition sendEmail_console :: "string + string \<Rightarrow> console_line list" where
  "sendEmail_console outcome =
     (case outcome of Inr mid \<Rightarrow> [MailSentId mid] | Inl e \<Rightarrow> [MailSendFailed e])"

definition mail_console :: "mail_kind \<Rightarrow> string \<Rightarrow> string \<Rightarrow> string + string \<Rightarrow> console_line list" where
  "mail_console k em url outcome =
     [Attempting k em] @ sendEmail_console outcome @
     (case outcome of
        Inr _ \<Rightarrow> [Delivered k em]
      | Inl e \<Rightarrow> [DeliveryFailed k em, ErrorDetails e, DevModeHeader k, DevUser em, DevLink url, DevModeFooter])"

definition registerUser_console ::
  "string option \<Rightarrow> string \<Rightarrow> 8 word list \<Rightarrow> state \<Rightarrow> string + string \<Rightarrow> console_line list" where
  "registerUser_console client em rnd s outcome =
     (case find_user_by_email em (users s) of
        Some _ \<Rightarrow> []
      | None \<Rightarrow> mail_console ActivationMail em (activation_url client (hex_of_bytes rnd)) outcome)"

definition forgotPassword_console ::
  "string option \<Rightarrow> string \<Rightarrow> 8 word list \<Rightarrow> state \<Rightarrow> string + string \<Rightarrow> console_line list" where
  "forgotPassword_console client em rnd s outcome =
     (case find_user_by_email em (users s) of
        None \<Rightarrow> []
      | Some u \<Rightarrow> mail_console ResetMail (email u) (reset_url client (hex_of_bytes rnd)) outcome)"

subsection \<open>Invariant of the accounts\<close>

text \<open>
  User ids are distinct and drawn from the counter, e-mail addresses are distinct, and
  every token belongs to an existing user (users are never deleted).
\<close>

definition users_inv :: "state \<Rightarrow> bool" where
  "users_inv s \<longleftrightarrow>
     coll_wf user_id (next_oid s) (users s) \<and> distinct (map email (users s)) \<and>
     (\<forall>t \<in> set (tokens s). \<exists>u \<in> set (users s). user_id u = token_userId t)"

subsection \<open>Lemmas\<close>

lemma find_user_Some: "find_user i us = Some u \<Longrightarrow> u \<in> set us \<and> user_id u = i"
  unfolding find_user_def by (auto dest: find_Some_holds)

lemma find_user_by_email_Some:
  "find_user_by_email e us = Some u \<Longrightarrow> u \<in> set us \<and> email u = e"
  unfolding find_user_by_email_def by (auto dest: find_Some_holds)

lemma find_user_by_email_None:
  "find_user_by_email e us = None \<longleftrightarrow> e \<notin> email ` set us"
  by (auto simp: find_user_by_email_def find_None_iff')

lemma users_inv_save:
  assumes inv: "users_inv s" and u: "u \<in> set (users s)"
    and same: "user_id u' = user_id u" "email u' = email u"
  shows "users_inv (s\<lparr>users := save user_id u' (users s)\<rparr>)"
proof -
  from inv have wf: "coll_wf user_id (next_oid s) (users s)" by (simp add: users_inv_def)
  with u same have wf': "coll_wf user_id (next_oid s) (save user_id u' (users s))"
    by (intro coll_wf_save) (auto simp: coll_wf_def)
  from wf u same have set': "set (save user_id u' (users s)) = insert u' (set (users s) - {u})"
    by (intro set_save_replace) (simp_all add: coll_wf_def)
  have "\<forall>y \<in> set (users s). user_id y = user_id u' \<longrightarrow> email y = email u'"
    using wf u same by (auto simp: coll_wf_def dest: distinct_key_eq)
  then have "map email (save user_id u' (users s)) = map email (users s)"
    by (rule map_save_agree)
  with inv wf' set' same show ?thesis by (auto simp: users_inv_def)
qed

lemma users_inv_consumeToken: "users_inv s \<Longrightarrow> users_inv (consumeToken i s)"
  using set_deleteOne_subset by (fastforce simp: users_inv_def consumeToken_def)

lemma users_inv_sendEmail [simp]: "users_inv (sendEmail to sub txt s) = users_inv s"
  by (simp add: users_inv_def sendEmail_def)

lemma tokens_inv_sendEmail [simp]: "tokens_inv (sendEmail to sub txt s) = tokens_inv s"
  by (simp add: tokens_inv_def sendEmail_def)

lemma tokens_sendEmail [simp]: "tokens (sendEmail to sub txt s) = tokens s"
  "users (sendEmail to sub txt s) = users s"
  by (simp_all add: sendEmail_def)

lemma users_inv_createToken:
  "users_inv s \<Longrightarrow> u \<in> set (users s) \<Longrightarrow> users_inv (createToken (user_id u) secret ty now s)"
  by (auto simp: users_inv_def createToken_def coll_wf_def)

lemma registerUser_inv:
  assumes inv: "users_inv s" "tokens_inv s"
    and fresh: "hex_of_bytes rnd \<notin> token_value ` set (tokens s)"
    and run: "registerUser client fn ln em pw rnd now s = (r, s')"
  shows "users_inv s' \<and> tokens_inv s'"
proof (cases "find_user_by_email em (users s)")
  case (Some u)
  with run inv show ?thesis by (simp add: registerUser_def)
next
  case None
  define u where "u = \<lparr>user_id = next_oid s, firstName = fn, lastName = ln, email = em,
                    password = Hashed pw, status = Inactive, user_createdAt = now\<rparr>"
  define s1 where "s1 = s\<lparr>users := users s @ [u], next_oid := Suc (next_oid s)\<rparr>"
  have s': "s' = sendEmail em ''Account Activation - Cloud Canvas''
                      (''Please click the following link to activate your account: '' @
                       activation_url client (hex_of_bytes rnd))
                   (createToken (user_id u) (hex_of_bytes rnd) Activation now s1)"
    using run None by (simp add: registerUser_def u_def s1_def Let_def)
  from None have "em \<notin> email ` set (users s)" by (simp add: find_user_by_email_None)
  with inv have u1: "users_inv s1"
    by (auto simp: users_inv_def s1_def u_def intro: coll_wf_create)
  from inv have t1: "tokens_inv s1"
    by (auto simp: tokens_inv_def s1_def intro: coll_wf_mono)
  have "u \<in> set (users s1)" by (simp add: s1_def)
  with u1 have "users_inv (createToken (user_id u) (hex_of_bytes rnd) Activation now s1)"
    by (rule users_inv_createToken)
  moreover from t1 fresh have "tokens_inv (createToken (user_id u) (hex_of_bytes rnd) Activation now s1)"
    by (intro tokens_inv_createToken) (simp_all add: s1_def)
  ultimately show ?thesis by (simp add: s')
qed

lemma activateAccount_inv:
  assumes inv: "users_inv s" "tokens_inv s"
    and run: "activateAccount secret now s = (r, s')"
  shows "users_inv s' \<and> tokens_inv s'"
proof (cases "findToken secret Activation (tokens s)")
  case None
  with run inv show ?thesis by (simp add: activateAccount_def)
next
  case (Some t)
  show ?thesis
  proof (cases "find_user (token_userId t) (users s)")
    case None
    with Some run inv show ?thesis by (simp add: activateAccount_def)
  next
    case (Some u)
    with \<open>findToken _ _ _ = Some t\<close> run have
      s': "s' = consumeToken (token_id t) (s\<lparr>users := save user_id (u\<lparr>status := Active\<rparr>) (users s)\<rparr>)"
      by (simp add: activateAccount_def Let_def)
    from Some have "u \<in> set (users s)" by (simp add: find_user_Some)
    with inv(1) have "users_inv (s\<lparr>users := save user_id (u\<lparr>status := Active\<rparr>) (users s)\<rparr>)"
      by (intro users_inv_save) simp_all
    moreover from inv(2) have "tokens_inv (s\<lparr>users := save user_id (u\<lparr>status := Active\<rparr>) (users s)\<rparr>)"
      by (simp add: tokens_inv_def)
    ultimately show ?thesis by (simp add: s' users_inv_consumeToken tokens_inv_consumeToken)
  qed
qed

lemma resetPassword_inv:
  assumes inv: "users_inv s" "tokens_inv s"
    and run: "resetPassword secret pw s = (r, s')"
  shows "users_inv s' \<and> tokens_inv s'"
proof (cases "findToken secret Reset (tokens s)")
  case None
  with run inv show ?thesis by (simp add: resetPassword_def)
next
  case (Some t)
  show ?thesis
  proof (cases "find_user (token_userId t) (users s)")
    case None
    with Some run inv show ?thesis by (simp add: resetPassword_def)
  next
    case (Some u)
    with \<open>findToken _ _ _ = Some t\<close> run have
      s': "s' = consumeToken (token_id t) (s\<lparr>users := save user_id (u\<lparr>password := Hashed pw\<rparr>) (users s)\<rparr>)"
      by (simp add: resetPassword_def Let_def)
    from Some have "u \<in> set (users s)" by (simp add: find_user_Some)
    with inv(1) have "users_inv (s\<lparr>users := save user_id (u\<lparr>password := Hashed pw\<rparr>) (users s)\<rparr>)"
      by (intro users_inv_save) simp_all
    moreover from inv(2) have "tokens_inv (s\<lparr>users := save user_id (u\<lparr>password := Hashed pw\<rparr>) (users s)\<rparr>)"
      by (simp add: tokens_inv_def)
    ultimately show ?thesis by (simp add: s' users_inv_consumeToken tokens_inv_consumeToken)
  qed
qed

lemma forgotPassword_inv:
  assumes inv: "users_inv s" "tokens_inv s"
    and fresh: "hex_of_bytes rnd \<notin> token_value ` set (tokens s)"
    and run: "forgotPassword client em rnd now s = (r, s')"
  shows "users_inv s' \<and> tokens_inv s'"
proof (cases "find_user_by_email em (users s)")
  case None
  with run inv show ?thesis by (simp add: forgotPassword_def)
next
  case (Some u)
  with run have s': "s' = sendEmail (email u) ''Password Reset - Cloud Canvas''
        (''You requested a password reset. Click here: '' @ reset_url client (hex_of_bytes rnd))
        (createToken (user_id u) (hex_of_bytes rnd) Reset now s)"
    by (simp add: forgotPassword_def Let_def)
  from Some have "u \<in> set (users s)" by (simp add: find_user_by_email_Some)
  with inv fresh show ?thesis
    by (simp add: s' users_inv_createToken tokens_inv_createToken)
qed

subsection \<open>Properties of the account handlers\<close>

text \<open>
  (C15) Registering a new e-mail answers success, stores an inactive user with that
  e-mail, an activation token for that user whose secret is the hex encoding of the
  random bytes, and hands one mail to the transporter whose text carries the activation
  link with that secret.
\<close>

theorem registerUser_creates_inactive:
  assumes none: "find_user_by_email em (users s) = None"
    and run: "registerUser client fn ln em pw rnd now s = (r, s')"
  shows "r = Inr ''Registration successful. Please check your email to activate your account.'' \<and>
         (\<exists>u \<in> set (users s'). email u = em \<and> status u = Inactive \<and>
            (\<exists>t \<in> set (tokens s'). token_userId t = user_id u \<and> token_type t = Activation \<and>
                token_value t = hex_of_bytes rnd)) \<and>
         outbox s' = outbox s @ [\<lparr>mail_to = em, mail_subject = ''Account Activation - Cloud Canvas'',
            mail_text = ''Please click the following link to activate your account: '' @
                        activation_url client (hex_of_bytes rnd)\<rparr>]"
  using none run
  by (auto simp: registerUser_def Let_def createToken_def sendEmail_def)

text \<open>
  (C6) A successful activation stores the token's user as active, changes no other user,
  logs that user in, and consumes the token: the secret no longer finds an activation
  token, and a second activation with it answers 400 \<open>Invalid or expired token\<close> and
  changes nothing.
\<close>

theorem activateAccount_single_use:
  assumes inv: "tokens_inv s" "users_inv s"
    and run: "activateAccount secret now s = (Inr (sess, u'), s')"
  shows "(\<exists>t u. findToken secret Activation (tokens s) = Some t \<and>
                find_user (token_userId t) (users s) = Some u \<and> u' = u\<lparr>status := Active\<rparr>) \<and>
         find_user (user_id u') (users s') = Some u' \<and> status u' = Active \<and>
         (\<forall>i. i \<noteq> user_id u' \<longrightarrow> find_user i (users s') = find_user i (users s)) \<and>
         sess_user sess = user_id u' \<and>
         findToken secret Activation (tokens s') = None \<and>
         activateAccount secret now' s' = (Inl (Status 400 ''Invalid or expired token''), s')"
proof -
  from run obtain t u where t: "findToken secret Activation (tokens s) = Some t"
    and u: "find_user (token_userId t) (users s) = Some u"
    and r: "u' = u\<lparr>status := Active\<rparr>" "sess = generateToken (user_id u) now"
    and s': "s' = consumeToken (token_id t) (s\<lparr>users := save user_id u' (users s)\<rparr>)"
    by (auto simp: activateAccount_def Let_def split: option.splits)
  from inv(1) have inv1: "tokens_inv (s\<lparr>users := save user_id u' (users s)\<rparr>)"
    by (simp add: tokens_inv_def)
  from t have "findToken secret Activation (tokens (s\<lparr>users := save user_id u' (users s)\<rparr>)) = Some t"
    by simp
  from findToken_after_consume [OF inv1 this] s'
  have gone: "findToken secret Activation (tokens s') = None" by simp
  then have again: "activateAccount secret now' s' = (Inl (Status 400 ''Invalid or expired token''), s')"
    by (simp add: activateAccount_def)
  from u have us: "u \<in> set (users s)" by (simp add: find_user_Some)
  from inv(2) have "coll_wf user_id (next_oid s) (users s)" by (simp add: users_inv_def)
  from find_save_same [OF this us, of u'] r s'
  have stored: "find_user (user_id u') (users s') = Some u'"
    by (simp add: find_user_def consumeToken_def)
  have others: "\<forall>i. i \<noteq> user_id u' \<longrightarrow> find_user i (users s') = find_user i (users s)"
    using s' by (simp add: find_user_def consumeToken_def find_save_other)
  from t u r gone again stored others show ?thesis by (auto simp: generateToken_def)
qed

text \<open>
  (C16) Login distinguishes an inactive account: the correct password of an inactive user
  gets \<open>Account is not active\<close>, which differs from the answer to an unknown e-mail,
  so the response reveals that the account exists and that the password is right.
\<close>

theorem authUser_inactive_distinguishable:
  assumes "find_user_by_email em (users s) = Some u" and "status u = Inactive"
    and "password u = Hashed pw" and "find_user_by_email em' (users s) = None"
  shows "authUser em pw now s = Inl (Status 401 ''Account is not active. Please check your email.'') \<and>
         authUser em' pw' now s = Inl (Status 401 ''Invalid email or password'') \<and>
         authUser em pw now s \<noteq> authUser em' pw' now s"
  using assms by (simp add: authUser_def)

text \<open>
  (C17) A wrong password for an existing user and any password for an unknown e-mail get
  the same response.
\<close>

theorem authUser_wrong_password_like_unknown:
  assumes "find_user_by_email em (users s) = Some u" and "password u \<noteq> Hashed pw"
    and "find_user_by_email em' (users s) = None"
  shows "authUser em pw now s = authUser em' pw' now s"
proof -
  from assms(2) have "\<not> matchPassword pw (password u)" by (cases "password u") auto
  with assms(1,3) show ?thesis by (simp add: authUser_def)
qed

text \<open>
  (C19) The lookup does not check the token's age: a token older than 24 hours that the
  TTL monitor has not yet deleted still activates its user.
\<close>

theorem activateAccount_ignores_age:
  assumes "findToken secret Activation (tokens s) = Some t" and "token_expired now t"
    and "find_user (token_userId t) (users s) = Some u"
  shows "fst (activateAccount secret now s) = Inr (generateToken (user_id u) now, u\<lparr>status := Active\<rparr>)"
  using assms by (simp add: activateAccount_def Let_def)

text \<open>
  (C20) Right after a pass of the TTL monitor, an activation succeeds only with a token that
  is not expired at that time.
\<close>

theorem activateAccount_after_reap:
  assumes "fst (activateAccount secret now (ttl_reap now s)) = Inr x"
  shows "\<exists>t \<in> set (tokens s). token_value t = secret \<and> token_type t = Activation \<and> \<not> token_expired now t"
proof -
  from assms obtain t where t: "findToken secret Activation (tokens (ttl_reap now s)) = Some t"
    by (auto simp: activateAccount_def Let_def split: option.splits)
  then have "\<not> token_expired now t" by (rule findToken_reaped)
  moreover from t have "t \<in> set (tokens s)" "token_value t = secret" "token_type t = Activation"
    by (auto simp: ttl_reap_def dest: findToken_Some)
  ultimately show ?thesis by blast
qed

lemma resetPassword_success:
  assumes inv: "users_inv s" "tokens_inv s"
    and t: "findToken secret Reset (tokens s) = Some t"
    and u: "find_user (token_userId t) (users s) = Some u"
  shows "\<exists>s'. resetPassword secret pw s = (Inr ''Password reset successful'', s') \<and>
           find_user (user_id u) (users s') = Some (u\<lparr>password := Hashed pw\<rparr>) \<and>
           findToken secret Reset (tokens s') = None"
proof -
  let ?u' = "u\<lparr>password := Hashed pw\<rparr>"
  let ?s1 = "s\<lparr>users := save user_id ?u' (users s)\<rparr>"
  from u have uin: "u \<in> set (users s)" by (simp add: find_user_Some)
  have run: "resetPassword secret pw s = (Inr ''Password reset successful'', consumeToken (token_id t) ?s1)"
    using t u by (simp add: resetPassword_def Let_def)
  from inv(1) have wf: "coll_wf user_id (next_oid s) (users s)" by (simp add: users_inv_def)
  have "find (\<lambda>y. user_id y = user_id u) (save user_id ?u' (users s)) = Some ?u'"
    using find_save_same [OF wf uin] by simp
  then have found: "find_user (user_id u) (users (consumeToken (token_id t) ?s1)) = Some ?u'"
    by (simp add: consumeToken_def find_user_def)
  from inv(2) have "tokens_inv ?s1" by (simp add: tokens_inv_def)
  from findToken_after_consume [OF this] t
  have "findToken secret Reset (tokens (consumeToken (token_id t) ?s1)) = None" by simp
  with run found show ?thesis by blast
qed

text \<open>
  (C18) Resetting with a valid reset token replaces the user's stored credential by the
  digest of the new password and consumes the token, so the secret no longer finds a
  reset token.
\<close>

theorem resetPassword_single_use:
  assumes "users_inv s" "tokens_inv s"
    and "findToken secret Reset (tokens s) = Some t"
    and "find_user (token_userId t) (users s) = Some u"
  shows "\<exists>s'. resetPassword secret pw s = (Inr ''Password reset successful'', s') \<and>
           find_user (user_id u) (users s') = Some (u\<lparr>password := Hashed pw\<rparr>) \<and>
           findToken secret Reset (tokens s') = None"
  using assms by (rule resetPassword_success)

text \<open>
  Requesting a reset for an unknown e-mail answers 404 and changes nothing (the
  existence of an account is revealed here, as the spec records).
\<close>

theorem forgotPassword_unknown_email:
  "find_user_by_email em (users s) = None \<Longrightarrow>
     forgotPassword client em rnd now s = (Inl (Status 404 ''User not found''), s)"
  by (simp add: forgotPassword_def)

lemma forgotPassword_reset_works:
  assumes inv: "users_inv s" "tokens_inv s"
    and u: "find_user_by_email em (users s) = Some u"
    and fresh: "hex_of_bytes rnd \<notin> token_value ` set (tokens s)"
    and fp: "forgotPassword client em rnd now s = (r, s1)"
  shows "\<exists>s2. resetPassword (hex_of_bytes rnd) pw s1 = (Inr ''Password reset successful'', s2) \<and>
               find_user (user_id u) (users s2) = Some (u\<lparr>password := Hashed pw\<rparr>) \<and>
               findToken (hex_of_bytes rnd) Reset (tokens s2) = None"
proof -
  let ?t = "\<lparr>token_id = next_oid s, token_userId = user_id u, token_value = hex_of_bytes rnd,
             token_type = Reset, token_createdAt = now\<rparr>"
  from u have uin: "u \<in> set (users s)" by (simp add: find_user_by_email_Some)
  from inv(1) have "distinct (map user_id (users s))" by (simp add: users_inv_def coll_wf_def)
  from find_unique_key [OF this uin] have fu: "find_user (user_id u) (users s) = Some u"
    by (simp add: find_user_def)
  from fp u have s1: "s1 = sendEmail (email u) ''Password Reset - Cloud Canvas''
               (''You requested a password reset. Click here: '' @ reset_url client (hex_of_bytes rnd))
               (createToken (user_id u) (hex_of_bytes rnd) Reset now s)"
    by (simp add: forgotPassword_def Let_def)
  from forgotPassword_inv [OF inv fresh fp] have inv1: "users_inv s1" "tokens_inv s1" by simp_all
  from fresh have "find (\<lambda>x. token_value x = hex_of_bytes rnd \<and> token_type x = Reset) (tokens s) = None"
    unfolding find_None_iff' by (auto intro: rev_image_eqI)
  with s1 have t: "findToken (hex_of_bytes rnd) Reset (tokens s1) = Some ?t"
    by (simp add: findToken_def createToken_def find_append_simp)
  from fu s1 have "find_user (token_userId ?t) (users s1) = Some u"
    by (simp add: createToken_def)
  from resetPassword_success [OF inv1 t this] show ?thesis .
qed

text \<open>
  (C35) End to end, the reset mail carries the working secret: for a known e-mail,
  \<open>forgotPassword\<close> answers success and mails to the account's address a link with the
  hex form of the random bytes, and \<open>resetPassword\<close> with that secret then replaces the
  account's credential and consumes the token (the specification's scenario 7). The
  random secret is assumed not to collide with a stored one.
\<close>

theorem password_reset_end_to_end:
  assumes inv: "users_inv s" "tokens_inv s"
    and u: "find_user_by_email em (users s) = Some u"
    and fresh: "hex_of_bytes rnd \<notin> token_value ` set (tokens s)"
    and fp: "forgotPassword client em rnd now s = (r, s1)"
  shows "r = Inr ''Password reset email sent. Please check your inbox.'' \<and>
         last (outbox s1) = \<lparr>mail_to = email u, mail_subject = ''Password Reset - Cloud Canvas'',
            mail_text = ''You requested a password reset. Click here: '' @ reset_url client (hex_of_bytes rnd)\<rparr> \<and>
         (\<exists>s2. resetPassword (hex_of_bytes rnd) pw s1 = (Inr ''Password reset successful'', s2) \<and>
               find_user (user_id u) (users s2) = Some (u\<lparr>password := Hashed pw\<rparr>) \<and>
               findToken (hex_of_bytes rnd) Reset (tokens s2) = None)"
proof -
  from fp u have "r = Inr ''Password reset email sent. Please check your inbox.'' \<and>
      last (outbox s1) = \<lparr>mail_to = email u, mail_subject = ''Password Reset - Cloud Canvas'',
         mail_text = ''You requested a password reset. Click here: '' @ reset_url client (hex_of_bytes rnd)\<rparr>"
    by (auto simp: forgotPassword_def Let_def sendEmail_def)
  with forgotPassword_reset_works [OF assms] show ?thesis by blast
qed

text \<open>
  (C38) A failed mail leaks a working secret to the server log: when the transport rejects
  the reset mail of a known account, the handler's \<open>.catch\<close> prints the reset link, whose
  secret then resets that account's password; the link is printed only on a failure. The
  registration handler prints the activation link in the same way.
\<close>

theorem reset_link_logged_on_mail_failure:
  assumes inv: "users_inv s" "tokens_inv s"
    and u: "find_user_by_email em (users s) = Some u"
    and fresh: "hex_of_bytes rnd \<notin> token_value ` set (tokens s)"
    and fp: "forgotPassword client em rnd now s = (r, s1)"
  shows "DevLink (reset_url client (hex_of_bytes rnd)) \<in> set (forgotPassword_console client em rnd s (Inl err)) \<and>
         (\<forall>l \<in> set (forgotPassword_console client em rnd s (Inr mid)). l \<notin> range DevLink) \<and>
         (\<exists>s2. resetPassword (hex_of_bytes rnd) pw s1 = (Inr ''Password reset successful'', s2) \<and>
               find_user (user_id u) (users s2) = Some (u\<lparr>password := Hashed pw\<rparr>)) \<and>
         (find_user_by_email em' (users s) = None \<longrightarrow>
            DevLink (activation_url client (hex_of_bytes rnd)) \<in> set (registerUser_console client em' rnd s (Inl err)))"
proof -
  have "DevLink (reset_url client (hex_of_bytes rnd)) \<in> set (forgotPassword_console client em rnd s (Inl err))"
    and "\<forall>l \<in> set (forgotPassword_console client em rnd s (Inr mid)). l \<notin> range DevLink"
    using u by (auto simp: forgotPassword_console_def mail_console_def sendEmail_console_def)
  moreover have "find_user_by_email em' (users s) = None \<longrightarrow>
      DevLink (activation_url client (hex_of_bytes rnd)) \<in> set (registerUser_console client em' rnd s (Inl err))"
    by (simp add: registerUser_console_def mail_console_def sendEmail_console_def)
  ultimately show ?thesis using forgotPassword_reset_works [OF assms, of pw] by blast
qed

end
