(* ===== verification/Server.thy ===== *)
theory Server
  imports Folders Files Auth
begin

text \<open>
  The routes (src/routes/auth.js, folders.js, files.js, mounted by src/server.js under
  /api/auth, /api/folders and /api/files) as one datatype of requests and a dispatcher
  \<open>handle\<close> that calls the controller the route names. A request of a route behind
  \<open>protect\<close> carries the authenticated user's id. The upload route runs the multer-s3
  middleware first, which stores the object in the bucket, and then
  \<open>uploadFileSuccess\<close>. The server's runs are the reachable states of \<open>step\<close>: any
  request at any time, or a pass of the TTL monitor, from the empty database. The random
  sources are assumed fresh (a new token secret collides with no stored one, a new object
  key with no stored object), which is what 256 random bits and multer-s3's key generator
  provide.
\<close>

datatype auth_request =
    Register "string option" string string string string "8 word list"
  | Login string string
  | Activate string
  | Profile oid
  | ForgotPassword "string option" string "8 word list"
  | ResetPassword string string

datatype folder_request =
    CreateFolder oid "string option" "string option"
  | GetFolders oid "string option"
  | DeleteFolder oid string
  | RenameFolder oid string "string option"

datatype file_request =
    UploadFile oid "upload option" "string option" string
  | GetFiles oid "string option"
  | DeleteFile bool oid string
  | RenameFile oid string "string option"
  | DownloadFile bool oid string
  | GetDownloadUrl oid string

datatype request = AuthApi auth_request | FoldersApi folder_request | FilesApi file_request

datatype response =
    RText string
  | RSession session user
  | RUser user
  | RFolder folder
  | RFolders "folder list"
  | RFile file_doc
  | RFiles "file_doc list"
  | RUrl presigned_url
  | RDownload download

definition map_result :: "('a \<Rightarrow> 'b) \<Rightarrow> 'a result \<Rightarrow> 'b result" where
  "map_result f r = (case r of Inl e \<Rightarrow> Inl e | Inr a \<Rightarrow> Inr (f a))"

definition put_object :: "string \<Rightarrow> string \<Rightarrow> state \<Rightarrow> state" where
  "put_object key body s =
     s\<lparr>bucket := (bucket s)(key \<mapsto> body), s3_calls := s3_calls s @ [PutObject key]\<rparr>"

definition with_state :: "('a \<Rightarrow> 'b) \<Rightarrow> 'a result \<times> state \<Rightarrow> 'b result \<times> state" where
  "with_state f p = (map_result f (fst p), snd p)"

text \<open>src/routes/auth.js, lines 14--19.\<close>

fun auth_routes :: "time \<Rightarrow> auth_request \<Rightarrow> state \<Rightarrow> response result \<times> state" where
  "auth_routes now (Register c fn ln em pw rnd) s = with_state RText (registerUser c fn ln em pw rnd now s)"
| "auth_routes now (Login em pw) s = (map_result (\<lambda>(t, u). RSession t u) (authUser em pw now s), s)"
| "auth_routes now (Activate secret) s = with_state (\<lambda>(t, u). RSession t u) (activateAccount secret now s)"
| "auth_routes now (Profile uid) s = (map_result RUser (getUserProfile uid s), s)"
| "auth_routes now (ForgotPassword c em rnd) s = with_state RText (forgotPassword c em rnd now s)"
| "auth_routes now (ResetPassword secret pw) s = with_state RText (resetPassword secret pw s)"

text \<open>src/routes/folders.js, lines 12--18.\<close>

fun folder_routes :: "time \<Rightarrow> folder_request \<Rightarrow> state \<Rightarrow> response result \<times> state" where
  "folder_routes now (CreateFolder uid n p) s = with_state RFolder (createFolder uid n p now s)"
| "folder_routes now (GetFolders uid p) s = (map_result RFolders (getFolders uid p s), s)"
| "folder_routes now (DeleteFolder uid i) s = with_state RText (deleteFolder uid i s)"
| "folder_routes now (RenameFolder uid i n) s = with_state RFolder (renameFolder uid i n s)"

text \<open>
  src/routes/files.js, lines 15--25. The upload route runs multer-s3 before the handler:
  when the request has a file, its object is stored under its key first.
\<close>

fun file_routes :: "time \<Rightarrow> file_request \<Rightarrow> state \<Rightarrow> response result \<times> state" where
  "file_routes now (UploadFile uid up fo body) s =
     (case up of
        None \<Rightarrow> with_state RFile (uploadFileSuccess uid None fo now s)
      | Some u \<Rightarrow> with_state RFile (uploadFileSuccess uid up fo now (put_object (up_key u) body s)))"
| "file_routes now (GetFiles uid fo) s = (map_result RFiles (getFiles uid fo s), s)"
| "file_routes now (DeleteFile ok uid i) s = with_state RText (deleteFile ok uid i s)"
| "file_routes now (RenameFile uid i n) s = with_state RFile (renameFile uid i n s)"
| "file_routes now (DownloadFile ok uid i) s = with_state RDownload (downloadFile ok uid i s)"
| "file_routes now (GetDownloadUrl uid i) s = (map_result RUrl (getDownloadUrl uid i now s), s)"

text \<open>src/server.js, lines 25--27: the three routers under their mount points.\<close>

fun handle :: "time \<Rightarrow> request \<Rightarrow> state \<Rightarrow> response result \<times> state" where
  "handle now (AuthApi rq) s = auth_routes now rq s"
| "handle now (FoldersApi rq) s = folder_routes now rq s"
| "handle now (FilesApi rq) s = file_routes now rq s"

text \<open>What the environment guarantees about the random values a request carries.\<close>

fun fresh_inputs :: "request \<Rightarrow> state \<Rightarrow> bool" where
  "fresh_inputs (AuthApi (Register c fn ln em pw rnd)) s =
     (length rnd = 32 \<and> hex_of_bytes rnd \<notin> token_value ` set (tokens s))"
| "fresh_inputs (AuthApi (ForgotPassword c em rnd)) s =
     (length rnd = 32 \<and> hex_of_bytes rnd \<notin> token_value ` set (tokens s))"
| "fresh_inputs (FilesApi (UploadFile uid (Some u) fo body)) s = (bucket s (up_key u) = None)"
| "fresh_inputs _ s = True"

inductive step :: "state \<Rightarrow> state \<Rightarrow> bool" where
  request: "fresh_inputs rq s \<Longrightarrow> handle now rq s = (r, s') \<Longrightarrow> step s s'"
| reap: "step s (ttl_reap now s)"

inductive reachable :: "state \<Rightarrow> bool" where
  init: "reachable init_state"
| step: "reachable s \<Longrightarrow> step s s' \<Longrightarrow> reachable s'"

text \<open>The invariant of the whole persisted state: the invariants of the components.\<close>

definition sys_inv :: "state \<Rightarrow> bool" where
  "sys_inv s \<longleftrightarrow> folders_inv (next_oid s) (folders s) \<and> files_inv s \<and> tokens_inv s \<and> users_inv s"

definition active_users :: "state \<Rightarrow> oid set" where
  "active_users s = user_id ` set (filter (\<lambda>u. status u = Active) (users s))"

text \<open>
  One step keeps the set of active users or enlarges it, and every user it activates had an
  activation token that the step deletes.
\<close>

definition activation_step :: "state \<Rightarrow> state \<Rightarrow> bool" where
  "activation_step s s' \<longleftrightarrow>
     active_users s \<subseteq> active_users s' \<and>
     (\<forall>i \<in> active_users s' - active_users s.
        \<exists>t \<in> set (tokens s). token_type t = Activation \<and> token_userId t = i \<and> t \<notin> set (tokens s'))"

subsection \<open>Lemmas\<close>


lemma folders_inv_mono: "folders_inv n fs \<Longrightarrow> n \<le> m \<Longrightarrow> folders_inv m fs"
  by (auto simp: folders_inv_def intro: coll_wf_mono)

lemma sys_inv_accounts:
  "sys_inv s \<Longrightarrow> users_inv s' \<Longrightarrow> tokens_inv s' \<Longrightarrow> folders s' = folders s \<Longrightarrow>
     files s' = files s \<Longrightarrow> bucket s' = bucket s \<Longrightarrow> next_oid s \<le> next_oid s' \<Longrightarrow> sys_inv s'"
  by (auto simp: sys_inv_def files_inv_def intro: folders_inv_mono coll_wf_mono)

lemma sys_inv_folders:
  "sys_inv s \<Longrightarrow> folders_inv (next_oid s') (folders s') \<Longrightarrow> users s' = users s \<Longrightarrow>
     tokens s' = tokens s \<Longrightarrow> files s' = files s \<Longrightarrow> bucket s' = bucket s \<Longrightarrow>
     next_oid s \<le> next_oid s' \<Longrightarrow> sys_inv s'"
  by (auto simp: sys_inv_def files_inv_def tokens_inv_def users_inv_def intro: coll_wf_mono)

lemma sys_inv_files:
  "sys_inv s \<Longrightarrow> files_inv s' \<Longrightarrow> users s' = users s \<Longrightarrow> tokens s' = tokens s \<Longrightarrow>
     folders s' = folders s \<Longrightarrow> next_oid s \<le> next_oid s' \<Longrightarrow> sys_inv s'"
  by (auto simp: sys_inv_def tokens_inv_def users_inv_def intro: coll_wf_mono folders_inv_mono)

lemma registerUser_fields:
  "registerUser c fn ln em pw rnd now s = (r, s') \<Longrightarrow>
     folders s' = folders s \<and> files s' = files s \<and> bucket s' = bucket s \<and> next_oid s \<le> next_oid s'"
  by (auto simp: registerUser_def Let_def createToken_def sendEmail_def split: option.splits)

lemma forgotPassword_fields:
  "forgotPassword c em rnd now s = (r, s') \<Longrightarrow>
     folders s' = folders s \<and> files s' = files s \<and> bucket s' = bucket s \<and> next_oid s \<le> next_oid s'"
  by (auto simp: forgotPassword_def Let_def createToken_def sendEmail_def split: option.splits)

lemma activateAccount_fields:
  "activateAccount secret now s = (r, s') \<Longrightarrow>
     folders s' = folders s \<and> files s' = files s \<and> bucket s' = bucket s \<and> next_oid s' = next_oid s"
  by (auto simp: activateAccount_def Let_def consumeToken_def split: option.splits)

lemma resetPassword_fields:
  "resetPassword secret pw s = (r, s') \<Longrightarrow>
     folders s' = folders s \<and> files s' = files s \<and> bucket s' = bucket s \<and> next_oid s' = next_oid s"
  by (auto simp: resetPassword_def Let_def consumeToken_def split: option.splits)

lemma createFolder_fields:
  "createFolder uid n p now s = (r, s') \<Longrightarrow>
     users s' = users s \<and> tokens s' = tokens s \<and> files s' = files s \<and> bucket s' = bucket s \<and>
     next_oid s \<le> next_oid s'"
  by (auto simp: createFolder_def Let_def split: sum.splits option.splits if_splits)

lemma deleteFolder_fields:
  "deleteFolder uid i s = (r, s') \<Longrightarrow>
     users s' = users s \<and> tokens s' = tokens s \<and> files s' = files s \<and> bucket s' = bucket s \<and>
     next_oid s' = next_oid s"
  by (auto simp: deleteFolder_def split: sum.splits)

lemma renameFolder_fields:
  "renameFolder uid i n s = (r, s') \<Longrightarrow>
     users s' = users s \<and> tokens s' = tokens s \<and> files s' = files s \<and> bucket s' = bucket s \<and>
     next_oid s' = next_oid s"
  by (auto simp: renameFolder_def Let_def split: sum.splits)

lemma uploadFileSuccess_fields:
  "uploadFileSuccess uid up fo now s = (r, s') \<Longrightarrow>
     users s' = users s \<and> tokens s' = tokens s \<and> folders s' = folders s \<and> bucket s' = bucket s \<and>
     next_oid s \<le> next_oid s'"
  by (auto simp: uploadFileSuccess_def Let_def split: sum.splits option.splits if_splits)

lemma deleteFile_fields:
  "deleteFile ok uid i s = (r, s') \<Longrightarrow>
     users s' = users s \<and> tokens s' = tokens s \<and> folders s' = folders s \<and> next_oid s' = next_oid s"
  by (auto simp: deleteFile_def s3_delete_def Let_def split: sum.splits if_splits)

lemma renameFile_fields:
  "renameFile uid i n s = (r, s') \<Longrightarrow>
     users s' = users s \<and> tokens s' = tokens s \<and> folders s' = folders s \<and> next_oid s' = next_oid s"
  by (auto simp: renameFile_def Let_def split: sum.splits)

lemma downloadFile_fields:
  "downloadFile ok uid i s = (r, s') \<Longrightarrow>
     users s' = users s \<and> tokens s' = tokens s \<and> folders s' = folders s \<and> files s' = files s \<and>
     bucket s' = bucket s \<and> next_oid s' = next_oid s"
  by (auto simp: downloadFile_def s3_get_def Let_def split: sum.splits if_splits option.splits)

lemma put_object_files_inv:
  "files_inv s \<Longrightarrow> files_inv (put_object k body s)"
  by (auto simp: files_inv_def put_object_def)

lemma sys_inv_ttl_reap: "sys_inv s \<Longrightarrow> sys_inv (ttl_reap now s)"
  by (auto simp: sys_inv_def ttl_reap_def files_inv_def users_inv_def tokens_inv_ttl_reap [unfolded ttl_reap_def])

lemma with_state_run: "with_state f p = (r, s') \<Longrightarrow> p = (fst p, s')"
  by (cases p) (simp add: with_state_def)

lemma sys_inv_auth_routes:
  assumes inv: "sys_inv s" and fresh: "fresh_inputs (AuthApi rq) s" and run: "auth_routes now rq s = (r, s')"
  shows "sys_inv s'"
proof (cases rq)
  case (Register c fn ln em pw rnd)
  with run have run0: "registerUser c fn ln em pw rnd now s = (fst (registerUser c fn ln em pw rnd now s), s')"
    by (auto intro: with_state_run)
  from inv fresh Register registerUser_inv [OF _ _ _ run0] have "users_inv s' \<and> tokens_inv s'"
    by (simp add: sys_inv_def)
  with inv registerUser_fields [OF run0] show ?thesis by (auto intro: sys_inv_accounts)
next
  case (Login em pw)
  with run inv show ?thesis by simp
next
  case (Activate secret)
  with run have run0: "activateAccount secret now s = (fst (activateAccount secret now s), s')"
    by (auto intro: with_state_run)
  from inv activateAccount_inv [OF _ _ run0] have "users_inv s' \<and> tokens_inv s'"
    by (simp add: sys_inv_def)
  with inv activateAccount_fields [OF run0] show ?thesis by (auto intro: sys_inv_accounts)
next
  case (Profile uid)
  with run inv show ?thesis by simp
next
  case (ForgotPassword c em rnd)
  with run have run0: "forgotPassword c em rnd now s = (fst (forgotPassword c em rnd now s), s')"
    by (auto intro: with_state_run)
  from inv fresh ForgotPassword forgotPassword_inv [OF _ _ _ run0] have "users_inv s' \<and> tokens_inv s'"
    by (simp add: sys_inv_def)
  with inv forgotPassword_fields [OF run0] show ?thesis by (auto intro: sys_inv_accounts)
next
  case (ResetPassword secret pw)
  with run have run0: "resetPassword secret pw s = (fst (resetPassword secret pw s), s')"
    by (auto intro: with_state_run)
  from inv resetPassword_inv [OF _ _ run0] have "users_inv s' \<and> tokens_inv s'"
    by (simp add: sys_inv_def)
  with inv resetPassword_fields [OF run0] show ?thesis by (auto intro: sys_inv_accounts)
qed

lemma sys_inv_folder_routes:
  assumes inv: "sys_inv s" and run: "folder_routes now rq s = (r, s')"
  shows "sys_inv s'"
proof (cases rq)
  case (CreateFolder uid n p)
  with run have run0: "createFolder uid n p now s = (fst (createFolder uid n p now s), s')"
    by (auto intro: with_state_run)
  from inv createFolder_inv [OF _ run0] have "folders_inv (next_oid s') (folders s')"
    by (simp add: sys_inv_def)
  with inv createFolder_fields [OF run0] show ?thesis by (auto intro: sys_inv_folders)
next
  case (GetFolders uid p)
  with run inv show ?thesis by simp
next
  case (DeleteFolder uid i)
  with run have run0: "deleteFolder uid i s = (fst (deleteFolder uid i s), s')"
    by (auto intro: with_state_run)
  from inv deleteFolder_inv [OF _ run0] have "folders_inv (next_oid s') (folders s')"
    by (simp add: sys_inv_def)
  with inv deleteFolder_fields [OF run0] show ?thesis by (auto intro: sys_inv_folders)
next
  case (RenameFolder uid i n)
  with run have run0: "renameFolder uid i n s = (fst (renameFolder uid i n s), s')"
    by (auto intro: with_state_run)
  from inv renameFolder_inv [OF _ run0] have "folders_inv (next_oid s') (folders s')"
    by (simp add: sys_inv_def)
  with inv renameFolder_fields [OF run0] show ?thesis by (auto intro: sys_inv_folders)
qed

lemma sys_inv_file_routes:
  assumes inv: "sys_inv s" and fresh: "fresh_inputs (FilesApi rq) s" and run: "file_routes now rq s = (r, s')"
  shows "sys_inv s'"
proof (cases rq)
  case (UploadFile uid up fo body)
  show ?thesis
  proof (cases up)
    case None
    with UploadFile run have run0: "uploadFileSuccess uid None fo now s = (fst (uploadFileSuccess uid None fo now s), s')"
      by (auto intro: with_state_run)
    from inv uploadFileSuccess_inv [OF _ run0] have "files_inv s'" by (simp add: sys_inv_def)
    with inv uploadFileSuccess_fields [OF run0] show ?thesis by (auto intro: sys_inv_files)
  next
    case (Some u)
    let ?s1 = "put_object (up_key u) body s"
    from Some UploadFile run have run0: "uploadFileSuccess uid up fo now ?s1 = (fst (uploadFileSuccess uid up fo now ?s1), s')"
      by (auto intro: with_state_run)
    from inv have f1: "files_inv ?s1" by (simp add: sys_inv_def put_object_files_inv)
    from inv have "\<forall>f \<in> set (files s). bucket s (s3Key f) \<noteq> None" by (simp add: sys_inv_def files_inv_def)
    with fresh Some UploadFile have "up_key u \<notin> s3Key ` set (files ?s1)"
      by (auto simp: put_object_def)
    then have "\<forall>v. up = Some v \<longrightarrow> bucket ?s1 (up_key v) \<noteq> None \<and> up_key v \<notin> s3Key ` set (files ?s1)"
      using Some by (simp add: put_object_def)
    from uploadFileSuccess_inv [OF f1 run0 this] have "files_inv s'" .
    moreover from uploadFileSuccess_fields [OF run0] have
      "users s' = users s \<and> tokens s' = tokens s \<and> folders s' = folders s \<and> next_oid s \<le> next_oid s'"
      by (simp add: put_object_def)
    ultimately show ?thesis using inv by (auto intro: sys_inv_files)
  qed
next
  case (GetFiles uid fo)
  with run inv show ?thesis by simp
next
  case (DeleteFile ok uid i)
  with run have run0: "deleteFile ok uid i s = (fst (deleteFile ok uid i s), s')"
    by (auto intro: with_state_run)
  from inv deleteFile_inv [OF _ run0] have "files_inv s'" by (simp add: sys_inv_def)
  with inv deleteFile_fields [OF run0] show ?thesis by (auto intro: sys_inv_files)
next
  case (RenameFile uid i n)
  with run have run0: "renameFile uid i n s = (fst (renameFile uid i n s), s')"
    by (auto intro: with_state_run)
  from inv renameFile_inv [OF _ run0] have "files_inv s'" by (simp add: sys_inv_def)
  with inv renameFile_fields [OF run0] show ?thesis by (auto intro: sys_inv_files)
next
  case (DownloadFile ok uid i)
  with run have run0: "downloadFile ok uid i s = (fst (downloadFile ok uid i s), s')"
    by (auto intro: with_state_run)
  from downloadFile_fields [OF run0] have eqs:
    "users s' = users s" "tokens s' = tokens s" "folders s' = folders s" "files s' = files s"
    "bucket s' = bucket s" "next_oid s' = next_oid s" by simp_all
  with inv have "files_inv s'" by (simp add: sys_inv_def files_inv_def)
  with inv eqs show ?thesis by (auto intro: sys_inv_files)
next
  case (GetDownloadUrl uid i)
  with run inv show ?thesis by simp
qed

lemma sys_inv_handle:
  assumes inv: "sys_inv s" and fresh: "fresh_inputs rq s" and run: "handle now rq s = (r, s')"
  shows "sys_inv s'"
  using assms by (cases rq) (auto intro: sys_inv_auth_routes sys_inv_folder_routes sys_inv_file_routes)

lemma sys_inv_init: "sys_inv init_state"
  by (simp add: sys_inv_def init_state_def folders_inv_def files_inv_def tokens_inv_def users_inv_def coll_wf_def)

lemma reachable_sys_inv: "reachable s \<Longrightarrow> sys_inv s"
proof (induction rule: reachable.induct)
  case init
  show ?case by (rule sys_inv_init)
next
  case (step s s')
  from step.hyps(2) step.IH show ?case
  proof (cases rule: step.cases)
    case (request rq now r)
    with step.IH show ?thesis by (blast intro: sys_inv_handle)
  next
    case (reap now)
    with step.IH show ?thesis by (simp add: sys_inv_ttl_reap)
  qed
qed


lemma active_users_save:
  assumes inv: "users_inv s" and u: "u \<in> set (users s)" and same: "user_id u' = user_id u"
  shows "active_users (s\<lparr>users := save user_id u' (users s)\<rparr>) =
           (active_users s - {user_id u}) \<union> (if status u' = Active then {user_id u} else {})"
proof -
  from inv have wf: "coll_wf user_id (next_oid s) (users s)" by (simp add: users_inv_def)
  then have d: "distinct (map user_id (users s))" by (simp add: coll_wf_def)
  from wf u same have set': "set (save user_id u' (users s)) = insert u' (set (users s) - {u})"
    by (intro set_save_replace) (simp_all add: coll_wf_def)
  have other: "\<And>v. v \<in> set (users s) \<Longrightarrow> v \<noteq> u \<Longrightarrow> user_id v \<noteq> user_id u"
    using d u by (auto dest: distinct_key_eq)
  show ?thesis
  proof (rule set_eqI)
    fix i
    show "i \<in> active_users (s\<lparr>users := save user_id u' (users s)\<rparr>) \<longleftrightarrow>
          i \<in> (active_users s - {user_id u}) \<union> (if status u' = Active then {user_id u} else {})"
      unfolding active_users_def using set' same u other by (auto simp: image_iff)
  qed
qed

lemma active_users_fields:
  "users s' = users s \<Longrightarrow> active_users s' = active_users s"
  by (simp add: active_users_def)

lemma active_users_consume [simp]: "active_users (consumeToken i s) = active_users s"
  by (simp add: active_users_def consumeToken_def)

lemma active_users_sendEmail [simp]: "active_users (sendEmail a b c s) = active_users s"
  by (simp add: active_users_def)

lemma active_users_createToken [simp]: "active_users (createToken i v ty now s) = active_users s"
  by (simp add: active_users_def createToken_def)

lemma registerUser_active:
  assumes inv: "users_inv s" and run: "registerUser c fn ln em pw rnd now s = (r, s')"
  shows "active_users s' = active_users s"
proof (cases "find_user_by_email em (users s)")
  case (Some u)
  with run show ?thesis by (simp add: registerUser_def)
next
  case None
  let ?u = "\<lparr>user_id = next_oid s, firstName = fn, lastName = ln, email = em,
              password = Hashed pw, status = Inactive, user_createdAt = now\<rparr>"
  from None run have "active_users s' = active_users (s\<lparr>users := users s @ [?u], next_oid := Suc (next_oid s)\<rparr>)"
    by (auto simp: registerUser_def Let_def)
  then show ?thesis by (auto simp: active_users_def)
qed

lemma resetPassword_active:
  assumes inv: "users_inv s" and run: "resetPassword secret pw s = (r, s')"
  shows "active_users s' = active_users s"
proof (cases "\<exists>t u. findToken secret Reset (tokens s) = Some t \<and> find_user (token_userId t) (users s) = Some u")
  case False
  with run show ?thesis by (auto simp: resetPassword_def split: option.splits)
next
  case True
  then obtain t u where t: "findToken secret Reset (tokens s) = Some t"
    and u: "find_user (token_userId t) (users s) = Some u" by blast
  with run have s': "s' = consumeToken (token_id t) (s\<lparr>users := save user_id (u\<lparr>password := Hashed pw\<rparr>) (users s)\<rparr>)"
    by (simp add: resetPassword_def Let_def)
  from u have uin: "u \<in> set (users s)" by (simp add: find_user_Some)
  have "active_users s' = (active_users s - {user_id u}) \<union> (if status u = Active then {user_id u} else {})"
    using active_users_save [OF inv uin, of "u\<lparr>password := Hashed pw\<rparr>"] s' by simp
  moreover have "status u = Active \<longleftrightarrow> user_id u \<in> active_users s"
    using inv uin by (auto simp: active_users_def users_inv_def coll_wf_def dest: distinct_key_eq)
  ultimately show ?thesis by auto
qed

lemma activateAccount_active:
  assumes inv: "users_inv s" "tokens_inv s" and run: "activateAccount secret now s = (r, s')"
  shows "active_users s \<subseteq> active_users s' \<and>
         (\<forall>i \<in> active_users s' - active_users s.
            \<exists>t \<in> set (tokens s). token_type t = Activation \<and> token_userId t = i \<and>
              token_value t = secret \<and> t \<notin> set (tokens s'))"
proof (cases "\<exists>t u. findToken secret Activation (tokens s) = Some t \<and> find_user (token_userId t) (users s) = Some u")
  case False
  with run show ?thesis by (auto simp: activateAccount_def split: option.splits)
next
  case True
  then obtain t u where t: "findToken secret Activation (tokens s) = Some t"
    and u: "find_user (token_userId t) (users s) = Some u" by blast
  let ?s1 = "s\<lparr>users := save user_id (u\<lparr>status := Active\<rparr>) (users s)\<rparr>"
  from t u run have s': "s' = consumeToken (token_id t) ?s1"
    by (simp add: activateAccount_def Let_def)
  from u have uin: "u \<in> set (users s)" and uid: "user_id u = token_userId t"
    by (simp_all add: find_user_Some)
  have "active_users ?s1 = (active_users s - {user_id u}) \<union> {user_id u}"
    using active_users_save [OF inv(1) uin, of "u\<lparr>status := Active\<rparr>"] by simp
  then have act: "active_users s' = insert (user_id u) (active_users s)"
    using s' by auto
  from t have tin: "t \<in> set (tokens s)" and tt: "token_type t = Activation" "token_value t = secret"
    by (simp_all add: findToken_Some)
  from inv(2) have d: "distinct (map token_id (tokens s))" by (simp add: tokens_inv_def coll_wf_def)
  have "set (tokens s') = set (tokens s) - {t}"
    using s' d tin by (auto simp: consumeToken_def deleteOne_distinct dest: distinct_key_eq)
  then have "t \<notin> set (tokens s')" by simp
  with act tin tt uid show ?thesis by auto
qed

lemma activation_step_same: "users s' = users s \<Longrightarrow> activation_step s s'"
  by (simp add: activation_step_def active_users_def)

lemma auth_routes_activation_step:
  assumes inv: "sys_inv s" and run: "auth_routes now rq s = (r, s')"
  shows "activation_step s s'"
proof (cases rq)
  case (Register c fn ln em pw rnd)
  with run have run0: "registerUser c fn ln em pw rnd now s = (fst (registerUser c fn ln em pw rnd now s), s')"
    by (auto intro: with_state_run)
  from inv registerUser_active [OF _ run0] show ?thesis by (simp add: sys_inv_def activation_step_def)
next
  case (Activate secret)
  with run have run0: "activateAccount secret now s = (fst (activateAccount secret now s), s')"
    by (auto intro: with_state_run)
  from inv activateAccount_active [OF _ _ run0] show ?thesis
    by (auto simp: sys_inv_def activation_step_def)
next
  case (ForgotPassword c em rnd)
  with run have run0: "forgotPassword c em rnd now s = (fst (forgotPassword c em rnd now s), s')"
    by (auto intro: with_state_run)
  then have "users s' = users s"
    by (auto simp: forgotPassword_def Let_def createToken_def sendEmail_def split: option.splits)
  then show ?thesis by (rule activation_step_same)
next
  case (ResetPassword secret pw)
  with run have run0: "resetPassword secret pw s = (fst (resetPassword secret pw s), s')"
    by (auto intro: with_state_run)
  from inv resetPassword_active [OF _ run0] show ?thesis by (simp add: sys_inv_def activation_step_def)
qed (use run in \<open>auto intro: activation_step_same\<close>)

lemma folder_routes_activation_step:
  assumes run: "folder_routes now rq s = (r, s')"
  shows "activation_step s s'"
proof (cases rq)
  case (CreateFolder uid n p)
  with run have run0: "createFolder uid n p now s = (fst (createFolder uid n p now s), s')"
    by (auto intro: with_state_run)
  from createFolder_fields [OF run0] show ?thesis by (simp add: activation_step_same)
next
  case (DeleteFolder uid i)
  with run have run0: "deleteFolder uid i s = (fst (deleteFolder uid i s), s')"
    by (auto intro: with_state_run)
  from deleteFolder_fields [OF run0] show ?thesis by (simp add: activation_step_same)
next
  case (RenameFolder uid i n)
  with run have run0: "renameFolder uid i n s = (fst (renameFolder uid i n s), s')"
    by (auto intro: with_state_run)
  from renameFolder_fields [OF run0] show ?thesis by (simp add: activation_step_same)
qed (use run in \<open>auto intro: activation_step_same\<close>)

lemma file_routes_activation_step:
  assumes run: "file_routes now rq s = (r, s')"
  shows "activation_step s s'"
proof (cases rq)
  case (UploadFile uid up fo body)
  let ?s1 = "case up of None \<Rightarrow> s | Some u \<Rightarrow> put_object (up_key u) body s"
  from UploadFile run have run0: "uploadFileSuccess uid up fo now ?s1 = (fst (uploadFileSuccess uid up fo now ?s1), s')"
    by (cases up) (auto intro: with_state_run)
  from uploadFileSuccess_fields [OF run0] have "users s' = users s"
    by (cases up) (simp_all add: put_object_def)
  then show ?thesis by (rule activation_step_same)
next
  case (DeleteFile ok uid i)
  with run have run0: "deleteFile ok uid i s = (fst (deleteFile ok uid i s), s')"
    by (auto intro: with_state_run)
  from deleteFile_fields [OF run0] show ?thesis by (simp add: activation_step_same)
next
  case (RenameFile uid i n)
  with run have run0: "renameFile uid i n s = (fst (renameFile uid i n s), s')"
    by (auto intro: with_state_run)
  from renameFile_fields [OF run0] show ?thesis by (simp add: activation_step_same)
next
  case (DownloadFile ok uid i)
  with run have run0: "downloadFile ok uid i s = (fst (downloadFile ok uid i s), s')"
    by (auto intro: with_state_run)
  from downloadFile_fields [OF run0] show ?thesis by (simp add: activation_step_same)
qed (use run in \<open>auto intro: activation_step_same\<close>)

lemma handle_activation_step:
  assumes inv: "sys_inv s" and run: "handle now rq s = (r, s')"
  shows "activation_step s s'"
  using assms
  by (cases rq) (auto intro: auth_routes_activation_step folder_routes_activation_step
                             file_routes_activation_step)

lemma activation_step_mono: "activation_step s s' \<Longrightarrow> active_users s \<subseteq> active_users s'"
  by (simp add: activation_step_def)

lemma sys_inv_folders_inv: "sys_inv s \<Longrightarrow> folders_inv (next_oid s) (folders s)"
  by (simp add: sys_inv_def)

lemma reachable_activation_step: "reachable s \<Longrightarrow> step s s' \<Longrightarrow> activation_step s s'"
proof -
  assume r: "reachable s" and st: "step s s'"
  from r have inv: "sys_inv s" by (rule reachable_sys_inv)
  from st show ?thesis
  proof cases
    case (request rq now r)
    with inv show ?thesis by (blast intro: handle_activation_step)
  next
    case (reap now)
    then show ?thesis by (simp add: activation_step_same ttl_reap_def)
  qed
qed

subsection \<open>Properties of the whole server\<close>

text \<open>
  (C1) In every state the server can reach, ids are unique in every collection, every
  token belongs to an existing user, and a folder and its parent have the same owner. None
  of these facts rests on a request being served in one step or on the freshness of the
  random inputs: no handler deletes a user or writes an owner, a token is created after
  its user, and a child's owner is the caller that \<open>createFolder\<close> checked against the
  parent's owner.
\<close>

theorem server_invariant:
  assumes "reachable s"
  shows "distinct (map folder_id (folders s)) \<and> distinct (map file_id (files s)) \<and>
         distinct (map token_id (tokens s)) \<and> distinct (map user_id (users s)) \<and>
         (\<forall>t \<in> set (tokens s). \<exists>u \<in> set (users s). user_id u = token_userId t) \<and>
         (\<forall>f \<in> set (folders s). \<forall>q \<in> set (folders s).
            parentFolder f = Some (folder_id q) \<longrightarrow> folder_user q = folder_user f)"
proof -
  from assms have "sys_inv s" by (rule reachable_sys_inv)
  then show ?thesis
    by (auto simp: sys_inv_def folders_inv_def files_inv_def tokens_inv_def users_inv_def
                   coll_wf_def parent_ok_def)
qed

text \<open>
  (C11) In every reachable state, the materialized path of a folder whose ancestor chain is
  present is the concatenation of \<open>/\<close> and the id of each ancestor from the root down to
  the parent, and it decodes back to exactly that chain of ids.
\<close>

theorem reachable_materialized_path:
  assumes "reachable s" and "next_oid s \<le> 16 ^ 24" and "f \<in> set (folders s)"
    and "ancestors k (folders s) (folder_id f) = Some as"
  shows "folder_path f = path_of_ids as \<and> decode_path (folder_path f) = Some as"
proof -
  from assms(1) have inv: "folders_inv (next_oid s) (folders s)"
    by (simp add: reachable_sys_inv [THEN sys_inv_folders_inv])
  from ancestors_path [OF inv assms(3,4)] have p: "folder_path f = path_of_ids as" .
  from ancestors_ids [OF assms(4)] inv assms(2) have "\<forall>a \<in> set as. a < 16 ^ 24"
    by (fastforce simp: folders_inv_def coll_wf_def)
  with p show ?thesis by (simp add: decode_path_of_ids)
qed

text \<open>
  (C12) Following parent links terminates: in a reachable state where every parent
  reference is present, the folder's id plus one steps are enough to reach the root.
\<close>

theorem reachable_ancestors_fuel:
  assumes "reachable s" and "parents_present (folders s)" and "f \<in> set (folders s)"
  shows "\<exists>as. ancestors (Suc (folder_id f)) (folders s) (folder_id f) = Some as"
proof -
  from assms(1) have inv: "folders_inv (next_oid s) (folders s)"
    by (simp add: reachable_sys_inv [THEN sys_inv_folders_inv])
  from ancestors_enough_fuel [OF inv assms(2) assms(3)] show ?thesis .
qed

text \<open>
  (C13) No request and no expiry pass deactivates an account: the set of active users only
  grows along a step.
\<close>

theorem active_never_reverts:
  "reachable s \<Longrightarrow> step s s' \<Longrightarrow> active_users s \<subseteq> active_users s'"
  by (simp add: reachable_activation_step [THEN activation_step_mono])

text \<open>
  (C14) An account becomes active only by consuming an activation token of that account:
  whenever a step activates user \<open>i\<close>, an activation token for \<open>i\<close> was stored
  before the step and is gone after it.
\<close>

theorem activation_consumes_token:
  assumes "reachable s" and "step s s'" and "i \<in> active_users s'" and "i \<notin> active_users s"
  shows "\<exists>t \<in> set (tokens s). token_type t = Activation \<and> token_userId t = i \<and> t \<notin> set (tokens s')"
  using reachable_activation_step [OF assms(1,2)] assms(3,4) by (simp add: activation_step_def)

text \<open>
  (C27) multer-s3 stores the object before the handler runs, and nothing removes it when
  the handler fails: an upload whose \<open>folderId\<close> is not an ObjectId is answered 500
  with the \<open>ValidationError\<close>, and the server is left in a state where the object is in
  the bucket but no file document refers to it.
\<close>

theorem upload_bad_folder_orphans_blob:
  assumes "reachable s" and fresh: "bucket s (up_key u) = None"
    and v: "v \<noteq> []" "parse_oid v = None"
  shows "\<exists>s'. handle now (FilesApi (UploadFile uid (Some u) (Some v) body)) s =
                (Inl (Exception ValidationError), s') \<and> step s s' \<and>
              bucket s' (up_key u) = Some body \<and> up_key u \<notin> s3Key ` set (files s')"
proof -
  let ?s' = "put_object (up_key u) body s"
  have run: "handle now (FilesApi (UploadFile uid (Some u) (Some v) body)) s =
               (Inl (Exception ValidationError), ?s')"
    using v by (simp add: with_state_def map_result_def uploadFileSuccess_def)
  moreover have "step s ?s'" using fresh by (intro step.request [OF _ run]) simp
  moreover from reachable_sys_inv [OF assms(1)] have "files_inv s" by (simp add: sys_inv_def)
  with fresh have "up_key u \<notin> s3Key ` set (files s)" by (auto simp: files_inv_def)
  ultimately show ?thesis by (auto simp: put_object_def)
qed

end
