(* ===== verification/Isolation.thy ===== *)
theory Isolation
  imports Server
begin

text \<open>
  Ownership-scoped access control across the folder, file and account routes. Every
  folder and file route acts for the user that \<open>protect\<close> put in \<open>req.user\<close>, the
  \<open>caller\<close> of the request. What the routes promise: a request never changes another
  user's folders, files or stored objects (\<open>isolated\<close>), and a successful response only
  carries data of the caller (\<open>resp_owned\<close>).
\<close>

fun caller :: "request \<Rightarrow> oid option" where
  "caller (AuthApi (Profile uid)) = Some uid"
| "caller (AuthApi _) = None"
| "caller (FoldersApi (CreateFolder uid n p)) = Some uid"
| "caller (FoldersApi (GetFolders uid p)) = Some uid"
| "caller (FoldersApi (DeleteFolder uid i)) = Some uid"
| "caller (FoldersApi (RenameFolder uid i n)) = Some uid"
| "caller (FilesApi (UploadFile uid up fo body)) = Some uid"
| "caller (FilesApi (GetFiles uid fo)) = Some uid"
| "caller (FilesApi (DeleteFile ok uid i)) = Some uid"
| "caller (FilesApi (RenameFile uid i n)) = Some uid"
| "caller (FilesApi (DownloadFile ok uid i)) = Some uid"
| "caller (FilesApi (GetDownloadUrl uid i)) = Some uid"

definition isolated :: "oid \<Rightarrow> state \<Rightarrow> state \<Rightarrow> bool" where
  "isolated uid s s' \<longleftrightarrow>
     filter (\<lambda>f. folder_user f \<noteq> uid) (folders s') = filter (\<lambda>f. folder_user f \<noteq> uid) (folders s) \<and>
     filter (\<lambda>f. file_user f \<noteq> uid) (files s') = filter (\<lambda>f. file_user f \<noteq> uid) (files s) \<and>
     (\<forall>g \<in> set (files s). file_user g \<noteq> uid \<longrightarrow> bucket s' (s3Key g) = bucket s (s3Key g))"

fun resp_owned :: "oid \<Rightarrow> state \<Rightarrow> response \<Rightarrow> bool" where
  "resp_owned uid s (RText m) = True"
| "resp_owned uid s (RSession t u) = True"
| "resp_owned uid s (RUser u) = (user_id u = uid)"
| "resp_owned uid s (RFolder f) = (folder_user f = uid)"
| "resp_owned uid s (RFolders fs) = list_all (\<lambda>f. folder_user f = uid) fs"
| "resp_owned uid s (RFile f) = (file_user f = uid)"
| "resp_owned uid s (RFiles fs) = list_all (\<lambda>f. file_user f = uid) fs"
| "resp_owned uid s (RUrl u) = (\<exists>f \<in> set (files s). file_user f = uid \<and> url_key u = s3Key f)"
| "resp_owned uid s (RDownload d) =
     (\<exists>f \<in> set (files s). file_user f = uid \<and> bucket s (s3Key f) = Some (dl_body d))"

subsection \<open>Lemmas\<close>

lemma filter_map_keep:
  "(\<forall>y \<in> set xs. g y = y \<or> (\<not> P y \<and> \<not> P (g y))) \<Longrightarrow> filter P (map g xs) = filter P xs"
  by (induction xs) auto

lemma filter_save_keep:
  assumes "distinct (map k xs)" and "x \<in> set xs" and "k d = k x" and "\<not> P x" and "\<not> P d"
  shows "filter P (save k d xs) = filter P xs"
  unfolding save_def
proof (rule filter_map_keep, intro ballI)
  fix y assume "y \<in> set xs"
  with assms(1,2) have "k y = k x \<Longrightarrow> y = x" by (auto dest: distinct_key_eq)
  with assms(3-5) show "(if k y = k d then d else y) = y \<or> \<not> P y \<and> \<not> P (if k y = k d then d else y)"
    by auto
qed

lemma filter_deleteOne_keep:
  assumes "distinct (map k xs)" and "x \<in> set xs" and "\<not> P x"
  shows "filter P (deleteOne k (k x) xs) = filter P xs"
proof -
  have "\<forall>y \<in> set xs. P y \<longrightarrow> k y \<noteq> k x"
    using assms by (auto dest: distinct_key_eq)
  then have "filter (\<lambda>y. k y \<noteq> k x \<and> P y) xs = filter P xs"
    by (intro filter_cong) auto
  then show ?thesis using assms(1) by (simp add: deleteOne_distinct filter_filter)
qed

lemma isolated_refl [intro]: "isolated uid s s"
  by (simp add: isolated_def)

lemma isolated_same:
  "folders s' = folders s \<Longrightarrow> files s' = files s \<Longrightarrow> bucket s' = bucket s \<Longrightarrow> isolated uid s s'"
  by (simp add: isolated_def)

lemma isolated_trans:
  assumes "isolated uid s s1" and "isolated uid s1 s2"
  shows "isolated uid s s2"
proof -
  have "g \<in> set (files s1)" if "g \<in> set (files s)" "file_user g \<noteq> uid" for g
  proof -
    from that have "g \<in> set (filter (\<lambda>f. file_user f \<noteq> uid) (files s))" by simp
    also have "filter (\<lambda>f. file_user f \<noteq> uid) (files s) = filter (\<lambda>f. file_user f \<noteq> uid) (files s1)"
      using assms(1) by (simp add: isolated_def)
    finally show ?thesis by simp
  qed
  with assms show ?thesis by (auto simp: isolated_def)
qed

lemma createFolder_isolated: "createFolder uid n p now s = (r, s') \<Longrightarrow> isolated uid s s'"
  by (auto simp: createFolder_def Let_def isolated_def split: sum.splits option.splits if_splits)

lemma uploadFileSuccess_isolated: "uploadFileSuccess uid up fo now s = (r, s') \<Longrightarrow> isolated uid s s'"
  by (auto simp: uploadFileSuccess_def Let_def isolated_def split: sum.splits option.splits if_splits)

lemma deleteFolder_isolated:
  assumes "distinct (map folder_id (folders s))" and run: "deleteFolder uid i s = (r, s')"
  shows "isolated uid s s'"
proof (cases "load_owned_folder uid i (folders s)")
  case (Inl e)
  with run show ?thesis by (auto simp: deleteFolder_def)
next
  case (Inr f)
  from load_owned_folder_Inr [OF Inr] have "f \<in> set (folders s)" "folder_user f = uid" by simp_all
  from filter_deleteOne_keep [OF assms(1) this(1), of "\<lambda>g. folder_user g \<noteq> uid"] this(2) Inr run
  show ?thesis by (auto simp: deleteFolder_def isolated_def)
qed

lemma renameFolder_isolated:
  assumes "distinct (map folder_id (folders s))" and run: "renameFolder uid i n s = (r, s')"
  shows "isolated uid s s'"
proof (cases "load_owned_folder uid i (folders s)")
  case (Inl e)
  with run show ?thesis by (auto simp: renameFolder_def)
next
  case (Inr f)
  from load_owned_folder_Inr [OF Inr] have "f \<in> set (folders s)" "folder_user f = uid" by simp_all
  from filter_save_keep [OF assms(1) this(1), of "f\<lparr>folder_name := js_or n (folder_name f) id\<rparr>"
      "\<lambda>g. folder_user g \<noteq> uid"] this(2) Inr run
  show ?thesis by (auto simp: renameFolder_def isolated_def Let_def)
qed

lemma renameFile_isolated:
  assumes "distinct (map file_id (files s))" and run: "renameFile uid i n s = (r, s')"
  shows "isolated uid s s'"
proof (cases "load_owned_file uid i (files s)")
  case (Inl e)
  with run show ?thesis by (auto simp: renameFile_def)
next
  case (Inr f)
  from load_owned_file_Inr [OF Inr] have "f \<in> set (files s)" "file_user f = uid" by simp_all
  from filter_save_keep [OF assms(1) this(1), of "f\<lparr>file_name := js_or n (file_name f) id\<rparr>"
      "\<lambda>g. file_user g \<noteq> uid"] this(2) Inr run
  show ?thesis by (auto simp: renameFile_def isolated_def Let_def)
qed

lemma deleteFile_isolated:
  assumes inv: "files_inv s" and run: "deleteFile ok uid i s = (r, s')"
  shows "isolated uid s s'"
proof (cases "load_owned_file uid i (files s)")
  case (Inl e)
  with run show ?thesis by (auto simp: deleteFile_def)
next
  case (Inr f)
  from load_owned_file_Inr [OF Inr] have f: "f \<in> set (files s)" "file_user f = uid" by simp_all
  from inv have d: "distinct (map file_id (files s))" "distinct (map s3Key (files s))"
    by (simp_all add: files_inv_def coll_wf_def)
  have keys: "s3Key g \<noteq> s3Key f" if "g \<in> set (files s)" "file_user g \<noteq> uid" for g
    using distinct_key_eq [OF d(2) that(1) f(1)] that(2) f(2) by auto
  show ?thesis
  proof (cases ok)
    case True
    with Inr run have "s' = s\<lparr>s3_calls := s3_calls s @ [DeleteObject (s3Key f)],
                               bucket := (bucket s)(s3Key f := None),
                               files := deleteOne file_id (file_id f) (files s)\<rparr>"
      by (simp add: deleteFile_def s3_delete_def)
    with filter_deleteOne_keep [OF d(1) f(1), of "\<lambda>g. file_user g \<noteq> uid"] f(2) keys
    show ?thesis by (auto simp: isolated_def)
  next
    case False
    with Inr run have "s' = s\<lparr>s3_calls := s3_calls s @ [DeleteObject (s3Key f)]\<rparr>"
      by (simp add: deleteFile_def s3_delete_def)
    then show ?thesis by (simp add: isolated_def)
  qed
qed

lemma put_object_isolated:
  "files_inv s \<Longrightarrow> bucket s k = None \<Longrightarrow> isolated uid s (put_object k b s)"
  by (auto simp: isolated_def put_object_def files_inv_def)

lemma auth_routes_isolated:
  assumes run: "auth_routes now rq s = (r, s')"
  shows "isolated uid s s'"
proof (cases rq)
  case (Register c fn ln em pw rnd)
  with run have "with_state RText (registerUser c fn ln em pw rnd now s) = (r, s')" by simp
  from registerUser_fields [OF with_state_run [OF this]] show ?thesis by (auto intro: isolated_same)
next
  case (Activate secret)
  with run have "with_state (\<lambda>(t, u). RSession t u) (activateAccount secret now s) = (r, s')" by simp
  from activateAccount_fields [OF with_state_run [OF this]] show ?thesis by (auto intro: isolated_same)
next
  case (ForgotPassword c em rnd)
  with run have "with_state RText (forgotPassword c em rnd now s) = (r, s')" by simp
  from forgotPassword_fields [OF with_state_run [OF this]] show ?thesis by (auto intro: isolated_same)
next
  case (ResetPassword secret pw)
  with run have "with_state RText (resetPassword secret pw s) = (r, s')" by simp
  from resetPassword_fields [OF with_state_run [OF this]] show ?thesis by (auto intro: isolated_same)
qed (use run in auto)

lemma folder_routes_isolated:
  assumes d: "distinct (map folder_id (folders s))" and run: "folder_routes now rq s = (r, s')"
    and c: "caller (FoldersApi rq) = Some uid"
  shows "isolated uid s s'"
proof (cases rq)
  case (CreateFolder u n p)
  with run c have "with_state RFolder (createFolder uid n p now s) = (r, s')" by simp
  from createFolder_isolated [OF with_state_run [OF this]] show ?thesis .
next
  case (DeleteFolder u i)
  with run c have "with_state RText (deleteFolder uid i s) = (r, s')" by simp
  from deleteFolder_isolated [OF d with_state_run [OF this]] show ?thesis .
next
  case (RenameFolder u i n)
  with run c have "with_state RFolder (renameFolder uid i n s) = (r, s')" by simp
  from renameFolder_isolated [OF d with_state_run [OF this]] show ?thesis .
qed (use run in auto)

lemma file_routes_isolated:
  assumes inv: "files_inv s" and fresh: "fresh_inputs (FilesApi rq) s"
    and run: "file_routes now rq s = (r, s')" and c: "caller (FilesApi rq) = Some uid"
  shows "isolated uid s s'"
proof (cases rq)
  case (UploadFile u up fo body)
  show ?thesis
  proof (cases up)
    case None
    with UploadFile run c have "with_state RFile (uploadFileSuccess uid None fo now s) = (r, s')" by simp
    from uploadFileSuccess_isolated [OF with_state_run [OF this]] show ?thesis .
  next
    case (Some x)
    let ?s1 = "put_object (up_key x) body s"
    from UploadFile Some run c have "with_state RFile (uploadFileSuccess uid up fo now ?s1) = (r, s')" by simp
    from uploadFileSuccess_isolated [OF with_state_run [OF this]]
    have "isolated uid ?s1 s'" .
    moreover from fresh UploadFile Some inv have "isolated uid s ?s1"
      by (simp add: put_object_isolated)
    ultimately show ?thesis by (blast intro: isolated_trans)
  qed
next
  case (DeleteFile ok u i)
  with run c have "with_state RText (deleteFile ok uid i s) = (r, s')" by simp
  from deleteFile_isolated [OF inv with_state_run [OF this]] show ?thesis .
next
  case (RenameFile u i n)
  with run c have "with_state RFile (renameFile uid i n s) = (r, s')" by simp
  from renameFile_isolated [OF _ with_state_run [OF this]] inv show ?thesis
    by (simp add: files_inv_def coll_wf_def)
next
  case (DownloadFile ok u i)
  with run c have "with_state RDownload (downloadFile ok uid i s) = (r, s')" by simp
  from downloadFile_fields [OF with_state_run [OF this]] show ?thesis by (auto intro: isolated_same)
qed (use run in auto)

lemma load_owned_folder_user: "load_owned_folder uid i fs = Inr f \<Longrightarrow> folder_user f = uid"
  by (simp add: load_owned_folder_Inr)

lemma renameFolder_Inr_user: "fst (renameFolder uid i n s) = Inr f \<Longrightarrow> folder_user f = uid"
  by (auto simp: renameFolder_def Let_def split: sum.splits dest: load_owned_folder_user)

lemma renameFile_Inr_user: "fst (renameFile uid i n s) = Inr f \<Longrightarrow> file_user f = uid"
  by (auto simp: renameFile_def Let_def split: sum.splits dest: load_owned_file_Inr)

lemma downloadFile_Inr_owned:
  assumes "fst (downloadFile ok uid i s) = Inr d"
  shows "\<exists>f \<in> set (files s). file_user f = uid \<and> bucket s (s3Key f) = Some (dl_body d)"
proof (cases "load_owned_file uid i (files s)")
  case (Inl e)
  with assms show ?thesis by (simp add: downloadFile_def)
next
  case (Inr f)
  from load_owned_file_Inr [OF Inr] have "f \<in> set (files s)" "file_user f = uid" by simp_all
  with Inr assms show ?thesis
    by (auto simp: downloadFile_def s3_get_def Let_def split: option.splits if_splits)
qed

lemma getDownloadUrl_Inr_owned:
  assumes "getDownloadUrl uid i now s = Inr u"
  shows "\<exists>f \<in> set (files s). file_user f = uid \<and> url_key u = s3Key f"
proof (cases "load_owned_file uid i (files s)")
  case (Inl e)
  with assms show ?thesis by (simp add: getDownloadUrl_def)
next
  case (Inr f)
  from load_owned_file_Inr [OF Inr] have "f \<in> set (files s)" "file_user f = uid" by simp_all
  with Inr assms show ?thesis by (auto simp: getDownloadUrl_def getSignedUrl_def)
qed

lemma map_result_Inr: "map_result f r = Inr x \<Longrightarrow> \<exists>a. r = Inr a \<and> x = f a"
  by (cases r) (auto simp: map_result_def)

lemma with_state_Inr: "with_state f p = (Inr x, s') \<Longrightarrow> \<exists>a. fst p = Inr a \<and> x = f a"
  by (cases p) (auto simp: with_state_def dest: map_result_Inr)

subsection \<open>Properties\<close>

text \<open>
  (C2) In every reachable state, a request made by a user never changes another user's
  folders or files, nor the stored object of another user's file, whatever the route and
  whether it succeeds or fails.
\<close>

theorem requests_isolated:
  assumes "reachable s" and "fresh_inputs rq s" and "caller rq = Some uid"
    and "handle now rq s = (r, s')"
  shows "isolated uid s s'"
proof -
  from reachable_sys_inv [OF assms(1)] have "files_inv s" "distinct (map folder_id (folders s))"
    by (simp_all add: sys_inv_def) (blast intro: folders_inv_distinct)
  with assms(2-4) show ?thesis
    by (cases rq) (auto intro: auth_routes_isolated folder_routes_isolated file_routes_isolated)
qed

text \<open>
  (C3) A successful response to a user's request carries only that user's data: the
  folders and files listed, created or renamed are the caller's, a download URL names the
  key of one of the caller's files, a download body is the object of one of them, and a
  profile is the caller's own.
\<close>

theorem responses_owned:
  assumes run: "handle now rq s = (Inr resp, s')" and c: "caller rq = Some uid"
  shows "resp_owned uid s resp"
proof (cases rq)
  case (AuthApi a)
  with run c show ?thesis
    by (cases a) (auto simp: getUserProfile_def list_all_iff dest!: map_result_Inr
                     split: option.splits dest: find_user_Some)
next
  case (FoldersApi a)
  with run c show ?thesis
    by (cases a)
       (auto simp: createFolder_def getFolders_def Let_def list_all_iff
             dest!: map_result_Inr with_state_Inr dest: renameFolder_Inr_user
             split: sum.splits option.splits if_splits)
next
  case (FilesApi a)
  with run c show ?thesis
    by (cases a)
       (auto simp: uploadFileSuccess_def getFiles_def Let_def list_all_iff
             dest!: map_result_Inr with_state_Inr
             dest: renameFile_Inr_user downloadFile_Inr_owned getDownloadUrl_Inr_owned
             split: sum.splits option.splits if_splits)
qed

end
