(* ===== verification/Interleaving.thy ===== *)
theory Interleaving
  imports Auth
begin

text \<open>
  Three handlers of authController.js, \<open>registerUser\<close> (lines 44--110),
  \<open>activateAccount\<close> (lines 112--152) and \<open>resetPassword\<close> (lines 260--282), as Node
  runs them: an \<open>async\<close>
  function gives up control at every \<open>await\<close>, so each handler is a sequence of phases,
  one database call each, and the event loop may run phases of other requests in
  between. A thread is the program counter of one request (its locals included); a
  schedule is the list of threads whose next phase runs, in order.

  \<open>user.save()\<close> on a loaded document writes only its modified paths (Mongoose's
  change tracking, an \<open>updateOne\<close> with \<open>$set\<close> of those paths), so the activation
  writes \<open>status\<close> and the reset writes \<open>password\<close> of the document with the user's id:
  \<open>set_user_status\<close> and \<open>set_user_password\<close>.

  Each phase is the code between two awaits of the handler, written from the source
  lines it names. Interleaved, two requests with the same secret can both pass the lookup
  before either deletes the token, and two registrations with one e-mail can both pass the
  duplicate check; an activation and a reset, or two activations with different tokens, of
  one account both take effect under every schedule.
\<close>

definition set_user_status :: "oid \<Rightarrow> user_status \<Rightarrow> user list \<Rightarrow> user list" where
  "set_user_status i st us = map (\<lambda>v. if user_id v = i then v\<lparr>status := st\<rparr> else v) us"

definition set_user_password :: "oid \<Rightarrow> credential \<Rightarrow> user list \<Rightarrow> user list" where
  "set_user_password i c us = map (\<lambda>v. if user_id v = i then v\<lparr>password := c\<rparr> else v) us"

text \<open>
  The phases of \<open>activateAccount\<close>: the token lookup (line 115), the user lookup
  (line 121), the save (lines 128--129), the deletion of the token (line 132), after which
  the response is built from the in-memory document.
\<close>

datatype act_pc =
    ActFind string
  | ActLoad token
  | ActSave token user
  | ActDelete token user
  | ActDone "(session \<times> user) result"

fun act_phase :: "time \<Rightarrow> act_pc \<Rightarrow> state \<Rightarrow> act_pc \<times> state" where
  "act_phase now (ActFind secret) s =
     (case findToken secret Activation (tokens s) of
        None \<Rightarrow> (ActDone (Inl (Status 400 ''Invalid or expired token'')), s)
      | Some t \<Rightarrow> (ActLoad t, s))"
| "act_phase now (ActLoad t) s =
     (case find_user (token_userId t) (users s) of
        None \<Rightarrow> (ActDone (Inl (Status 404 ''User not found'')), s)
      | Some u \<Rightarrow> (ActSave t (u\<lparr>status := Active\<rparr>), s))"
| "act_phase now (ActSave t u) s =
     (ActDelete t u, s\<lparr>users := set_user_status (user_id u) (status u) (users s)\<rparr>)"
| "act_phase now (ActDelete t u) s =
     (ActDone (Inr (generateToken (user_id u) now, u)), consumeToken (token_id t) s)"
| "act_phase now (ActDone r) s = (ActDone r, s)"

text \<open>The phases of \<open>resetPassword\<close>: lines 263, 268, 273--274 and 275.\<close>

datatype reset_pc =
    ResFind string string
  | ResLoad string token
  | ResSave token user
  | ResDelete token
  | ResDone "string result"

fun reset_phase :: "reset_pc \<Rightarrow> state \<Rightarrow> reset_pc \<times> state" where
  "reset_phase (ResFind secret pw) s =
     (case findToken secret Reset (tokens s) of
        None \<Rightarrow> (ResDone (Inl (Status 400 ''Invalid or expired token'')), s)
      | Some t \<Rightarrow> (ResLoad pw t, s))"
| "reset_phase (ResLoad pw t) s =
     (case find_user (token_userId t) (users s) of
        None \<Rightarrow> (ResDone (Inl (Status 404 ''User not found'')), s)
      | Some u \<Rightarrow> (ResSave t (u\<lparr>password := Hashed pw\<rparr>), s))"
| "reset_phase (ResSave t u) s =
     (ResDelete t, s\<lparr>users := set_user_password (user_id u) (password u) (users s)\<rparr>)"
| "reset_phase (ResDelete t) s =
     (ResDone (Inr ''Password reset successful''), consumeToken (token_id t) s)"
| "reset_phase (ResDone r) s = (ResDone r, s)"

text \<open>
  The phases of \<open>registerUser\<close> (lines 44--110): the e-mail lookup (line 48), the creation
  of the user (line 54), the creation of the activation token (line 63), after which the
  mail is handed over without waiting and the response is sent. The request's fields are
  \<open>(CLIENT_URL, firstName, lastName, email, password, random bytes)\<close>.
\<close>

type_synonym reg_args = "string option \<times> string \<times> string \<times> string \<times> string \<times> 8 word list"

datatype reg_pc =
    RegFind reg_args
  | RegCreate reg_args
  | RegToken reg_args user
  | RegDone "string result"

fun reg_phase :: "time \<Rightarrow> reg_pc \<Rightarrow> state \<Rightarrow> reg_pc \<times> state" where
  "reg_phase now (RegFind (c, fn, ln, em, pw, rnd)) s =
     (case find_user_by_email em (users s) of
        Some _ \<Rightarrow> (RegDone (Inl (Status 400 ''User already exists'')), s)
      | None \<Rightarrow> (RegCreate (c, fn, ln, em, pw, rnd), s))"
| "reg_phase now (RegCreate (c, fn, ln, em, pw, rnd)) s =
     (let u = \<lparr>user_id = next_oid s, firstName = fn, lastName = ln, email = em,
               password = Hashed pw, status = Inactive, user_createdAt = now\<rparr>
      in (RegToken (c, fn, ln, em, pw, rnd) u, s\<lparr>users := users s @ [u], next_oid := Suc (next_oid s)\<rparr>))"
| "reg_phase now (RegToken (c, fn, ln, em, pw, rnd) u) s =
     (let secret = hex_of_bytes rnd;
          s2 = createToken (user_id u) secret Activation now s
      in (RegDone (Inr ''Registration successful. Please check your email to activate your account.''),
          sendEmail em ''Account Activation - Cloud Canvas''
            (''Please click the following link to activate your account: '' @ activation_url c secret) s2))"
| "reg_phase now (RegDone r) s = (RegDone r, s)"

text \<open>A request in flight, and one turn of the event loop for it.\<close>

datatype thread = ActThread time act_pc | ResThread reset_pc | RegThread time reg_pc

fun thread_step :: "thread \<Rightarrow> state \<Rightarrow> thread \<times> state" where
  "thread_step (ActThread now pc) s = (let (pc', s') = act_phase now pc s in (ActThread now pc', s'))"
| "thread_step (ResThread pc) s = (let (pc', s') = reset_phase pc s in (ResThread pc', s'))"
| "thread_step (RegThread now pc) s = (let (pc', s') = reg_phase now pc s in (RegThread now pc', s'))"

text \<open>
  A schedule lists the indices of the threads whose next phase runs; an index with no
  thread is skipped, and a finished thread stays finished.
\<close>

fun run_schedule :: "nat list \<Rightarrow> thread list \<Rightarrow> state \<Rightarrow> thread list \<times> state" where
  "run_schedule [] ts s = (ts, s)"
| "run_schedule (i # is) ts s =
     (if i < length ts
      then (let (t', s') = thread_step (ts ! i) s in run_schedule is (ts[i := t']) s')
      else run_schedule is ts s)"

text \<open>
  The argument about interleavings: \<open>user_has i P s\<close> says the user with id \<open>i\<close> exists
  and satisfies \<open>P\<close>; \<open>act_ok\<close> and \<open>res_ok\<close> say what each phase of an activation
  with token \<open>ta\<close> and of a reset with token \<open>tr\<close> of that user may assume of the
  shared state; the ranks count the phases left. \<open>pair_inv\<close> is their conjunction with
  the uniqueness of ids, kept by every phase of either request.
\<close>


definition user_has :: "oid \<Rightarrow> (user \<Rightarrow> bool) \<Rightarrow> state \<Rightarrow> bool" where
  "user_has i P s = (case find_user i (users s) of None \<Rightarrow> False | Some v \<Rightarrow> P v)"

fun act_ok :: "oid \<Rightarrow> string \<Rightarrow> token \<Rightarrow> act_pc \<Rightarrow> state \<Rightarrow> bool" where
  "act_ok i a ta (ActFind a') s = (a' = a \<and> findToken a Activation (tokens s) = Some ta)"
| "act_ok i a ta (ActLoad t) s = (t = ta)"
| "act_ok i a ta (ActSave t v) s = (t = ta \<and> user_id v = i \<and> status v = Active)"
| "act_ok i a ta (ActDelete t v) s = (t = ta \<and> user_id v = i \<and> user_has i (\<lambda>w. status w = Active) s)"
| "act_ok i a ta (ActDone r) s = ((\<exists>x. r = Inr x) \<and> user_has i (\<lambda>w. status w = Active) s)"

fun res_ok :: "oid \<Rightarrow> string \<Rightarrow> string \<Rightarrow> token \<Rightarrow> reset_pc \<Rightarrow> state \<Rightarrow> bool" where
  "res_ok i r pw tr (ResFind r' pw') s = (r' = r \<and> pw' = pw \<and> findToken r Reset (tokens s) = Some tr)"
| "res_ok i r pw tr (ResLoad pw' t) s = (pw' = pw \<and> t = tr)"
| "res_ok i r pw tr (ResSave t v) s = (t = tr \<and> user_id v = i \<and> password v = Hashed pw)"
| "res_ok i r pw tr (ResDelete t) s = (t = tr \<and> user_has i (\<lambda>w. password w = Hashed pw) s)"
| "res_ok i r pw tr (ResDone x) s =
     (x = Inr ''Password reset successful'' \<and> user_has i (\<lambda>w. password w = Hashed pw) s)"

fun act_rank :: "act_pc \<Rightarrow> nat" where
  "act_rank (ActFind _) = 4" | "act_rank (ActLoad _) = 3" | "act_rank (ActSave _ _) = 2"
| "act_rank (ActDelete _ _) = 1" | "act_rank (ActDone _) = 0"

fun res_rank :: "reset_pc \<Rightarrow> nat" where
  "res_rank (ResFind _ _) = 4" | "res_rank (ResLoad _ _) = 3" | "res_rank (ResSave _ _) = 2"
| "res_rank (ResDelete _) = 1" | "res_rank (ResDone _) = 0"

definition pair_inv ::
  "user \<Rightarrow> string \<Rightarrow> token \<Rightarrow> string \<Rightarrow> string \<Rightarrow> token \<Rightarrow> act_pc \<Rightarrow> reset_pc \<Rightarrow> state \<Rightarrow> bool" where
  "pair_inv u a ta r pw tr pa pr s \<longleftrightarrow>
     distinct (map user_id (users s)) \<and> distinct (map token_id (tokens s)) \<and>
     token_id ta \<noteq> token_id tr \<and> token_userId ta = user_id u \<and> token_userId tr = user_id u \<and>
     user_has (user_id u) (\<lambda>w. w\<lparr>status := Active, password := Hashed pw\<rparr> =
                               u\<lparr>status := Active, password := Hashed pw\<rparr>) s \<and>
     act_ok (user_id u) a ta pa s \<and> res_ok (user_id u) r pw tr pr s"

text \<open>
  Two activations of the same account with different tokens: each thread's phases may
  assume what \<open>act_ok\<close> says of its own token, and the account keeps every field but its
  status.
\<close>

definition act2_inv ::
  "user \<Rightarrow> string \<Rightarrow> token \<Rightarrow> string \<Rightarrow> token \<Rightarrow> act_pc \<Rightarrow> act_pc \<Rightarrow> state \<Rightarrow> bool" where
  "act2_inv u a ta b tb pa pb s \<longleftrightarrow>
     distinct (map user_id (users s)) \<and> distinct (map token_id (tokens s)) \<and>
     token_id ta \<noteq> token_id tb \<and> token_userId ta = user_id u \<and> token_userId tb = user_id u \<and>
     user_has (user_id u) (\<lambda>w. w\<lparr>status := Active\<rparr> = u\<lparr>status := Active\<rparr>) s \<and>
     act_ok (user_id u) a ta pa s \<and> act_ok (user_id u) b tb pb s"

subsection \<open>Lemmas\<close>

lemma find_user_unique:
  assumes "distinct (map user_id us)" and "find_user i us = Some u"
  shows "v \<in> set us \<Longrightarrow> user_id v = i \<Longrightarrow> v = u"
  using assms distinct_key_eq [OF assms(1), of v u] by (simp add: find_user_Some)

lemma set_user_status_save:
  assumes "distinct (map user_id us)" and "find_user i us = Some u"
  shows "set_user_status i st us = save user_id (u\<lparr>status := st\<rparr>) us"
  using assms find_user_Some [OF assms(2)] find_user_unique [OF assms]
  by (auto simp: set_user_status_def save_def)

lemma set_user_password_save:
  assumes "distinct (map user_id us)" and "find_user i us = Some u"
  shows "set_user_password i c us = save user_id (u\<lparr>password := c\<rparr>) us"
  using assms find_user_Some [OF assms(2)] find_user_unique [OF assms]
  by (auto simp: set_user_password_def save_def)

lemma findToken_consume_other:
  "distinct (map token_id (tokens s)) \<Longrightarrow> findToken v ty (tokens s) = Some t \<Longrightarrow> token_id t \<noteq> j \<Longrightarrow>
     findToken v ty (tokens (consumeToken j s)) = Some t"
  by (simp add: consumeToken_def deleteOne_distinct findToken_def find_filter_keep)

lemma find_user_set_password:
  "find_user j (set_user_password i c us) =
     map_option (\<lambda>v. if user_id v = i then v\<lparr>password := c\<rparr> else v) (find_user j us)"
  by (induction us) (auto simp: find_user_def set_user_password_def)

lemma find_user_set_status:
  "find_user j (set_user_status i st us) =
     map_option (\<lambda>v. if user_id v = i then v\<lparr>status := st\<rparr> else v) (find_user j us)"
  by (induction us) (auto simp: find_user_def set_user_status_def)

lemma map_user_id_set_status [simp]: "map user_id (set_user_status i st us) = map user_id us"
  by (induction us) (auto simp: set_user_status_def)

lemma map_user_id_set_password [simp]: "map user_id (set_user_password i c us) = map user_id us"
  by (induction us) (auto simp: set_user_password_def)

lemma user_has_consume [simp]: "user_has i P (consumeToken j s) = user_has i P s"
  by (simp add: user_has_def consumeToken_def)

lemma res_ok_set_status:
  "res_ok i r pw tr pr s \<Longrightarrow> res_ok i r pw tr pr (s\<lparr>users := set_user_status j st (users s)\<rparr>)"
  by (cases pr) (auto simp: user_has_def find_user_set_status split: option.splits)

lemma act_ok_set_password:
  "act_ok i a ta pa s \<Longrightarrow> act_ok i a ta pa (s\<lparr>users := set_user_password j c (users s)\<rparr>)"
  by (cases pa) (auto simp: user_has_def find_user_set_password split: option.splits)

lemma res_ok_consume:
  "distinct (map token_id (tokens s)) \<Longrightarrow> token_id tr \<noteq> j \<Longrightarrow> res_ok i r pw tr pr s \<Longrightarrow>
     res_ok i r pw tr pr (consumeToken j s)"
  by (cases pr) (auto simp: findToken_consume_other)

lemma act_ok_consume:
  "distinct (map token_id (tokens s)) \<Longrightarrow> token_id ta \<noteq> j \<Longrightarrow> act_ok i a ta pa s \<Longrightarrow>
     act_ok i a ta pa (consumeToken j s)"
  by (cases pa) (auto simp: findToken_consume_other)

lemma users_consumeToken [simp]: "users (consumeToken j s) = users s"
  by (simp add: consumeToken_def)

lemma distinct_consumeToken:
  "distinct (map token_id (tokens s)) \<Longrightarrow> distinct (map token_id (tokens (consumeToken j s)))"
  by (simp add: consumeToken_def map_deleteOne_distinct)

lemma act_phase_pair_inv:
  assumes inv: "pair_inv u a ta r pw tr pa pr s" and st: "act_phase n pa s = (pa', s')"
  shows "pair_inv u a ta r pw tr pa' pr s' \<and> act_rank pa' = act_rank pa - 1"
proof (cases pa)
  case (ActFind x)
  with inv st show ?thesis by (auto simp: pair_inv_def)
next
  case (ActLoad t)
  with inv obtain w where w: "find_user (user_id u) (users s) = Some w"
    by (auto simp: pair_inv_def user_has_def split: option.splits)
  with ActLoad inv st show ?thesis by (auto simp: pair_inv_def dest: find_user_Some)
next
  case (ActSave t v)
  with inv obtain w where w: "find_user (user_id u) (users s) = Some w"
    by (auto simp: pair_inv_def user_has_def split: option.splits)
  with ActSave inv st show ?thesis
    by (auto simp: pair_inv_def user_has_def find_user_set_status dest: find_user_Some
             intro: res_ok_set_status)
next
  case (ActDelete t v)
  with inv st show ?thesis
    by (auto simp: pair_inv_def intro: res_ok_consume distinct_consumeToken)
next
  case (ActDone x)
  with inv st show ?thesis by auto
qed

lemma reset_phase_pair_inv:
  assumes inv: "pair_inv u a ta r pw tr pa pr s" and st: "reset_phase pr s = (pr', s')"
  shows "pair_inv u a ta r pw tr pa pr' s' \<and> res_rank pr' = res_rank pr - 1"
proof (cases pr)
  case (ResFind x y)
  with inv st show ?thesis by (auto simp: pair_inv_def)
next
  case (ResLoad x t)
  with inv obtain w where w: "find_user (user_id u) (users s) = Some w"
    by (auto simp: pair_inv_def user_has_def split: option.splits)
  with ResLoad inv st show ?thesis by (auto simp: pair_inv_def dest: find_user_Some)
next
  case (ResSave t v)
  with inv obtain w where w: "find_user (user_id u) (users s) = Some w"
    by (auto simp: pair_inv_def user_has_def split: option.splits)
  with ResSave inv st show ?thesis
    by (auto simp: pair_inv_def user_has_def find_user_set_password dest: find_user_Some
             intro: act_ok_set_password)
next
  case (ResDelete t)
  with inv st show ?thesis
    by (auto simp: pair_inv_def intro: act_ok_consume distinct_consumeToken)
next
  case (ResDone x)
  with inv st show ?thesis by auto
qed

lemma run_schedule_pair:
  assumes "pair_inv u a ta r pw tr pa pr s"
  shows "\<exists>pa' pr' s'. run_schedule sch [ActThread n pa, ResThread pr] s =
            ([ActThread n pa', ResThread pr'], s') \<and> pair_inv u a ta r pw tr pa' pr' s' \<and>
            act_rank pa' = act_rank pa - count_list sch 0 \<and>
            res_rank pr' = res_rank pr - count_list sch 1"
  using assms
proof (induction sch arbitrary: pa pr s)
  case Nil
  then show ?case by simp
next
  case (Cons i sch)
  consider "i = 0" | "i = 1" | "1 < i" by linarith
  then show ?case
  proof cases
    case 1
    obtain pa1 s1 where st: "act_phase n pa s = (pa1, s1)" by fastforce
    from act_phase_pair_inv [OF Cons.prems st] Cons.IH [of pa1 pr s1] st 1 show ?thesis
      by auto
  next
    case 2
    obtain pr1 s1 where st: "reset_phase pr s = (pr1, s1)" by fastforce
    from reset_phase_pair_inv [OF Cons.prems st] Cons.IH [of pa pr1 s1] st 2 show ?thesis
      by auto
  next
    case 3
    with Cons show ?thesis by simp
  qed
qed

lemma pair_inv_start:
  assumes "distinct (map user_id (users s))" and "distinct (map token_id (tokens s))"
    and "find_user (user_id u) (users s) = Some u"
    and "findToken a Activation (tokens s) = Some ta" and "token_userId ta = user_id u"
    and "findToken r Reset (tokens s) = Some tr" and "token_userId tr = user_id u"
  shows "pair_inv u a ta r pw tr (ActFind a) (ResFind r pw) s"
proof -
  from findToken_Some [OF assms(4)] findToken_Some [OF assms(6)]
  have "ta \<in> set (tokens s)" "tr \<in> set (tokens s)" "ta \<noteq> tr" by auto
  with assms(2) have "token_id ta \<noteq> token_id tr" by (auto dest: distinct_key_eq)
  with assms show ?thesis by (simp add: pair_inv_def user_has_def)
qed

lemma pair_inv_finished:
  assumes "pair_inv u a ta r pw tr pa pr s" and "act_rank pa = 0" and "res_rank pr = 0"
  shows "\<exists>x. pa = ActDone (Inr x) \<and> pr = ResDone (Inr ''Password reset successful'') \<and>
           find_user (user_id u) (users s) = Some (u\<lparr>status := Active, password := Hashed pw\<rparr>)"
proof -
  from assms(2) obtain y where pa: "pa = ActDone y" by (cases pa) auto
  from assms(3) obtain z where pr: "pr = ResDone z" by (cases pr) auto
  from assms(1) pa pr obtain w x where "find_user (user_id u) (users s) = Some w" and "y = Inr x"
    and "z = Inr ''Password reset successful''" and "status w = Active" and "password w = Hashed pw"
    and "w\<lparr>status := Active, password := Hashed pw\<rparr> = u\<lparr>status := Active, password := Hashed pw\<rparr>"
    by (auto simp: pair_inv_def user_has_def split: option.splits)
  then show ?thesis using pa pr by (metis user.surjective user.update_convs(5,6))
qed

lemma act2_inv_swap: "act2_inv u a ta b tb pa pb s = act2_inv u b tb a ta pb pa s"
  by (auto simp: act2_inv_def)

lemma act_ok_set_active:
  "act_ok i a ta pa s \<Longrightarrow> act_ok i a ta pa (s\<lparr>users := set_user_status i Active (users s)\<rparr>)"
  by (cases pa) (auto simp: user_has_def find_user_set_status split: option.splits)

lemma act_phase_act2_inv:
  assumes inv: "act2_inv u a ta b tb pa pb s" and st: "act_phase n pa s = (pa', s')"
  shows "act2_inv u a ta b tb pa' pb s' \<and> act_rank pa' = act_rank pa - 1"
proof (cases pa)
  case (ActFind x)
  with inv st show ?thesis by (auto simp: act2_inv_def)
next
  case (ActLoad t)
  with inv obtain w where w: "find_user (user_id u) (users s) = Some w"
    by (auto simp: act2_inv_def user_has_def split: option.splits)
  with ActLoad inv st show ?thesis by (auto simp: act2_inv_def dest: find_user_Some)
next
  case (ActSave t v)
  with inv have v: "t = ta" "user_id v = user_id u" "status v = Active"
    by (simp_all add: act2_inv_def)
  with ActSave st have pa': "pa' = ActDelete ta v"
    and s': "s' = s\<lparr>users := set_user_status (user_id u) Active (users s)\<rparr>" by simp_all
  from inv have "act_ok (user_id u) b tb pb s'" unfolding s' act2_inv_def by (blast intro: act_ok_set_active)
  moreover from inv have "user_has (user_id u) (\<lambda>w. w\<lparr>status := Active\<rparr> = u\<lparr>status := Active\<rparr>) s'"
    by (auto simp: s' act2_inv_def user_has_def find_user_set_status split: option.splits dest: find_user_Some)
  moreover from inv have "user_has (user_id u) (\<lambda>w. status w = Active) s'"
    by (auto simp: s' act2_inv_def user_has_def find_user_set_status split: option.splits dest: find_user_Some)
  ultimately show ?thesis using inv v ActSave unfolding pa' by (simp add: act2_inv_def s')
next
  case (ActDelete t v)
  with inv st show ?thesis
    by (auto simp: act2_inv_def intro: act_ok_consume distinct_consumeToken)
next
  case (ActDone x)
  with inv st show ?thesis by auto
qed

lemma run_schedule_act2:
  assumes "act2_inv u a ta b tb pa pb s"
  shows "\<exists>pa' pb' s'. run_schedule sch [ActThread na pa, ActThread nb pb] s =
            ([ActThread na pa', ActThread nb pb'], s') \<and> act2_inv u a ta b tb pa' pb' s' \<and>
            act_rank pa' = act_rank pa - count_list sch 0 \<and>
            act_rank pb' = act_rank pb - count_list sch 1"
  using assms
proof (induction sch arbitrary: pa pb s)
  case Nil
  then show ?case by simp
next
  case (Cons i sch)
  consider "i = 0" | "i = 1" | "1 < i" by linarith
  then show ?case
  proof cases
    case 1
    obtain pa1 s1 where st: "act_phase na pa s = (pa1, s1)" by fastforce
    from act_phase_act2_inv [OF Cons.prems st] Cons.IH [of pa1 pb s1] st 1 show ?thesis
      by auto
  next
    case 2
    obtain pb1 s1 where st: "act_phase nb pb s = (pb1, s1)" by fastforce
    from Cons.prems have "act2_inv u b tb a ta pb pa s" by (rule act2_inv_swap [THEN iffD1])
    from act_phase_act2_inv [OF this st]
    have "act2_inv u a ta b tb pa pb1 s1 \<and> act_rank pb1 = act_rank pb - 1"
      using act2_inv_swap [of u b tb a ta pb1 pa s1] by blast
    with Cons.IH [of pa pb1 s1] st 2 show ?thesis by auto
  next
    case 3
    with Cons show ?thesis by simp
  qed
qed

lemma act2_inv_start:
  assumes "distinct (map user_id (users s))" and "distinct (map token_id (tokens s))"
    and "find_user (user_id u) (users s) = Some u"
    and "findToken a Activation (tokens s) = Some ta" and "token_userId ta = user_id u"
    and "findToken b Activation (tokens s) = Some tb" and "token_userId tb = user_id u"
    and "a \<noteq> b"
  shows "act2_inv u a ta b tb (ActFind a) (ActFind b) s"
proof -
  from findToken_Some [OF assms(4)] findToken_Some [OF assms(6)] assms(8)
  have "ta \<in> set (tokens s)" "tb \<in> set (tokens s)" "ta \<noteq> tb" by auto
  with assms(2) have "token_id ta \<noteq> token_id tb" by (auto dest: distinct_key_eq)
  with assms show ?thesis by (simp add: act2_inv_def user_has_def)
qed

lemma act2_inv_finished:
  assumes "act2_inv u a ta b tb pa pb s" and "act_rank pa = 0" and "act_rank pb = 0"
  shows "\<exists>x y. pa = ActDone (Inr x) \<and> pb = ActDone (Inr y) \<and>
           find_user (user_id u) (users s) = Some (u\<lparr>status := Active\<rparr>)"
proof -
  from assms(2) obtain r1 where pa: "pa = ActDone r1" by (cases pa) auto
  from assms(3) obtain r2 where pb: "pb = ActDone r2" by (cases pb) auto
  from assms(1) pa pb obtain w x y where w: "find_user (user_id u) (users s) = Some w" and "r1 = Inr x"
    and "r2 = Inr y" and act: "status w = Active" and eq: "w\<lparr>status := Active\<rparr> = u\<lparr>status := Active\<rparr>"
    by (auto simp: act2_inv_def user_has_def split: option.splits)
  from act have "w\<lparr>status := Active\<rparr> = w" by simp
  with eq w have "find_user (user_id u) (users s) = Some (u\<lparr>status := Active\<rparr>)" by simp
  then show ?thesis using pa pb \<open>r1 = Inr x\<close> \<open>r2 = Inr y\<close> by blast
qed

text \<open>
  (C9) The lookup and the deletion of the activation token are separate awaits: when two
  activation requests with the same secret both pass the lookup before either deletes the
  token, both succeed and both log the user in. The specification (section 5) requires
  exactly one success and one \<open>InvalidToken\<close>.
\<close>

theorem activation_race_both_succeed:
  assumes "findToken secret Activation (tokens s) = Some t"
    and "find_user (token_userId t) (users s) = Some u"
  shows "fst (run_schedule [0, 1, 0, 1, 0, 1, 0, 1]
                [ActThread n1 (ActFind secret), ActThread n2 (ActFind secret)] s) =
           [ActThread n1 (ActDone (Inr (generateToken (user_id u) n1, u\<lparr>status := Active\<rparr>))),
            ActThread n2 (ActDone (Inr (generateToken (user_id u) n2, u\<lparr>status := Active\<rparr>)))]"
  using assms by simp

text \<open>
  (C30) Two password resets racing with the same secret both answer success, and the
  password in force afterwards is that of the request that saved last: the other client is
  told its new password was set although it was overwritten.
\<close>

theorem reset_race_last_writer:
  assumes "findToken secret Reset (tokens s) = Some t"
    and "find_user (token_userId t) (users s) = Some u"
  shows "\<exists>s'. run_schedule [0, 1, 0, 1, 0, 1, 0, 1]
                [ResThread (ResFind secret p1), ResThread (ResFind secret p2)] s =
              ([ResThread (ResDone (Inr ''Password reset successful'')),
                ResThread (ResDone (Inr ''Password reset successful''))], s') \<and>
              find_user (user_id u) (users s') = Some (u\<lparr>password := Hashed p2\<rparr>)"
proof -
  from assms(2) have "user_id u = token_userId t" by (simp add: find_user_Some)
  with assms show ?thesis
    by (simp add: consumeToken_def find_user_set_password)
qed

text \<open>
  (C10) An activation and a password reset of the same account, interleaved in any order,
  both succeed once each has had its four turns, and neither update is lost: the account
  ends active with the new password and otherwise unchanged, because each \<open>save\<close>
  writes only the path it modified.
\<close>

theorem activation_reset_interleave:
  assumes "distinct (map user_id (users s))" and "distinct (map token_id (tokens s))"
    and "find_user (user_id u) (users s) = Some u"
    and "findToken a Activation (tokens s) = Some ta" and "token_userId ta = user_id u"
    and "findToken r Reset (tokens s) = Some tr" and "token_userId tr = user_id u"
    and "4 \<le> count_list sch 0" and "4 \<le> count_list sch 1"
  shows "\<exists>x s'. run_schedule sch [ActThread n (ActFind a), ResThread (ResFind r pw)] s =
            ([ActThread n (ActDone (Inr x)), ResThread (ResDone (Inr ''Password reset successful''))], s') \<and>
            find_user (user_id u) (users s') = Some (u\<lparr>status := Active, password := Hashed pw\<rparr>)"
proof -
  from pair_inv_start [OF assms(1-7)] have "pair_inv u a ta r pw tr (ActFind a) (ResFind r pw) s" .
  from run_schedule_pair [OF this, of sch n] obtain pa' pr' s' where
    run: "run_schedule sch [ActThread n (ActFind a), ResThread (ResFind r pw)] s =
            ([ActThread n pa', ResThread pr'], s')"
    and inv: "pair_inv u a ta r pw tr pa' pr' s'"
    and "act_rank pa' = 0" and "res_rank pr' = 0"
    using assms(8,9) by auto
  with pair_inv_finished [OF inv] run show ?thesis by auto
qed

text \<open>
  (C34) The duplicate check and the creation are separate awaits: two registrations with the
  same new e-mail, both looking it up before either creates its user, both succeed and leave
  two users with that e-mail, unless the User schema (not part of the sources) declares a
  unique index on \<open>email\<close>. The specification requires \<open>Conflict\<close> for the second.
\<close>

theorem registration_race_duplicates:
  assumes "find_user_by_email em (users s) = None"
  shows "\<exists>s'. run_schedule [0, 1, 0, 1, 0, 1]
                [RegThread n1 (RegFind (c, f1, l1, em, p1, r1)), RegThread n2 (RegFind (c, f2, l2, em, p2, r2))] s =
              ([RegThread n1 (RegDone (Inr ''Registration successful. Please check your email to activate your account.'')),
                RegThread n2 (RegDone (Inr ''Registration successful. Please check your email to activate your account.''))], s') \<and>
              length (filter (\<lambda>u. email u = em) (users s')) = 2"
proof -
  from assms have "filter (\<lambda>u. email u = em) (users s) = []"
    by (auto simp: find_user_by_email_None filter_empty_conv)
  with assms show ?thesis by (simp add: Let_def createToken_def sendEmail_def)
qed

text \<open>
  (C37) Two activations of one account with two different valid activation tokens, interleaved
  in any order, both succeed once each has had its four turns, and the account ends active
  with its other fields unchanged: the specification (section 5) requires both to be
  allowed, the later status write winning.
\<close>

theorem activation_two_tokens_interleave:
  assumes "distinct (map user_id (users s))" and "distinct (map token_id (tokens s))"
    and "find_user (user_id u) (users s) = Some u"
    and "findToken a Activation (tokens s) = Some ta" and "token_userId ta = user_id u"
    and "findToken b Activation (tokens s) = Some tb" and "token_userId tb = user_id u"
    and "a \<noteq> b" and "4 \<le> count_list sch 0" and "4 \<le> count_list sch 1"
  shows "\<exists>x y s'. run_schedule sch [ActThread na (ActFind a), ActThread nb (ActFind b)] s =
            ([ActThread na (ActDone (Inr x)), ActThread nb (ActDone (Inr y))], s') \<and>
            find_user (user_id u) (users s') = Some (u\<lparr>status := Active\<rparr>)"
proof -
  from run_schedule_act2 [OF act2_inv_start [OF assms(1-8)], of sch na nb] obtain pa' pb' s' where
    run: "run_schedule sch [ActThread na (ActFind a), ActThread nb (ActFind b)] s =
            ([ActThread na pa', ActThread nb pb'], s')"
    and inv: "act2_inv u a ta b tb pa' pb' s'"
    and "act_rank pa' = 0" and "act_rank pb' = 0"
    using assms(9,10) by auto
  with act2_inv_finished [OF inv] run show ?thesis by auto
qed

end
