(* ===== verification/Scripts.thy ===== *)
theory Scripts
  imports Auth
begin

text \<open>
  The maintenance script scripts/manual_activate.js: \<open>checkActivation\<close> looks up a
  hard-coded secret with \<open>Token.findOne({ token })\<close> (no type filter), and either lists
  the e-mails of the inactive users, or reports a token whose user is gone, or activates the
  token's user and deletes the token, as \<open>activateAccount\<close> does. The console output is the
  report value; the connection handling and \<open>process.exit\<close> are not modelled.
\<close>

datatype script_report = InactiveUsers "string list" | TokenUserMissing | ActivatedUser string

text \<open>Lines 26--73.\<close>

definition checkActivation :: "string \<Rightarrow> state \<Rightarrow> script_report \<times> state" where
  "checkActivation target s =
     (case find (\<lambda>t. token_value t = target) (tokens s) of
        None \<Rightarrow> (InactiveUsers (map email (filter (\<lambda>u. status u = Inactive) (users s))), s)
      | Some t \<Rightarrow>
          (case find_user (token_userId t) (users s) of
             None \<Rightarrow> (TokenUserMissing, s)
           | Some u \<Rightarrow>
               (let s1 = s\<lparr>users := save user_id (u\<lparr>status := Active\<rparr>) (users s)\<rparr>
                in (ActivatedUser (email u), consumeToken (token_id t) s1))))"

text \<open>Line 29: the secret the script is run with, and the run of line 75.\<close>

definition manual_target :: string where
  "manual_target = ''2aeb025dfa869be88c98a16f037e79ab452c9303f1fffd9317ac863e83d2bb94''"

definition manual_activate :: "state \<Rightarrow> script_report \<times> state" where
  "manual_activate s = checkActivation manual_target s"

subsection \<open>Lemmas\<close>

lemma find_value_unique:
  assumes "tokens_inv s" and "t \<in> set (tokens s)"
  shows "find (\<lambda>t'. token_value t' = token_value t) (tokens s) = Some t"
  using assms by (simp add: tokens_inv_def find_unique_key)

lemma findToken_other_type:
  assumes "tokens_inv s" and "findToken secret ty (tokens s) = Some t" and "ty' \<noteq> ty"
  shows "findToken secret ty' (tokens s) = None"
proof -
  from assms(2) have t: "t \<in> set (tokens s)" "token_value t = secret" "token_type t = ty"
    by (simp_all add: findToken_Some)
  from assms(1) have "distinct (map token_value (tokens s))" by (simp add: tokens_inv_def)
  with t assms(3) show ?thesis by (auto simp: findToken_None dest: distinct_key_eq)
qed

subsection \<open>Properties\<close>

text \<open>
  (C31) On an activation token, the script changes the database exactly as the
  activation endpoint does.
\<close>

theorem checkActivation_as_activateAccount:
  assumes "find (\<lambda>t. token_value t = secret) (tokens s) = Some t" and "token_type t = Activation"
  shows "snd (checkActivation secret s) = snd (activateAccount secret now s)"
proof -
  from assms have "findToken secret Activation (tokens s) = Some t"
    unfolding findToken_def by (rule find_Some_conj)
  with assms(1) show ?thesis
    by (simp add: checkActivation_def activateAccount_def Let_def split: option.splits)
qed

text \<open>
  (C32) The script ignores the token type: given the secret of a password-reset token, it
  activates that token's user and deletes the reset token, where the activation endpoint
  answers 400 \<open>Invalid or expired token\<close> and changes nothing.
\<close>

theorem checkActivation_accepts_reset_token:
  assumes inv: "tokens_inv s" "users_inv s"
    and t: "findToken secret Reset (tokens s) = Some t"
    and u: "find_user (token_userId t) (users s) = Some u"
  shows "\<exists>s'. checkActivation secret s = (ActivatedUser (email u), s') \<and>
              find_user (user_id u) (users s') = Some (u\<lparr>status := Active\<rparr>) \<and>
              findToken secret Reset (tokens s') = None \<and>
              activateAccount secret now s = (Inl (Status 400 ''Invalid or expired token''), s)"
proof -
  from t have tv: "t \<in> set (tokens s)" "token_value t = secret" by (simp_all add: findToken_Some)
  with find_value_unique [OF inv(1) tv(1)]
  have f: "find (\<lambda>t'. token_value t' = secret) (tokens s) = Some t" by simp
  from u have us: "u \<in> set (users s)" "user_id u = token_userId t" by (simp_all add: find_user_Some)
  from inv(2) have "coll_wf user_id (next_oid s) (users s)" by (simp add: users_inv_def)
  from find_save_same [OF this us(1), of "u\<lparr>status := Active\<rparr>"]
  have "find_user (user_id u) (save user_id (u\<lparr>status := Active\<rparr>) (users s)) = Some (u\<lparr>status := Active\<rparr>)"
    by (simp add: find_user_def)
  moreover have "findToken secret Reset (tokens (consumeToken (token_id t)
                   (s\<lparr>users := save user_id (u\<lparr>status := Active\<rparr>) (users s)\<rparr>))) = None"
    using findToken_after_consume [of "s\<lparr>users := save user_id (u\<lparr>status := Active\<rparr>) (users s)\<rparr>"] inv(1) t
    by (simp add: tokens_inv_def consumeToken_def)
  moreover have "findToken secret Activation (tokens s) = None"
    using findToken_other_type [OF inv(1) t] by simp
  ultimately show ?thesis using f u by (simp add: checkActivation_def activateAccount_def consumeToken_def)
qed

end
