(* ===== verification/TestEmail.thy ===== *)
theory TestEmail
  imports Prelude "HOL-Library.Sublist"
begin

text \<open>
  The maintenance script scripts/test_email.js: it reports the mail configuration read
  from the environment, asks the SMTP transport to verify its connection, sends one test
  message to the configured account, and reports the outcome, with advice when the
  failure is an authentication error (\<open>EAUTH\<close>). The transport is an external
  capability: the outcomes of \<open>transporter.verify()\<close> and \<open>transporter.sendMail()\<close> are
  arguments, as the S3 outcome is in the file handlers. The console output is a list of
  report lines; the fixed texts are the constructors, the values the script prints are
  their arguments.
\<close>

record mail_env =
  EMAIL_USER :: "string option"
  EMAIL_PASS :: "string option"

text \<open>An error thrown by the transport: its \<open>code\<close> and \<open>message\<close>.\<close>

record smtp_error =
  smtp_code :: "string option"
  smtp_message :: string

text \<open>The message of lines 32--41; the HTML body carries the timestamp.\<close>

record test_mail =
  tm_from :: string
  tm_to :: "string option"
  tm_subject :: string
  tm_timestamp :: string

datatype report_line =
    Testing
  | ShowUser "string option"
  | ShowPass string
  | Blank
  | Verifying
  | Verified
  | Sending
  | SentOk
  | ShowMessageId string
  | AllGood
  | TestFailed
  | ShowError string
  | AuthHelp

text \<open>A template literal \<open>${v}\<close> of an optional value: \<open>undefined\<close> prints as such.\<close>

fun js_template :: "string option \<Rightarrow> string" where
  "js_template None = ''undefined''"
| "js_template (Some v) = v"

text \<open>\<open>s.slice(-n)\<close>: the last \<open>n\<close> characters, or all of \<open>s\<close> when it is shorter.\<close>

definition js_slice_last :: "nat \<Rightarrow> string \<Rightarrow> string" where
  "js_slice_last n s = drop (length s - n) s"

text \<open>Line 9: \<open>EMAIL_PASS ? '***' + EMAIL_PASS.slice(-4) : 'NOT SET'\<close>.\<close>

definition mask_pass :: "string option \<Rightarrow> string" where
  "mask_pass p = js_or p ''NOT SET'' (\<lambda>v. ''***'' @ js_slice_last 4 v)"

text \<open>Lines 46--60: the \<open>catch\<close> branch.\<close>

definition failure_report :: "smtp_error \<Rightarrow> report_line list" where
  "failure_report e =
     [TestFailed, ShowError (smtp_message e)] @ (if smtp_code e = Some ''EAUTH'' then [AuthHelp] else [])"

definition test_message :: "mail_env \<Rightarrow> string \<Rightarrow> test_mail" where
  "test_message env now =
     \<lparr>tm_from = ''\"Cloud Canvas Test\" <'' @ js_template (EMAIL_USER env) @ ''>'',
      tm_to = EMAIL_USER env, tm_subject = ''Test Email - Cloud Canvas'', tm_timestamp = now\<rparr>"

text \<open>
  Lines 6--62: the report and the messages handed to the transport. \<open>verify\<close> and
  \<open>send\<close> are the outcomes of the two awaited transport calls; \<open>now\<close> is
  \<open>new Date().toISOString()\<close>.
\<close>

definition testEmail ::
  "mail_env \<Rightarrow> smtp_error + unit \<Rightarrow> smtp_error + string \<Rightarrow> string \<Rightarrow> report_line list \<times> test_mail list" where
  "testEmail env verify send now =
     (let pre = [Testing, ShowUser (EMAIL_USER env), ShowPass (mask_pass (EMAIL_PASS env)), Blank, Verifying]
      in case verify of
           Inl e \<Rightarrow> (pre @ failure_report e, [])
         | Inr _ \<Rightarrow>
             (let msg = test_message env now
              in case send of
                   Inl e \<Rightarrow> (pre @ [Verified, Sending] @ failure_report e, [msg])
                 | Inr mid \<Rightarrow> (pre @ [Verified, Sending, SentOk, ShowMessageId mid, AllGood], [msg])))"

subsection \<open>Lemmas\<close>

lemma js_slice_last_suffix: "suffix (js_slice_last n s) s"
  by (simp add: js_slice_last_def suffix_drop)

lemma js_slice_last_length: "length (js_slice_last n s) = min n (length s)"
  by (simp add: js_slice_last_def)

lemma suffix_same_length: "suffix q p \<Longrightarrow> length q = length p \<Longrightarrow> q = p"
  by (auto simp: suffix_def)

lemma testEmail_prefix:
  "take 5 (fst (testEmail env verify send now)) =
     [Testing, ShowUser (EMAIL_USER env), ShowPass (mask_pass (EMAIL_PASS env)), Blank, Verifying]"
  by (simp add: testEmail_def Let_def split: sum.split)

lemma testEmail_auth_help:
  "AuthHelp \<in> set (fst (testEmail env verify send now)) \<longleftrightarrow>
     (case verify of
        Inl e \<Rightarrow> smtp_code e = Some ''EAUTH''
      | Inr _ \<Rightarrow> (case send of Inl e \<Rightarrow> smtp_code e = Some ''EAUTH'' | Inr _ \<Rightarrow> False))"
  by (auto simp: testEmail_def Let_def failure_report_def split: sum.splits)

subsection \<open>Properties\<close>

text \<open>
  (C21) Whatever the SMTP outcome, the report of test_email.js prints a configured
  password as \<open>***\<close> followed by its last \<open>min 4 n\<close> characters, where \<open>n\<close> is its
  length: four characters of the Gmail app password reach the console, and a password of
  at most four characters is printed whole.
\<close>

theorem testEmail_password_suffix_shown:
  assumes "EMAIL_PASS env = Some p" and "p \<noteq> []"
  shows "\<exists>q. ShowPass (''***'' @ q) \<in> set (fst (testEmail env verify send now)) \<and>
             suffix q p \<and> length q = min 4 (length p)"
proof -
  have "ShowPass (mask_pass (EMAIL_PASS env)) \<in> set (take 5 (fst (testEmail env verify send now)))"
    by (simp only: testEmail_prefix) simp
  then have "ShowPass (''***'' @ js_slice_last 4 p) \<in> set (fst (testEmail env verify send now))"
    using assms by (auto simp: mask_pass_def dest: in_set_takeD)
  then show ?thesis using js_slice_last_suffix js_slice_last_length by blast
qed

end
