(* ===== verification/Spec2Isabelle.thy ===== *)
theory Spec2Isabelle
  imports Isolation Interleaving Scripts TestEmail
begin

text \<open>
  \<^bold>\<open>A verification model of the google-drive-backend service.\<close>

  The program is an Express server (src/server.js, src/routes/*.js) over MongoDB
  collections (src/models/*.js) with three controllers: folders
  (src/controllers/folderController.js), files (src/controllers/fileController.js, which
  also drives an S3 bucket) and accounts (src/controllers/authController.js, which issues
  single-use activation and reset tokens and hands mail to nodemailer). All handlers
  share the persisted collections; each request is handled on its own.

  \<^bold>\<open>Library layout.\<close>
  \<^item> \<open>Prelude\<close>: the model's type names (ObjectIds as numbers, timestamps in
    milliseconds), the error values standing for the handlers' responses
    (\<open>Status code message\<close> for an explicit \<open>res.status(code)\<close>, \<open>Exception e\<close> for
    the 500 of a \<open>catch\<close> branch), JavaScript truthiness and \<open>||\<close>, shared list lemmas.
  \<^item> \<open>Hex\<close>: ObjectId strings (24 hex digits) and the cast Mongoose applies to request
    strings; the hex encoding of random bytes (\<open>8 word list\<close>) used for token secrets;
    parsing a printed id gives it back (\<open>parse_show_oid_mod\<close>), which the materialized
    paths rely on.
  \<^item> \<open>Models\<close>: the documents (Token, Folder, File, and User, whose model file is not
    part of the sources) as records, the whole persisted \<open>state\<close> (collections as lists in
    natural order, the id counter, the S3 bucket with the log of commands sent to it, the
    mail outbox), and the Mongoose operations the controllers call (\<open>findById\<close> with
    its cast, \<open>deleteOne\<close>, \<open>save\<close>) with their lemmas; \<open>coll_wf\<close> is the
    well-formedness of a collection (distinct ids drawn from the counter).
  \<^item> \<open>Folders\<close>: folderController.js, handler by handler (\<open>createFolder\<close>,
    \<open>getFolders\<close>, \<open>deleteFolder\<close>, \<open>renameFolder\<close>), the hierarchy invariant
    \<open>folders_inv\<close> and its preservation by every handler, the ancestor chain
    (\<open>ancestors\<close>, with fuel) and the handler theorems (C4, C5, C23--C25), the
    absence of a cascade on delete (C26), and a rename that touches only the name (C33).
  \<^item> \<open>Files\<close>: fileController.js (\<open>uploadFileSuccess\<close>, \<open>getFiles\<close>,
    \<open>deleteFile\<close>, \<open>getDownloadUrl\<close>, \<open>downloadFile\<close>, \<open>renameFile\<close>) over the
    BlobStore interface \<open>s3_delete\<close>/\<open>s3_get\<close>/\<open>getSignedUrl\<close>; whether S3 accepts a
    command is the argument \<open>s3_ok\<close>. Invariant \<open>files_inv\<close>: distinct ids and keys, every
    file's object in the bucket (C7, C8, C22, C28, C29, C36).
  \<^item> \<open>Tokens\<close>: Token.js with its TTL index (\<open>ttl_reap now\<close> is one pass of MongoDB's
    monitor removing documents older than 24 hours) and the token operations of the
    controller (\<open>findToken\<close>, \<open>createToken\<close>, \<open>consumeToken\<close>).
  \<^item> \<open>Auth\<close>: authController.js (\<open>registerUser\<close>, \<open>activateAccount\<close>, \<open>authUser\<close>,
    \<open>getUserProfile\<close>, \<open>forgotPassword\<close>, \<open>resetPassword\<close>, the helpers
    \<open>generateToken\<close> and \<open>sendEmail\<close>), and the console output of the two mailing
    handlers as a function of the transport's outcome (\<open>mail_console\<close>); \<open>users_inv\<close>
    (distinct ids and e-mails, every token owned by a user); single use of tokens, the
    token age never checked, the login answers (C6, C15--C20), the reset mail carrying
    the working secret (C35), and that secret printed to the server log when the mail fails
    (C38).
  \<^item> \<open>Server\<close>: server.js and routes/*.js: one request datatype per router, the
    dispatchers \<open>auth_routes\<close>, \<open>folder_routes\<close>, \<open>file_routes\<close> (the upload route runs
    the multer-s3 \<open>PutObject\<close> first) and \<open>handle\<close>; the step relation \<open>step\<close> (any
    request at any time, or a TTL pass, each request served in one step) and
    \<open>reachable\<close> from the empty database. The global invariant \<open>sys_inv\<close> holds in every
    reachable state (rule induction); C1 states the part of it that holds whatever the
    order of the awaits and whatever the random inputs, and from it follow the
    materialized-path round trip, the termination of the ancestor walk, and the
    account-activation properties (C11--C14); an upload to a malformed folder id leaves an
    object without metadata (C27).
  \<^item> \<open>Isolation\<close>: the ownership scoping the spec calls AccessControl, across all
    routes: \<open>caller\<close> is the user \<open>protect\<close> attaches to a request; no request changes
    another user's folders, files or objects (\<open>isolated\<close>, C2), and a successful
    response carries only the caller's data (\<open>resp_owned\<close>, C3).
  \<^item> \<open>Interleaving\<close>: \<open>registerUser\<close>, \<open>activateAccount\<close> and \<open>resetPassword\<close>
    split at their \<open>await\<close>s into phases (\<open>reg_phase\<close>, \<open>act_phase\<close>,
    \<open>reset_phase\<close>), threads of such phases, and \<open>run_schedule\<close>, the event loop running
    one phase of the scheduled thread at a time. \<open>user.save()\<close> writes only the modified
    path (\<open>set_user_status\<close>, \<open>set_user_password\<close>). Two requests with one secret can
    both succeed (C9, C30), and so can two registrations with one e-mail (C34), which is
    why C1 does not claim unique e-mails; an activation and a reset of one account commute
    under every schedule (C10, by the invariant \<open>pair_inv\<close> over the two program counters
    and a rank that every turn decreases), and so do two activations with different tokens
    (C37, by \<open>act2_inv\<close>).
  \<^item> \<open>Scripts\<close>: scripts/manual_activate.js (\<open>checkActivation\<close>), which agrees with the
    endpoint on activation tokens (C31) and also accepts reset tokens (C32).
  \<^item> \<open>TestEmail\<close>: scripts/test_email.js (\<open>testEmail\<close>): the report it prints, with the
    outcomes of \<open>transporter.verify()\<close> and \<open>sendMail()\<close> as arguments; its masking of
    \<open>EMAIL_PASS\<close> shows the last four characters, all of a short password (C21).
  \<^item> This theory: concrete states and runs (\<open>demo_state\<close>, \<open>run_s2\<close>, \<open>reg_state\<close>,
    \<open>act_state\<close>, \<open>demo_two_acts\<close>) and one witness per claim, each applying the claim at
    a concrete input and discharging its hypotheses by evaluation.

  \<^bold>\<open>Not modelled.\<close> The JWT signature and the \<open>protect\<close> middleware (the caller's
  id is an argument of every handler), bcrypt (idealised: \<open>matchPassword\<close> accepts exactly
  the hashed password), the streaming of a download body, the environment configuration
  beyond the two mail variables, the delivery of mail, and the interleaving of the
  other handlers: outside \<open>Interleaving\<close> each request is one atomic step. A split of
  the folder and file handlers at their awaits (a parent deleted between the lookup and the
  creation of its child, a rename between the lookup and the save) is not modelled; such a
  split of \<open>deleteFile\<close> would show a file whose object is already gone between its two
  awaits, a gap the specification tolerates transiently, so the invariant that every file's
  object is in the bucket is kept as \<open>files_inv\<close> of the atomic model and not claimed.
  The \<open>required\<close> validators of the schemas are Mongoose's own checks on every create and
  save and are not restated; the program never parses a secret back, so no decoder is
  modelled.

  \<^bold>\<open>Modelling choices.\<close> MongoDB operations never fail except where the model says so
  (casts and validation); only the external S3 bucket can refuse a command. ObjectIds
  come from a counter, which stands for the driver's unique-id generator; the theorems
  that parse an id back need it below \<open>16 ^ 24\<close> (fewer than \<open>2 ^ 96\<close> documents).
  The random input of a registration or a password reset is the 32 bytes of
  \<open>crypto.randomBytes(32)\<close> whose hex form is not already a stored secret, and the
  key multer-s3 gives an upload is not already in the bucket (\<open>fresh_inputs\<close>): the
  model takes the collision of 256 random bits, or of a generated key, as impossible.
  The fuel of \<open>ancestors\<close> is the folder's own id plus one, enough because every parent
  has a smaller id than its child (\<open>ancestors_enough_fuel\<close>).
\<close>

definition demo_root :: folder where
  "demo_root = \<lparr>folder_id = 0, folder_user = 1, folder_name = ''docs'', parentFolder = None,
                folder_path = [], folder_createdAt = 0\<rparr>"

definition demo_file :: file_doc where
  "demo_file = \<lparr>file_id = 1, file_user = 1, file_name = ''a.txt'', s3Key = ''k1'',
                file_folder = None, file_size = 3, mimeType = ''text/plain'', file_createdAt = 0\<rparr>"

definition demo_state :: state where
  "demo_state = init_state\<lparr>folders := [demo_root], files := [demo_file], next_oid := 2,
                            bucket := [''k1'' \<mapsto> ''abc'']\<rparr>"

definition demo_user :: user where
  "demo_user = \<lparr>user_id = 0, firstName = ''Ada'', lastName = ''L'', email = ''a@x.com'',
                password = Hashed ''pw'', status = Inactive, user_createdAt = 0\<rparr>"

definition demo_act_token :: token where
  "demo_act_token = \<lparr>token_id = 1, token_userId = 0, token_value = ''s1'', token_type = Activation,
                     token_createdAt = 0\<rparr>"

definition demo_reset_token :: token where
  "demo_reset_token = \<lparr>token_id = 2, token_userId = 0, token_value = ''r1'', token_type = Reset,
                       token_createdAt = 0\<rparr>"

definition demo_accounts :: state where
  "demo_accounts = init_state\<lparr>users := [demo_user], tokens := [demo_act_token, demo_reset_token],
     next_oid := 3\<rparr>"

definition demo_act_token2 :: token where
  "demo_act_token2 = \<lparr>token_id = 3, token_userId = 0, token_value = ''s2'', token_type = Activation,
                      token_createdAt = 0\<rparr>"

definition demo_two_acts :: state where
  "demo_two_acts = demo_accounts\<lparr>tokens := [demo_act_token, demo_act_token2], next_oid := 4\<rparr>"

definition demo_upload :: upload where
  "demo_upload = \<lparr>up_originalname = ''a.txt'', up_key = ''k9'', up_size = 3, up_mimetype = ''text/plain''\<rparr>"

definition run_f0 :: folder where
  "run_f0 = \<lparr>folder_id = 0, folder_user = 7, folder_name = ''a'', parentFolder = None,
              folder_path = [], folder_createdAt = 0\<rparr>"

definition run_f1 :: folder where
  "run_f1 = \<lparr>folder_id = 1, folder_user = 7, folder_name = ''b'', parentFolder = Some 0,
              folder_path = ''/'' @ show_oid 0, folder_createdAt = 1\<rparr>"

definition run_s1 :: state where
  "run_s1 = init_state\<lparr>folders := [run_f0], next_oid := 1\<rparr>"

definition run_s2 :: state where
  "run_s2 = init_state\<lparr>folders := [run_f0, run_f1], next_oid := 2\<rparr>"

definition demo_rnd :: "8 word list" where
  "demo_rnd = replicate 32 1"

definition reg_state :: state where
  "reg_state = snd (handle 0 (AuthApi (Register None ''A'' ''B'' ''a@x.com'' ''pw'' demo_rnd)) init_state)"

definition act_state :: state where
  "act_state = snd (handle 1 (AuthApi (Activate (hex_of_bytes demo_rnd))) reg_state)"

lemmas demo_defs = demo_root_def demo_file_def demo_state_def init_state_def

lemmas demo_account_defs = demo_user_def demo_accounts_def init_state_def demo_act_token_def
  demo_reset_token_def

theorem createFolder_subfolder_witness:
  "\<exists>f. createFolder 1 (Some ''sub'') (Some (show_oid 0)) 5 demo_state =
         (Inr f, demo_state\<lparr>folders := [demo_root, f], next_oid := 3\<rparr>) \<and>
       folder_path f = ''/'' @ show_oid 0"
proof -
  have inv: "folders_inv (next_oid demo_state) (folders demo_state)"
    by (simp add: demo_defs folders_inv_def coll_wf_def root_or_older_def parent_ok_def)
  have "demo_root \<in> set (folders demo_state)" by (simp add: demo_defs)
  from createFolder_subfolder [OF inv this, of 1 "''sub''" 5]
  show ?thesis by (simp add: demo_defs numeral_3_eq_3) blast
qed

theorem createFolder_foreign_parent_witness:
  "createFolder 2 (Some ''x'') (Some (show_oid 0)) 5 demo_state =
     (Inl (Status 403 ''Not authorized''), demo_state)"
  using createFolder_foreign_parent [of demo_state demo_root 2 "Some ''x''" 5]
  by (simp add: demo_defs)

theorem deleteFolder_absent_is_404_witness:
  "deleteFolder 1 (show_oid 5) demo_state = (Inl (Status 404 ''Folder not found''), demo_state)"
  using deleteFolder_absent_is_404 [of "show_oid 5" 5 demo_state 1]
  by (simp add: demo_defs parse_show_oid_mod)

theorem deleteFolder_malformed_id_witness:
  "deleteFolder 1 ''abc'' demo_state = (Inl (Exception CastError), demo_state)"
  using deleteFolder_malformed_id [of "''abc''" 1 demo_state]
  by (simp add: parse_oid_def oid_digits_def)

theorem getFolders_root_only_witness:
  "set [demo_root] = {f \<in> set (folders demo_state). folder_user f = 1 \<and> parentFolder f = None}"
proof -
  have "getFolders 1 (Some ''null'') demo_state = Inr [demo_root]"
    by (simp add: getFolders_def demo_defs)
  moreover have "query_ref (Some ''null'') = None" by simp
  ultimately show ?thesis by (rule getFolders_root_only)
qed

lemma demo_load_file: "load_owned_file 1 (show_oid 1) (files demo_state) = Inr demo_file"
  by (simp add: load_owned_file_def findById_show demo_defs)

theorem deleteFile_success_witness:
  "deleteFile True 1 (show_oid 1) demo_state =
     (Inr ''File removed'', demo_state\<lparr>files := [], bucket := Map.empty, s3_calls := [DeleteObject ''k1'']\<rparr>)"
  using deleteFile_success [OF demo_load_file] by (simp add: demo_defs)

theorem deleteFile_s3_failure_witness:
  "deleteFile False 1 (show_oid 1) demo_state =
     (Inl (Exception S3Error), demo_state\<lparr>s3_calls := [DeleteObject ''k1'']\<rparr>)"
  using deleteFile_s3_failure [OF demo_load_file] by (simp add: demo_defs)

theorem getDownloadUrl_one_hour_witness:
  "\<exists>u. getDownloadUrl 1 (show_oid 1) 10 demo_state = Inr u \<and> url_expires u = 3600010"
proof -
  have eq: "getDownloadUrl 1 (show_oid 1) 10 demo_state = Inr (getSignedUrl ''k1'' 10)"
    using demo_load_file by (simp add: getDownloadUrl_def demo_defs)
  from getDownloadUrl_one_hour [OF eq] eq show ?thesis by auto
qed

theorem downloadFile_control_char_name_witness:
  "fst (downloadFile True 1 (show_oid 1)
          (demo_state\<lparr>files := [demo_file\<lparr>file_name := ''a'' @ [CHR 0x0A]\<rparr>]\<rparr>)) =
     Inl (Status 404 ''File not found on server'')"
proof -
  let ?f = "demo_file\<lparr>file_name := ''a'' @ [CHR 0x0A]\<rparr>"
  let ?s = "demo_state\<lparr>files := [?f]\<rparr>"
  have "load_owned_file 1 (show_oid 1) (files ?s) = Inr ?f"
    by (simp add: load_owned_file_def findById_show demo_defs)
  moreover have "bucket ?s (s3Key ?f) = Some ''abc''" by (simp add: demo_defs)
  moreover have "CHR 0x0A \<in> set (file_name ?f)" by simp
  ultimately show ?thesis by (rule downloadFile_control_char_name)
qed

theorem uploadFileSuccess_unchecked_folder_witness:
  "\<exists>f. uploadFileSuccess 1 (Some \<lparr>up_originalname = ''b'', up_key = ''k2'', up_size = 1, up_mimetype = ''x''\<rparr>)
          (Some (show_oid 99)) 0 demo_state =
         (Inr f, demo_state\<lparr>files := [demo_file, f], next_oid := 3\<rparr>) \<and>
       file_folder f = Some 99"
proof -
  have "parse_oid (show_oid 99) = Some 99" by (simp add: parse_show_oid_mod)
  from uploadFileSuccess_unchecked_folder [OF this refl, where n = "''b''" and k = "''k2''" and
      z = 1 and m = "''x''" and uid = 1 and now = 0 and s = demo_state]
  show ?thesis by (simp add: demo_defs numeral_3_eq_3) blast
qed

theorem registerUser_creates_inactive_witness:
  "fst (registerUser None ''Bo'' ''B'' ''b@x.com'' ''pw'' [1] 5 demo_accounts) =
     Inr ''Registration successful. Please check your email to activate your account.'' \<and>
   (\<exists>u \<in> set (users (snd (registerUser None ''Bo'' ''B'' ''b@x.com'' ''pw'' [1] 5 demo_accounts))).
      email u = ''b@x.com'' \<and> status u = Inactive)"
proof -
  have "find_user_by_email ''b@x.com'' (users demo_accounts) = None"
    by (simp add: demo_account_defs find_user_by_email_def)
  from registerUser_creates_inactive [OF this surjective_pairing] show ?thesis by blast
qed

lemma demo_activation:
  "activateAccount ''s1'' 7 demo_accounts =
     (Inr (generateToken 0 7, demo_user\<lparr>status := Active\<rparr>), snd (activateAccount ''s1'' 7 demo_accounts))"
  by (simp add: activateAccount_def findToken_def find_user_def demo_account_defs Let_def)

lemma demo_accounts_tokens_inv: "tokens_inv demo_accounts"
  by (simp add: tokens_inv_def coll_wf_def demo_account_defs)

lemma demo_accounts_users_inv: "users_inv demo_accounts"
  by (simp add: users_inv_def coll_wf_def demo_account_defs)

theorem activateAccount_single_use_witness:
  "find_user 0 (users (snd (activateAccount ''s1'' 7 demo_accounts))) = Some (demo_user\<lparr>status := Active\<rparr>) \<and>
   activateAccount ''s1'' 8 (snd (activateAccount ''s1'' 7 demo_accounts)) =
     (Inl (Status 400 ''Invalid or expired token''), snd (activateAccount ''s1'' 7 demo_accounts))"
  using activateAccount_single_use [OF demo_accounts_tokens_inv demo_accounts_users_inv demo_activation]
  by (simp add: demo_user_def)

theorem activateAccount_ignores_age_witness:
  "fst (activateAccount ''s1'' 86400001 demo_accounts) =
     Inr (generateToken 0 86400001, demo_user\<lparr>status := Active\<rparr>)"
proof -
  have t: "findToken ''s1'' Activation (tokens demo_accounts) =
      Some \<lparr>token_id = 1, token_userId = 0, token_value = ''s1'', token_type = Activation,
             token_createdAt = 0\<rparr>"
    by (simp add: findToken_def demo_account_defs)
  have e: "token_expired 86400001 \<lparr>token_id = 1, token_userId = 0, token_value = ''s1'',
             token_type = Activation, token_createdAt = 0\<rparr>"
    by (simp add: token_expired_def token_ttl_ms_def)
  have u: "find_user 0 (users demo_accounts) = Some demo_user"
    by (simp add: find_user_def demo_account_defs)
  from activateAccount_ignores_age [OF t e] u show ?thesis by (simp add: demo_account_defs)
qed

theorem activateAccount_after_reap_witness:
  "\<exists>t \<in> set (tokens demo_accounts). token_value t = ''s1'' \<and> token_type t = Activation \<and>
     \<not> token_expired 5 t"
proof -
  have "fst (activateAccount ''s1'' 5 (ttl_reap 5 demo_accounts)) =
      Inr (generateToken 0 5, demo_user\<lparr>status := Active\<rparr>)"
    by (simp add: activateAccount_def ttl_reap_def token_expired_def token_ttl_ms_def findToken_def
                  find_user_def demo_account_defs Let_def)
  then show ?thesis by (rule activateAccount_after_reap)
qed

lemma demo_find_a: "find_user_by_email ''a@x.com'' (users demo_accounts) = Some demo_user"
  by (simp add: find_user_by_email_def demo_account_defs)

lemma demo_find_nobody: "find_user_by_email ''nobody@x.com'' (users demo_accounts) = None"
  by (simp add: find_user_by_email_def demo_account_defs)

theorem authUser_inactive_distinguishable_witness:
  "authUser ''a@x.com'' ''pw'' 0 demo_accounts \<noteq> authUser ''nobody@x.com'' ''pw'' 0 demo_accounts"
  using authUser_inactive_distinguishable [OF demo_find_a _ _ demo_find_nobody]
  by (simp add: demo_user_def)

theorem authUser_wrong_password_like_unknown_witness:
  "authUser ''a@x.com'' ''bad'' 0 demo_accounts = authUser ''nobody@x.com'' ''bad'' 0 demo_accounts"
  using authUser_wrong_password_like_unknown [OF demo_find_a _ demo_find_nobody]
  by (simp add: demo_user_def)

theorem resetPassword_single_use_witness:
  "\<exists>s'. resetPassword ''r1'' ''new'' demo_accounts = (Inr ''Password reset successful'', s') \<and>
      findToken ''r1'' Reset (tokens s') = None"
proof -
  note ui = demo_accounts_users_inv
  have t: "findToken ''r1'' Reset (tokens demo_accounts) =
      Some \<lparr>token_id = 2, token_userId = 0, token_value = ''r1'', token_type = Reset,
             token_createdAt = 0\<rparr>"
    by (simp add: findToken_def demo_account_defs)
  have u: "find_user 0 (users demo_accounts) = Some demo_user"
    by (simp add: find_user_def demo_account_defs)
  from resetPassword_single_use [OF ui demo_accounts_tokens_inv t] u show ?thesis by auto
qed

theorem forgotPassword_unknown_email_witness:
  "forgotPassword None ''nobody@x.com'' [1] 0 demo_accounts =
     (Inl (Status 404 ''User not found''), demo_accounts)"
  using forgotPassword_unknown_email [OF demo_find_nobody] .

lemma run_step1:
  "handle 0 (FoldersApi (CreateFolder 7 (Some ''a'') None)) init_state = (Inr (RFolder run_f0), run_s1)"
  by (simp add: createFolder_def with_state_def map_result_def run_f0_def run_s1_def init_state_def Let_def)

lemma run_step2:
  "handle 1 (FoldersApi (CreateFolder 7 (Some ''b'') (Some (show_oid 0)))) run_s1 = (Inr (RFolder run_f1), run_s2)"
  by (simp add: createFolder_def with_state_def map_result_def run_f0_def run_f1_def run_s1_def
                run_s2_def init_state_def findById_show child_path_def Let_def)

lemma run_reachable: "reachable run_s2"
proof -
  have "reachable run_s1"
    using reachable.init step.request [OF _ run_step1] by (auto intro: reachable.step)
  then show ?thesis
    using step.request [OF _ run_step2] by (auto intro: reachable.step)
qed

lemma reg_reachable: "reachable reg_state"
proof -
  have "step init_state reg_state"
    unfolding reg_state_def by (rule step.request [OF _ surjective_pairing]) (simp add: init_state_def demo_rnd_def)
  with reachable.init show ?thesis by (rule reachable.step)
qed

lemma reg_act_step: "step reg_state act_state"
  unfolding act_state_def by (rule step.request [OF _ surjective_pairing]) simp

lemma reg_state_eq:
  "reg_state = init_state\<lparr>users := [\<lparr>user_id = 0, firstName = ''A'', lastName = ''B'', email = ''a@x.com'',
        password = Hashed ''pw'', status = Inactive, user_createdAt = 0\<rparr>],
     tokens := [\<lparr>token_id = 1, token_userId = 0, token_value = hex_of_bytes demo_rnd,
        token_type = Activation, token_createdAt = 0\<rparr>],
     next_oid := 2,
     outbox := [\<lparr>mail_to = ''a@x.com'', mail_subject = ''Account Activation - Cloud Canvas'',
        mail_text = ''Please click the following link to activate your account: '' @
                    activation_url None (hex_of_bytes demo_rnd)\<rparr>]\<rparr>"
  by (simp add: reg_state_def registerUser_def with_state_def init_state_def find_user_by_email_def
                createToken_def sendEmail_def Let_def numeral_2_eq_2)

lemma act_state_users: "users act_state = [\<lparr>user_id = 0, firstName = ''A'', lastName = ''B'', email = ''a@x.com'',
        password = Hashed ''pw'', status = Active, user_createdAt = 0\<rparr>]"
  by (simp add: act_state_def reg_state_eq activateAccount_def with_state_def findToken_def find_user_def
                save_def consumeToken_def Let_def init_state_def)

theorem server_invariant_witness:
  "distinct (map folder_id (folders run_s2)) \<and> folder_user run_f0 = folder_user run_f1"
proof -
  have inv: "\<forall>f \<in> set (folders run_s2). \<forall>q \<in> set (folders run_s2).
      parentFolder f = Some (folder_id q) \<longrightarrow> folder_user q = folder_user f"
    and dist: "distinct (map folder_id (folders run_s2))"
    using server_invariant [OF run_reachable] by blast+
  have "run_f0 \<in> set (folders run_s2)" "run_f1 \<in> set (folders run_s2)"
    by (simp_all add: run_s2_def run_s1_def init_state_def)
  moreover have "parentFolder run_f1 = Some (folder_id run_f0)"
    by (simp add: run_f0_def run_f1_def)
  ultimately show ?thesis using inv dist by blast
qed

theorem reachable_materialized_path_witness:
  "folder_path run_f1 = path_of_ids [0] \<and> decode_path (folder_path run_f1) = Some [0]"
proof -
  have "run_f1 \<in> set (folders run_s2)" by (simp add: run_s2_def init_state_def)
  moreover have "ancestors 2 (folders run_s2) (folder_id run_f1) = Some [0]"
    by (simp add: run_s2_def init_state_def run_f0_def run_f1_def numeral_2_eq_2)
  moreover have "next_oid run_s2 \<le> 16 ^ 24" by (simp add: run_s2_def init_state_def)
  ultimately show ?thesis using reachable_materialized_path [OF run_reachable] by blast
qed

theorem reachable_ancestors_fuel_witness:
  "\<exists>as. ancestors (Suc (folder_id run_f1)) (folders run_s2) (folder_id run_f1) = Some as"
proof -
  have "parents_present (folders run_s2)"
    by (simp add: parents_present_def run_s2_def init_state_def run_f0_def run_f1_def)
  moreover have "run_f1 \<in> set (folders run_s2)" by (simp add: run_s2_def init_state_def)
  ultimately show ?thesis by (rule reachable_ancestors_fuel [OF run_reachable])
qed

theorem active_never_reverts_witness: "active_users reg_state \<subseteq> active_users act_state"
  using active_never_reverts [OF reg_reachable reg_act_step] .

theorem activation_consumes_token_witness:
  "\<exists>t \<in> set (tokens reg_state). token_type t = Activation \<and> token_userId t = 0 \<and>
     t \<notin> set (tokens act_state)"
proof -
  have "0 \<in> active_users act_state" by (simp add: active_users_def act_state_users)
  moreover have "0 \<notin> active_users reg_state" by (simp add: active_users_def reg_state_eq init_state_def)
  ultimately show ?thesis by (rule activation_consumes_token [OF reg_reachable reg_act_step])
qed

lemma demo_tokens_found:
  "findToken ''s1'' Activation (tokens demo_accounts) = Some demo_act_token"
  "findToken ''r1'' Reset (tokens demo_accounts) = Some demo_reset_token"
  "find_user 0 (users demo_accounts) = Some demo_user"
  by (simp_all add: demo_account_defs findToken_def find_user_def)

theorem activation_race_both_succeed_witness:
  "fst (run_schedule [0, 1, 0, 1, 0, 1, 0, 1]
          [ActThread 5 (ActFind ''s1''), ActThread 6 (ActFind ''s1'')] demo_accounts) =
     [ActThread 5 (ActDone (Inr (generateToken 0 5, demo_user\<lparr>status := Active\<rparr>))),
      ActThread 6 (ActDone (Inr (generateToken 0 6, demo_user\<lparr>status := Active\<rparr>)))]"
  using activation_race_both_succeed [OF demo_tokens_found(1), of demo_user 5 6] demo_tokens_found(3)
  by (simp add: demo_account_defs)

theorem reset_race_last_writer_witness:
  "\<exists>s'. run_schedule [0, 1, 0, 1, 0, 1, 0, 1]
          [ResThread (ResFind ''r1'' ''p1''), ResThread (ResFind ''r1'' ''p2'')] demo_accounts =
        ([ResThread (ResDone (Inr ''Password reset successful'')),
          ResThread (ResDone (Inr ''Password reset successful''))], s') \<and>
        find_user 0 (users s') = Some (demo_user\<lparr>password := Hashed ''p2''\<rparr>)"
  using reset_race_last_writer [OF demo_tokens_found(2), of demo_user] demo_tokens_found(3)
  by (simp add: demo_account_defs)

theorem activation_reset_interleave_witness:
  "\<exists>x s'. run_schedule [1, 0, 0, 1, 1, 0, 1, 0] [ActThread 5 (ActFind ''s1''), ResThread (ResFind ''r1'' ''new'')]
            demo_accounts =
          ([ActThread 5 (ActDone (Inr x)), ResThread (ResDone (Inr ''Password reset successful''))], s') \<and>
          find_user 0 (users s') = Some (demo_user\<lparr>status := Active, password := Hashed ''new''\<rparr>)"
proof -
  have d: "distinct (map user_id (users demo_accounts))" "distinct (map token_id (tokens demo_accounts))"
    by (simp_all add: demo_account_defs)
  have "user_id demo_user = 0" "token_userId demo_act_token = 0" "token_userId demo_reset_token = 0"
    by (simp_all add: demo_account_defs)
  with activation_reset_interleave [OF d, of demo_user, OF _ demo_tokens_found(1) _ demo_tokens_found(2),
      where sch = "[1, 0, 0, 1, 1, 0, 1, 0]" and n = 5 and pw = "''new''"] demo_tokens_found(3)
  show ?thesis by simp
qed

theorem deleteFolder_orphans_children_witness:
  "run_f1 \<in> set (folders (snd (deleteFolder 7 (show_oid 0) run_s2))) \<and>
   find (\<lambda>q. folder_id q = 0) (folders (snd (deleteFolder 7 (show_oid 0) run_s2))) = None"
proof -
  have inv: "folders_inv (next_oid run_s2) (folders run_s2)"
    using sys_inv_folders_inv [OF reachable_sys_inv [OF run_reachable]] .
  have "load_owned_folder 7 (show_oid 0) (folders run_s2) = Inr run_f0"
    using load_owned_folder_found [OF folders_inv_distinct [OF inv], of run_f0 7]
    by (simp add: run_s2_def init_state_def run_f0_def)
  then have run: "deleteFolder 7 (show_oid 0) run_s2 =
                    (Inr ''Folder removed'', snd (deleteFolder 7 (show_oid 0) run_s2))"
    by (simp add: deleteFolder_def)
  have "run_f1 \<in> set (folders run_s2)" "parentFolder run_f1 = Some 0" "parse_oid (show_oid 0) = Some 0"
    by (simp_all add: run_s2_def init_state_def run_f1_def parse_show_oid_mod)
  from deleteFolder_orphans_children [OF inv run this] show ?thesis by simp
qed

theorem upload_bad_folder_orphans_blob_witness:
  "\<exists>s'. handle 0 (FilesApi (UploadFile 7 (Some demo_upload) (Some ''zz'') ''abc'')) run_s2 =
          (Inl (Exception ValidationError), s') \<and> step run_s2 s' \<and>
        bucket s' ''k9'' = Some ''abc'' \<and> ''k9'' \<notin> s3Key ` set (files s')"
proof -
  have "bucket run_s2 (up_key demo_upload) = None" "''zz'' \<noteq> []" "parse_oid ''zz'' = None"
    by (simp_all add: run_s2_def init_state_def demo_upload_def parse_oid_def oid_digits_def)
  from upload_bad_folder_orphans_blob [OF run_reachable this, of 0 7 "''abc''"]
  show ?thesis by (simp add: demo_upload_def)
qed

theorem checkActivation_as_activateAccount_witness:
  "snd (checkActivation ''s1'' demo_accounts) = snd (activateAccount ''s1'' 5 demo_accounts)"
proof -
  have "find (\<lambda>t. token_value t = ''s1'') (tokens demo_accounts) = Some demo_act_token"
    "token_type demo_act_token = Activation"
    by (simp_all add: demo_account_defs)
  from checkActivation_as_activateAccount [OF this] show ?thesis .
qed

theorem checkActivation_accepts_reset_token_witness:
  "\<exists>s'. checkActivation ''r1'' demo_accounts = (ActivatedUser ''a@x.com'', s') \<and>
        find_user 0 (users s') = Some (demo_user\<lparr>status := Active\<rparr>) \<and>
        findToken ''r1'' Reset (tokens s') = None \<and>
        activateAccount ''r1'' 5 demo_accounts = (Inl (Status 400 ''Invalid or expired token''), demo_accounts)"
proof -
  note ui = demo_accounts_users_inv
  have u: "find_user (token_userId demo_reset_token) (users demo_accounts) = Some demo_user"
    using demo_tokens_found(3) by (simp add: demo_reset_token_def)
  from checkActivation_accepts_reset_token [OF demo_accounts_tokens_inv ui demo_tokens_found(2) u]
  show ?thesis by (simp add: demo_user_def)
qed

theorem requests_isolated_witness:
  "isolated 8 run_s2 (snd (handle 0 (FoldersApi (CreateFolder 8 (Some ''x'') None)) run_s2))"
  using requests_isolated [OF run_reachable, of "FoldersApi (CreateFolder 8 (Some ''x'') None)" 8 0
      "fst (handle 0 (FoldersApi (CreateFolder 8 (Some ''x'') None)) run_s2)"]
  by simp

theorem responses_owned_witness: "resp_owned 7 run_s2 (RFolders [run_f0])"
proof -
  have "handle 0 (FoldersApi (GetFolders 7 None)) run_s2 = (Inr (RFolders [run_f0]), run_s2)"
    by (simp add: getFolders_def map_result_def run_s2_def init_state_def run_f0_def run_f1_def)
  from responses_owned [OF this] show ?thesis by simp
qed

theorem renameFolder_changes_only_name_witness:
  "\<exists>f \<in> set (folders run_s2). folder_user f = 7 \<and>
     run_f1\<lparr>folder_name := ''c''\<rparr> = f\<lparr>folder_name := ''c''\<rparr> \<and>
     set [run_f0, run_f1\<lparr>folder_name := ''c''\<rparr>] = insert (run_f1\<lparr>folder_name := ''c''\<rparr>) (set (folders run_s2) - {f}) \<and>
     map folder_id [run_f0, run_f1\<lparr>folder_name := ''c''\<rparr>] = map folder_id (folders run_s2)"
proof -
  have inv: "folders_inv (next_oid run_s2) (folders run_s2)"
    using sys_inv_folders_inv [OF reachable_sys_inv [OF run_reachable]] .
  have "load_owned_folder 7 (show_oid 1) (folders run_s2) = Inr run_f1"
    using load_owned_folder_found [OF folders_inv_distinct [OF inv], of run_f1 7]
    by (simp add: run_s2_def init_state_def run_f1_def)
  then have run: "renameFolder 7 (show_oid 1) (Some ''c'') run_s2 =
      (Inr (run_f1\<lparr>folder_name := ''c''\<rparr>), run_s2\<lparr>folders := [run_f0, run_f1\<lparr>folder_name := ''c''\<rparr>]\<rparr>)"
    by (simp add: renameFolder_def Let_def)
       (simp add: save_def run_s2_def init_state_def run_f0_def run_f1_def)
  from renameFolder_changes_only_name [OF inv run] show ?thesis by simp
qed

theorem registration_race_duplicates_witness:
  "\<exists>s'. run_schedule [0, 1, 0, 1, 0, 1]
          [RegThread 0 (RegFind (None, ''A'', ''B'', ''a@x.com'', ''p'', [1])),
           RegThread 1 (RegFind (None, ''C'', ''D'', ''a@x.com'', ''q'', [2]))] init_state =
        ([RegThread 0 (RegDone (Inr ''Registration successful. Please check your email to activate your account.'')),
          RegThread 1 (RegDone (Inr ''Registration successful. Please check your email to activate your account.''))], s') \<and>
        length (filter (\<lambda>u. email u = ''a@x.com'') (users s')) = 2"
proof -
  have "find_user_by_email ''a@x.com'' (users init_state) = None"
    by (simp add: init_state_def find_user_by_email_def)
  from registration_race_duplicates [OF this]
  show ?thesis .
qed

theorem testEmail_password_suffix_shown_witness:
  "ShowPass ''***abc'' \<in> set (fst (testEmail \<lparr>EMAIL_USER = Some ''a@x.com'', EMAIL_PASS = Some ''abc''\<rparr>
                                               (Inr ()) (Inr ''m1'') ''t0''))"
proof -
  have "\<exists>q. ShowPass (''***'' @ q) \<in> set (fst (testEmail \<lparr>EMAIL_USER = Some ''a@x.com'',
             EMAIL_PASS = Some ''abc''\<rparr> (Inr ()) (Inr ''m1'') ''t0'')) \<and>
           suffix q ''abc'' \<and> length q = min 4 (length ''abc'')"
    by (rule testEmail_password_suffix_shown) simp_all
  then obtain q where q: "ShowPass (''***'' @ q) \<in> set (fst (testEmail \<lparr>EMAIL_USER = Some ''a@x.com'',
                       EMAIL_PASS = Some ''abc''\<rparr> (Inr ()) (Inr ''m1'') ''t0''))"
    and sq: "suffix q ''abc''" and lq: "length q = min 4 (length ''abc'')"
    by blast
  from lq have "q = ''abc''" using suffix_same_length [OF sq] by simp
  with q show ?thesis by simp
qed

theorem password_reset_end_to_end_witness:
  "\<exists>s2. resetPassword (hex_of_bytes demo_rnd) ''new'' (snd (forgotPassword None ''a@x.com'' demo_rnd 5 demo_accounts)) =
          (Inr ''Password reset successful'', s2) \<and>
        find_user 0 (users s2) = Some (demo_user\<lparr>password := Hashed ''new''\<rparr>)"
proof -
  have fresh: "hex_of_bytes demo_rnd \<notin> token_value ` set (tokens demo_accounts)"
    by (auto simp: demo_account_defs demo_rnd_def dest: arg_cong [where f = length])
  from password_reset_end_to_end [where pw = "''new''" and client = None and now = 5, OF demo_accounts_users_inv demo_accounts_tokens_inv
         demo_find_a fresh surjective_pairing]
  show ?thesis by (simp add: demo_user_def) blast
qed

theorem renameFile_changes_only_name_witness:
  "\<exists>f \<in> set (files demo_state). file_user f = 1 \<and>
     demo_file\<lparr>file_name := ''b.txt''\<rparr> = f\<lparr>file_name := ''b.txt''\<rparr> \<and>
     set [demo_file\<lparr>file_name := ''b.txt''\<rparr>] = insert (demo_file\<lparr>file_name := ''b.txt''\<rparr>) (set (files demo_state) - {f})"
proof -
  have inv: "files_inv demo_state" by (simp add: files_inv_def coll_wf_def demo_defs)
  have run: "renameFile 1 (show_oid 1) (Some ''b.txt'') demo_state =
      (Inr (demo_file\<lparr>file_name := ''b.txt''\<rparr>), demo_state\<lparr>files := [demo_file\<lparr>file_name := ''b.txt''\<rparr>]\<rparr>)"
    unfolding renameFile_def demo_load_file by (simp add: Let_def save_def demo_defs)
  from renameFile_changes_only_name [OF inv run] show ?thesis by simp blast
qed

theorem activation_two_tokens_interleave_witness:
  "\<exists>x y s'. run_schedule [1, 0, 0, 1, 1, 0, 1, 0]
               [ActThread 5 (ActFind ''s1''), ActThread 6 (ActFind ''s2'')] demo_two_acts =
             ([ActThread 5 (ActDone (Inr x)), ActThread 6 (ActDone (Inr y))], s') \<and>
             find_user 0 (users s') = Some (demo_user\<lparr>status := Active\<rparr>)"
proof -
  have d: "distinct (map user_id (users demo_two_acts))" "distinct (map token_id (tokens demo_two_acts))"
    by (simp_all add: demo_two_acts_def demo_act_token2_def demo_account_defs)
  have u: "find_user (user_id demo_user) (users demo_two_acts) = Some demo_user"
    by (simp add: find_user_def demo_two_acts_def demo_account_defs)
  have a: "findToken ''s1'' Activation (tokens demo_two_acts) = Some demo_act_token"
    and b: "findToken ''s2'' Activation (tokens demo_two_acts) = Some demo_act_token2"
    by (simp_all add: findToken_def demo_two_acts_def demo_act_token2_def demo_account_defs)
  have o: "token_userId demo_act_token = user_id demo_user" "token_userId demo_act_token2 = user_id demo_user"
    by (simp_all add: demo_act_token2_def demo_account_defs)
  from activation_two_tokens_interleave [where sch = "[1, 0, 0, 1, 1, 0, 1, 0]" and na = 5 and nb = 6,
      OF d u a o(1) b o(2)]
  show ?thesis by (simp add: demo_user_def)
qed

theorem reset_link_logged_on_mail_failure_witness:
  "DevLink (reset_url None (hex_of_bytes demo_rnd))
     \<in> set (forgotPassword_console None ''a@x.com'' demo_rnd demo_accounts (Inl ''Invalid login'')) \<and>
   DevLink (activation_url None (hex_of_bytes demo_rnd))
     \<in> set (registerUser_console None ''nobody@x.com'' demo_rnd demo_accounts (Inl ''Invalid login'')) \<and>
   (\<exists>s2. resetPassword (hex_of_bytes demo_rnd) ''new'' (snd (forgotPassword None ''a@x.com'' demo_rnd 5 demo_accounts)) =
          (Inr ''Password reset successful'', s2) \<and>
        find_user 0 (users s2) = Some (demo_user\<lparr>password := Hashed ''new''\<rparr>))"
proof -
  have fresh: "hex_of_bytes demo_rnd \<notin> token_value ` set (tokens demo_accounts)"
    by (auto simp: demo_account_defs demo_rnd_def dest: arg_cong [where f = length])
  from reset_link_logged_on_mail_failure [where pw = "''new''" and client = None and now = 5
         and err = "''Invalid login''" and em' = "''nobody@x.com''",
         OF demo_accounts_users_inv demo_accounts_tokens_inv demo_find_a fresh surjective_pairing]
    demo_find_nobody
  show ?thesis by (simp add: demo_user_def)
qed

end
